(* ===== verification/Gw_Prelude.thy ===== *)
theory Gw_Prelude
  imports Main "HOL-Library.Word" "HOL-Library.AList" "HOL-Library.Multiset"
begin

text \<open>
  Shared vocabulary of the development: the machine integers of the Rust sources, the
  result type of code that can panic, saturating subtraction, clocks, and the generic
  lemmas on words and lists that the component theories use.

  Integers have the width of the source (\<open>u64\<close>, \<open>usize\<close> on a 64-bit target, \<open>u128\<close>)
  and wrap around, as they do in the release profile of \<open>Cargo.toml\<close>, which does not
  switch overflow checks on.  Addresses and hashes are words of their size.  \<open>Instant\<close> and
  \<open>Duration\<close> are natural numbers of nanoseconds; \<open>Instant::elapsed\<close> saturates at zero, as
  subtraction on \<open>nat\<close> does.
\<close>

type_synonym u8 = "8 word"
type_synonym u16 = "16 word"
type_synonym u32 = "32 word"
type_synonym u64 = "64 word"
type_synonym u96 = "96 word"
type_synonym u128 = "128 word"
type_synonym usize = "64 word"
type_synonym address = "160 word"
type_synonym b256 = "256 word"
type_synonym bytes = "8 word list"
type_synonym instant = nat
type_synonym duration = nat

text \<open>A computation that may panic: \<open>Inl\<close> carries the message of the panic.\<close>

type_synonym 'a run = "string + 'a"

named_theorems run_simps \<open>evaluation of the panic monad\<close>
named_theorems map_simps \<open>lookup laws of the std collections\<close>
named_theorems wf_intros \<open>operations keep the well-formedness of their structure\<close>

definition bindR :: "'e + 'a \<Rightarrow> ('a \<Rightarrow> 'e + 'b) \<Rightarrow> 'e + 'b" where
  "bindR m f = (case m of Inl e \<Rightarrow> Inl e | Inr x \<Rightarrow> f x)"

definition ensureR :: "bool \<Rightarrow> 'e \<Rightarrow> 'e + unit" where
  "ensureR b e = (if b then Inr () else Inl e)"

lemma bindR_simps [simp, run_simps]:
  "bindR (Inl e) f = Inl e" "bindR (Inr x) f = f x"
  by (simp_all add: bindR_def)

lemma bindR_eq_Inr [run_simps]: "bindR m f = Inr y \<longleftrightarrow> (\<exists>x. m = Inr x \<and> f x = Inr y)"
  by (cases m) auto

lemma bindR_eq_Inl [run_simps]:
  "bindR m f = Inl e \<longleftrightarrow> m = Inl e \<or> (\<exists>x. m = Inr x \<and> f x = Inl e)"
  by (cases m) auto

lemma ensureR_eq [simp, run_simps]:
  "ensureR b e = Inr u \<longleftrightarrow> b" "ensureR b e = Inl e' \<longleftrightarrow> \<not> b \<and> e' = e"
  by (auto simp: ensureR_def)

lemma ensureR_simps [simp]: "ensureR True e = Inr ()" "ensureR False e = Inl e"
  by (simp_all add: ensureR_def)

definition saturating_sub :: "'a::len word \<Rightarrow> 'a word \<Rightarrow> 'a word" where
  "saturating_sub a b = (if b \<le> a then a - b else 0)"

lemma unat_saturating_sub: "unat (saturating_sub a b) = unat a - unat b"
  by (simp add: saturating_sub_def unat_sub word_le_nat_alt)

definition len64 :: "'a list \<Rightarrow> usize" where
  "len64 xs = of_nat (length xs)"

lemma len64_Nil [simp]: "len64 [] = 0"
  by (simp add: len64_def)

lemma len64_snoc [simp]: "len64 (xs @ [x]) = len64 xs + 1"
  by (simp add: len64_def)

lemma unat_len64: "length xs < 2 ^ 64 \<Longrightarrow> unat (len64 xs) = length xs"
  by (simp add: len64_def unat_of_nat take_bit_nat_eq_self)

lemma unat_u64_less: "unat (x :: 64 word) < 2 ^ 64"
  using unsigned_less[of x, where ?'a = nat] by simp

lemma len64_eq_0: "length xs < 2 ^ 64 \<Longrightarrow> len64 xs = 0 \<longleftrightarrow> xs = []"
  using unat_len64[of xs] by (metis length_0_conv len64_Nil unat_0)

definition from_secs :: "nat \<Rightarrow> duration" where
  "from_secs s = s * 1000000000"

definition from_millis :: "nat \<Rightarrow> duration" where
  "from_millis ms = ms * 1000000"

definition elapsed :: "instant \<Rightarrow> instant \<Rightarrow> duration" where
  "elapsed now since = now - since"

lemma unat_plus_exact:
  fixes a b :: "'a::len word"
  shows "unat a + unat b < 2 ^ LENGTH('a) \<Longrightarrow> unat (a + b) = unat a + unat b"
  by (simp add: unat_add_lem)

lemma unat_times_exact:
  fixes a b :: "'a::len word"
  shows "unat a * unat b < 2 ^ LENGTH('a) \<Longrightarrow> unat (a * b) = unat a * unat b"
  by (simp add: unat_mult_lem)

lemma in_set_tl: "x \<in> set (tl xs) \<Longrightarrow> x \<in> set xs"
  by (cases xs) auto

lemma option_eqI: "(\<And>x. a = Some x \<longleftrightarrow> b = Some x) \<Longrightarrow> a = b"
  by (cases a; cases b) auto

lemma in_snd_image: "v \<in> snd ` A \<longleftrightarrow> (\<exists>k. (k, v) \<in> A)"
  by force

lemma map_of_rev_distinct:
  assumes "distinct (map fst kvs)"
  shows "map_of (rev kvs) = map_of kvs"
proof
  fix k
  show "map_of (rev kvs) k = map_of kvs k"
    using assms by (intro option_eqI) (simp add: distinct_map rev_map[symmetric])
qed

lemma sum_list_word_snoc [simp]: "sum_list (xs @ [x :: 'a::len word]) = sum_list xs + x"
  by simp

end
