(* ===== verification/Rust_Maps.thy ===== *)
theory Rust_Maps
  imports Gw_Prelude
begin

text \<open>
  The two maps of the Rust standard library that the gateway uses.

  \<open>BTreeMap\<close> is an association list with strictly increasing keys, so that
  \<open>first_key_value\<close> and iteration are its order.  \<open>HashMap\<close> is an association list with
  distinct keys in the map's iteration order; that order is unspecified in Rust, and no
  theorem of the development fixes it.

  The clients see both through interfaces: the locale \<open>key_map\<close> holds the laws of lookup
  after insertion, removal and \<open>retain\<close>; \<open>ordered_key_map\<close> adds what \<open>first_key_value\<close>
  promises.  Both are interpreted on the association lists below.
\<close>

locale key_map =
  fixes get :: "'m \<Rightarrow> 'k \<Rightarrow> 'v option"
    and insert_kv :: "'k \<Rightarrow> 'v \<Rightarrow> 'm \<Rightarrow> 'm"
    and remove_k :: "'k \<Rightarrow> 'm \<Rightarrow> 'm"
    and retain_k :: "('k \<Rightarrow> bool) \<Rightarrow> 'm \<Rightarrow> 'm"
    and empty_m :: "'m"
    and wf :: "'m \<Rightarrow> bool"
  assumes get_empty: "get empty_m = (\<lambda>_. None)"
    and get_insert: "wf m \<Longrightarrow> get (insert_kv k v m) = (get m)(k \<mapsto> v)"
    and get_remove: "wf m \<Longrightarrow> get (remove_k k m) = (get m)(k := None)"
    and get_retain: "wf m \<Longrightarrow> get (retain_k P m) = (\<lambda>k. if P k then get m k else None)"
    and wf_empty: "wf empty_m"
    and wf_insert: "wf m \<Longrightarrow> wf (insert_kv k v m)"
    and wf_remove: "wf m \<Longrightarrow> wf (remove_k k m)"
    and wf_retain: "wf m \<Longrightarrow> wf (retain_k P m)"
begin

lemma insert_remove_fresh:
  "wf m \<Longrightarrow> get m k = None \<Longrightarrow> get (remove_k k (insert_kv k v m)) = get m"
  by (auto simp: get_remove get_insert wf_insert)

lemma dom_retain: "wf m \<Longrightarrow> dom (get (retain_k P m)) = {k \<in> dom (get m). P k}"
  by (auto simp: get_retain split: if_splits)

lemma retain_insert:
  "wf m \<Longrightarrow> P k \<Longrightarrow> get (retain_k P (insert_kv k v m)) = get (insert_kv k v (retain_k P m))"
  by (auto simp: get_retain get_insert wf_insert wf_retain fun_eq_iff)

end

locale ordered_key_map = key_map get insert_kv remove_k retain_k empty_m wf
  for get :: "'m \<Rightarrow> 'k::linorder \<Rightarrow> 'v option"
    and insert_kv remove_k retain_k empty_m wf +
  fixes first_kv :: "'m \<Rightarrow> ('k \<times> 'v) option"
  assumes first_None: "wf m \<Longrightarrow> first_kv m = None \<longleftrightarrow> get m = (\<lambda>_. None)"
    and first_Some: "wf m \<Longrightarrow> first_kv m = Some (k, v) \<longleftrightarrow>
      get m k = Some v \<and> (\<forall>k' \<in> dom (get m). k \<le> k')"
begin

lemma first_retain_ge:
  assumes "wf m" and "first_kv (retain_k (\<lambda>k. lo \<le> k) m) = Some (k, v)"
  shows "lo \<le> k" and "get m k = Some v" and "\<And>k'. k' \<in> dom (get m) \<Longrightarrow> lo \<le> k' \<Longrightarrow> k \<le> k'"
  using assms first_Some[of "retain_k (\<lambda>k. lo \<le> k) m" k v]
  by (auto simp: get_retain wf_retain dom_def split: if_splits)

lemma first_insert_le:
  assumes "wf m" and "first_kv (insert_kv k v m) = Some (k', v')"
  shows "k' \<le> k"
  using assms first_Some[of "insert_kv k v m" k' v'] by (auto simp: get_insert wf_insert)

lemma first_insert_Some: "wf m \<Longrightarrow> \<exists>k' v'. first_kv (insert_kv k v m) = Some (k', v')"
  using first_None[OF wf_insert, of m k v]
  by (cases "first_kv (insert_kv k v m)") (auto simp: get_insert fun_eq_iff split: if_splits)

end

subsection \<open>BTreeMap\<close>

type_synonym ('k, 'v) btree = "('k \<times> 'v) list"

definition bt_wf :: "('k::linorder, 'v) btree \<Rightarrow> bool" where
  "bt_wf m \<longleftrightarrow> sorted_wrt (<) (map fst m)"

definition bt_get :: "('k, 'v) btree \<Rightarrow> 'k \<Rightarrow> 'v option" where
  "bt_get m = map_of m"

fun bt_insert :: "'k::linorder \<Rightarrow> 'v \<Rightarrow> ('k, 'v) btree \<Rightarrow> ('k, 'v) btree" where
  "bt_insert k v [] = [(k, v)]"
| "bt_insert k v (e # m) =
     (if fst e < k then e # bt_insert k v m
      else if fst e = k then (k, v) # m
      else (k, v) # e # m)"

definition bt_retain :: "('k \<Rightarrow> bool) \<Rightarrow> ('k, 'v) btree \<Rightarrow> ('k, 'v) btree" where
  "bt_retain P m = filter (\<lambda>e. P (fst e)) m"

definition bt_remove :: "'k \<Rightarrow> ('k, 'v) btree \<Rightarrow> ('k, 'v) btree" where
  "bt_remove k m = bt_retain (\<lambda>k'. k' \<noteq> k) m"

definition bt_first :: "('k, 'v) btree \<Rightarrow> ('k \<times> 'v) option" where
  "bt_first m = (case m of [] \<Rightarrow> None | e # _ \<Rightarrow> Some e)"

definition bt_pop_first :: "('k, 'v) btree \<Rightarrow> ('k \<times> 'v) option \<times> ('k, 'v) btree" where
  "bt_pop_first m = (bt_first m, tl m)"

lemma map_of_filter_key:
  "map_of (filter (\<lambda>e. P (fst e)) m) = (\<lambda>k. if P k then map_of m k else None)"
  by (induction m) (auto simp: fun_eq_iff)

lemma set_keys_bt_insert: "fst ` set (bt_insert k v m) = insert k (fst ` set m)"
  by (induction m) auto

lemma set_bt_insert: "set (bt_insert k v m) \<subseteq> insert (k, v) (set m)"
  by (induction m) auto

lemma bt_insert_nonempty [simp]: "bt_insert k v m \<noteq> []"
  by (cases m) auto

lemma map_of_bt_insert: "bt_wf m \<Longrightarrow> map_of (bt_insert k v m) = (map_of m)(k \<mapsto> v)"
proof (induction m)
  case Nil
  then show ?case by (simp add: fun_eq_iff)
next
  case (Cons e m)
  then have "\<And>k'. k' \<le> fst e \<Longrightarrow> k' \<noteq> fst e \<Longrightarrow> map_of m k' = None"
    by (force simp: bt_wf_def map_of_eq_None_iff)
  with Cons show ?case
    by (cases e) (auto simp: bt_wf_def fun_eq_iff)
qed

lemma map_of_bt_retain: "map_of (bt_retain P m) = (\<lambda>k. if P k then map_of m k else None)"
  by (simp add: bt_retain_def map_of_filter_key)

lemma map_of_bt_remove: "map_of (bt_remove k m) = (map_of m)(k := None)"
  by (auto simp: bt_remove_def map_of_bt_retain)

lemma bt_wf_insert [wf_intros]: "bt_wf m \<Longrightarrow> bt_wf (bt_insert k v m)"
proof (induction m)
  case (Cons e m)
  from Cons.prems have "\<And>x. x \<in> fst ` set m \<Longrightarrow> fst e < x" and "bt_wf m"
    by (auto simp: bt_wf_def)
  with Cons.IH Cons.prems show ?case
    using set_keys_bt_insert[of k v m] by (fastforce simp: bt_wf_def)
qed (simp add: bt_wf_def)

lemma bt_wf_retain [wf_intros]: "bt_wf m \<Longrightarrow> bt_wf (bt_retain P m)"
  by (induction m) (auto simp: bt_wf_def bt_retain_def)

lemma bt_wf_remove [wf_intros]: "bt_wf m \<Longrightarrow> bt_wf (bt_remove k m)"
  by (simp add: bt_remove_def bt_wf_retain)

lemma bt_wf_tl [wf_intros]: "bt_wf m \<Longrightarrow> bt_wf (tl m)"
  by (cases m) (auto simp: bt_wf_def)

lemma bt_wf_Nil [simp]: "bt_wf []"
  by (simp add: bt_wf_def)

lemma bt_wf_distinct: "bt_wf m \<Longrightarrow> distinct (map fst m)"
  by (induction m) (auto simp: bt_wf_def)

lemma bt_get_in: "bt_get m k = Some v \<Longrightarrow> (k, v) \<in> set m"
  by (simp add: bt_get_def map_of_SomeD)

lemma bt_in_get: "bt_wf m \<Longrightarrow> (k, v) \<in> set m \<Longrightarrow> bt_get m k = Some v"
  by (simp add: bt_get_def bt_wf_distinct)

lemma bt_first_in: "bt_first m = Some e \<Longrightarrow> e \<in> set m"
  by (cases m) (auto simp: bt_first_def)

lemma bt_first_eq_None [simp]: "bt_first m = None \<longleftrightarrow> m = []"
  by (cases m) (auto simp: bt_first_def)

lemma set_bt_retain: "set (bt_retain P m) = {e \<in> set m. P (fst e)}"
  by (auto simp: bt_retain_def)

lemma set_bt_remove: "set (bt_remove k m) = {e \<in> set m. fst e \<noteq> k}"
  by (auto simp: bt_remove_def set_bt_retain)

interpretation bt: ordered_key_map bt_get bt_insert bt_remove bt_retain "[]" bt_wf bt_first
proof (unfold_locales, goal_cases)
  case (9 m)
  then show ?case by (cases m) (auto simp: bt_get_def fun_eq_iff)
next
  case (10 m k v)
  show ?case
  proof (cases m)
    case (Cons e es)
    with 10 have less: "\<And>k'. k' \<in> fst ` set es \<Longrightarrow> fst e < k'"
      by (auto simp: bt_wf_def)
    have dom: "dom (bt_get m) = insert (fst e) (fst ` set es)"
      by (auto simp: bt_get_def Cons dom_map_of_conv_image_fst)
    have "k = fst e" if "bt_get m k = Some v" "\<forall>k' \<in> dom (bt_get m). k \<le> k'"
    proof -
      have "k \<in> dom (bt_get m)" using that(1) by blast
      moreover have "k \<le> fst e" using that(2) dom by simp
      ultimately show ?thesis using dom less[of k] by (metis insertE leD)
    qed
    moreover have "bt_get m (fst e) = Some (snd e)" by (simp add: bt_get_def Cons)
    moreover have "\<forall>k' \<in> dom (bt_get m). fst e \<le> k'" using dom less by (auto intro: less_imp_le)
    ultimately show ?thesis by (auto simp: bt_first_def Cons split: prod.splits)
  qed (simp add: bt_first_def bt_get_def)
qed (auto simp: bt_get_def map_of_bt_insert map_of_bt_remove map_of_bt_retain fun_eq_iff
      intro: wf_intros)

subsection \<open>HashMap\<close>

type_synonym ('k, 'v) hmap = "('k \<times> 'v) list"

definition hm_wf :: "('k, 'v) hmap \<Rightarrow> bool" where
  "hm_wf m \<longleftrightarrow> distinct (map fst m)"

definition hm_get :: "('k, 'v) hmap \<Rightarrow> 'k \<Rightarrow> 'v option" where
  "hm_get m = map_of m"

definition hm_insert :: "'k \<Rightarrow> 'v \<Rightarrow> ('k, 'v) hmap \<Rightarrow> ('k, 'v) hmap" where
  "hm_insert k v m = AList.update k v m"

definition hm_retain :: "('k \<Rightarrow> bool) \<Rightarrow> ('k, 'v) hmap \<Rightarrow> ('k, 'v) hmap" where
  "hm_retain P m = filter (\<lambda>e. P (fst e)) m"

definition hm_remove :: "'k \<Rightarrow> ('k, 'v) hmap \<Rightarrow> ('k, 'v) hmap" where
  "hm_remove k m = hm_retain (\<lambda>k'. k' \<noteq> k) m"

lemma hm_get_Nil [simp]: "hm_get [] k = None"
  by (simp add: hm_get_def)

lemma hm_get_Cons [simp]: "hm_get ((k, v) # m) = (hm_get m)(k \<mapsto> v)"
  by (auto simp: hm_get_def)

lemma hm_get_insert [simp, map_simps]: "hm_get (hm_insert k v m) = (hm_get m)(k \<mapsto> v)"
  by (simp add: hm_get_def hm_insert_def update_conv')

lemma hm_get_retain [simp, map_simps]:
  "hm_get (hm_retain P m) = (\<lambda>k. if P k then hm_get m k else None)"
  by (simp add: hm_get_def hm_retain_def map_of_filter_key fun_eq_iff)

lemma hm_get_remove [simp, map_simps]: "hm_get (hm_remove k m) = (hm_get m)(k := None)"
  by (auto simp: hm_remove_def fun_eq_iff)

lemma hm_wf_insert [wf_intros]: "hm_wf m \<Longrightarrow> hm_wf (hm_insert k v m)"
  by (simp add: hm_wf_def hm_insert_def distinct_update)

lemma hm_wf_retain [wf_intros]: "hm_wf m \<Longrightarrow> hm_wf (hm_retain P m)"
  by (induction m) (auto simp: hm_wf_def hm_retain_def)

lemma hm_wf_remove [wf_intros]: "hm_wf m \<Longrightarrow> hm_wf (hm_remove k m)"
  by (simp add: hm_remove_def hm_wf_retain)

lemma hm_wf_Nil [simp]: "hm_wf []"
  by (simp add: hm_wf_def)

lemma hm_get_in: "hm_get m k = Some v \<Longrightarrow> (k, v) \<in> set m"
  by (simp add: hm_get_def map_of_SomeD)

lemma hm_in_get: "hm_wf m \<Longrightarrow> (k, v) \<in> set m \<Longrightarrow> hm_get m k = Some v"
  by (simp add: hm_get_def hm_wf_def)

interpretation hm: key_map hm_get hm_insert hm_remove hm_retain "[]" hm_wf
  by unfold_locales (auto simp: fun_eq_iff intro: wf_intros)

end
