(* ===== verification/Gw_Orders.thy ===== *)
theory Gw_Orders
  imports Rust_Maps
begin

text \<open>
  The data that the components exchange: \<open>crates/common/src/sequencer.rs\<close> (orders, state ids,
  execution results), \<open>crates/common/src/taiko/mod.rs\<close> (anchor and parent parameters) and
  \<open>crates/sequencer/src/types.rs\<close> (block info, simulation results, nonce caches).

  Transactions, headers and blocks come from the alloy crates.  Their records hold the values
  that the sources read through alloy's accessors; signature recovery and the RLP codec are
  parameters of the functions that call them.
\<close>

subsection \<open>Transactions and orders\<close>

record tx_envelope =
  tx_nonce :: u64
  tx_max_fee_per_gas :: u128
  tx_priority_fee_or_price :: u128
  tx_hash :: b256
  tx_input :: bytes

record order =
  ord_sender :: address
  ord_tx :: tx_envelope
  ord_raw :: bytes

abbreviation order_nonce :: "order \<Rightarrow> u64" where
  "order_nonce o1 \<equiv> tx_nonce (ord_tx o1)"

definition order_new_with_sender :: "(tx_envelope \<Rightarrow> bytes) \<Rightarrow> tx_envelope \<Rightarrow> address \<Rightarrow> order" where
  "order_new_with_sender encoded_2718 tx sender =
     \<lparr>ord_sender = sender, ord_tx = tx, ord_raw = encoded_2718 tx\<rparr>"

definition order_new ::
    "(tx_envelope \<Rightarrow> bytes) \<Rightarrow> (tx_envelope \<Rightarrow> string + address) \<Rightarrow> tx_envelope \<Rightarrow> string + order" where
  "order_new encoded_2718 recover_signer tx =
     bindR (recover_signer tx) (\<lambda>sender.
       Inr \<lparr>ord_sender = sender, ord_tx = tx, ord_raw = encoded_2718 tx\<rparr>)"

definition order_decode ::
    "(bytes \<Rightarrow> string + tx_envelope) \<Rightarrow> (tx_envelope \<Rightarrow> bytes) \<Rightarrow> (tx_envelope \<Rightarrow> string + address) \<Rightarrow>
     bytes \<Rightarrow> string + order" where
  "order_decode rlp_decode encoded_2718 recover_signer raw =
     bindR (rlp_decode raw) (order_new encoded_2718 recover_signer)"

definition valid_for_base_fee :: "order \<Rightarrow> u128 \<Rightarrow> bool" where
  "valid_for_base_fee o1 base_fee \<longleftrightarrow> base_fee \<le> tx_max_fee_per_gas (ord_tx o1)"

subsection \<open>State ids and execution results\<close>

datatype state_id = StateId u64

fun state_id_add :: "state_id \<Rightarrow> u64 \<Rightarrow> state_id" where
  "state_id_add (StateId i) rhs = StateId (i + rhs)"

datatype invalid_reason =
    NonceTooLow u64 u64
  | NonceTooHigh u64 u64
  | NotEnoughGas
  | CapLessThanBaseFee
  | InsufficientFunds u128 u128
  | StateIdNotFound u64
  | Uknown string

datatype execution_result =
    Success state_id u128 u128
  | Revert state_id u128 u128
  | Invalid invalid_reason

fun result_is_success :: "execution_result \<Rightarrow> bool" where
  "result_is_success (Success _ _ _) = True"
| "result_is_success _ = False"

subsection \<open>Headers, blocks, anchors\<close>

record header =
  hd_number :: u64
  hd_hash :: b256
  hd_parent_hash :: b256
  hd_state_root :: b256
  hd_beneficiary :: address
  hd_timestamp :: u64
  hd_gas_used :: u64
  hd_gas_limit :: u64

text \<open>\<open>blk_full\<close>: the transactions are full objects, not only hashes (\<open>as_transactions\<close> is
  \<open>Some\<close>).  Each transaction carries its recovered sender.\<close>

record block =
  blk_header :: header
  blk_full :: bool
  blk_txs :: "(address \<times> tx_envelope) list"

definition as_transactions :: "block \<Rightarrow> (address \<times> tx_envelope) list option" where
  "as_transactions b = (if blk_full b then Some (blk_txs b) else None)"

definition GOLDEN_TOUCH_ADDRESS :: address where
  "GOLDEN_TOUCH_ADDRESS = 0x0000777735367b36bC9B61C50022d9D0700dB4Ec"

definition ANCHOR_GAS_LIMIT :: u64 where
  "ANCHOR_GAS_LIMIT = 1000000"

record anchor_params =
  ap_block_id :: u64
  ap_state_root :: b256
  ap_created_at :: u64

record parent_params =
  pp_timestamp :: u64
  pp_gas_used :: u32
  pp_block_number :: u64
  pp_hash :: b256
  pp_anchor_nonce :: u64
  pp_beneficiary :: address

text \<open>\<open>gas_used.try_into().unwrap()\<close> narrows to 32 bits and panics if the value does not fit.\<close>

definition from_header_and_anchor_nonce :: "header \<Rightarrow> u64 \<Rightarrow> parent_params run" where
  "from_header_and_anchor_nonce h anchor_nonce =
     (if unat (hd_gas_used h) < 2 ^ 32 then
        Inr \<lparr>pp_timestamp = hd_timestamp h, pp_gas_used = ucast (hd_gas_used h),
             pp_block_number = hd_number h, pp_hash = hd_hash h,
             pp_anchor_nonce = anchor_nonce, pp_beneficiary = hd_beneficiary h\<rparr>
      else Inl ''called `Result::unwrap()` on an `Err` value'')"

subsection \<open>Block info and simulation results\<close>

record block_info =
  bi_anchor_params :: anchor_params
  bi_block_number :: u64
  bi_base_fee :: u128
  bi_parent_hash :: b256

record simulated_order =
  so_origin_state_id :: state_id
  so_execution_result :: execution_result
  so_sim_time :: duration
  so_order :: order

record valid_order =
  vo_origin_state_id :: state_id
  vo_new_state_id :: state_id
  vo_gas_used :: u128
  vo_builder_payment :: u128
  vo_order :: order

subsection \<open>Nonce caches\<close>

record state_nonces =
  sn_nonces :: "(address, u64) hmap"
  sn_valid_block :: u64

definition state_nonces_new :: "u64 \<Rightarrow> state_nonces" where
  "state_nonces_new valid_block = \<lparr>sn_nonces = [], sn_valid_block = valid_block\<rparr>"

definition is_valid_parent :: "state_nonces \<Rightarrow> u64 \<Rightarrow> bool" where
  "is_valid_parent sn parent_block \<longleftrightarrow> sn_valid_block sn = parent_block + 1"

definition is_valid_block :: "state_nonces \<Rightarrow> u64 \<Rightarrow> bool" where
  "is_valid_block sn block_number \<longleftrightarrow> sn_valid_block sn = block_number"

text \<open>Through \<open>Deref\<close> a \<open>StateNonces\<close> is its map: \<open>get\<close>, \<open>insert\<close> and \<open>clear\<close> act on
  \<open>nonces\<close> and leave \<open>valid_block\<close> alone.\<close>

definition sn_get :: "state_nonces \<Rightarrow> address \<Rightarrow> u64 option" where
  "sn_get sn = hm_get (sn_nonces sn)"

definition sn_insert :: "address \<Rightarrow> u64 \<Rightarrow> state_nonces \<Rightarrow> state_nonces" where
  "sn_insert sender nonce sn = sn\<lparr>sn_nonces := hm_insert sender nonce (sn_nonces sn)\<rparr>"

definition sn_clear :: "state_nonces \<Rightarrow> state_nonces" where
  "sn_clear sn = sn\<lparr>sn_nonces := []\<rparr>"

record sorting_nonces =
  srt_state :: state_nonces
  srt_sorting :: state_nonces

definition sorting_nonces_new :: "u64 \<Rightarrow> sorting_nonces" where
  "sorting_nonces_new valid_block =
     \<lparr>srt_state = state_nonces_new valid_block, srt_sorting = state_nonces_new valid_block\<rparr>"

definition get_nonce :: "sorting_nonces \<Rightarrow> address \<Rightarrow> u64 option" where
  "get_nonce sn sender =
     (case sn_get (srt_sorting sn) sender of
        Some n \<Rightarrow> Some n
      | None \<Rightarrow> sn_get (srt_state sn) sender)"

definition insert_state :: "address \<Rightarrow> u64 \<Rightarrow> sorting_nonces \<Rightarrow> sorting_nonces" where
  "insert_state sender nonce sn = sn\<lparr>srt_state := sn_insert sender nonce (srt_state sn)\<rparr>"

definition insert_sorting :: "address \<Rightarrow> u64 \<Rightarrow> sorting_nonces \<Rightarrow> sorting_nonces" where
  "insert_sorting sender nonce sn = sn\<lparr>srt_sorting := sn_insert sender nonce (srt_sorting sn)\<rparr>"

definition valid_block :: "sorting_nonces \<Rightarrow> u64" where
  "valid_block sn = sn_valid_block (srt_state sn)"

definition all_iter :: "sorting_nonces \<Rightarrow> (address \<times> u64) list" where
  "all_iter sn = sn_nonces (srt_state sn) @ sn_nonces (srt_sorting sn)"

fun hm_extend :: "('k, 'v) hmap \<Rightarrow> ('k \<times> 'v) list \<Rightarrow> ('k, 'v) hmap" where
  "hm_extend m [] = m"
| "hm_extend m ((k, v) # kvs) = hm_extend (hm_insert k v m) kvs"

definition all_merged :: "sorting_nonces \<Rightarrow> state_nonces" where
  "all_merged sn =
     (srt_state sn)\<lparr>sn_nonces := hm_extend (sn_nonces (srt_state sn)) (sn_nonces (srt_sorting sn))\<rparr>"

lemma sn_get_simps [simp]:
  "sn_get (sn_insert s n sn) = (sn_get sn)(s \<mapsto> n)"
  "sn_get (sn_clear sn) = (\<lambda>_. None)"
  "sn_get (state_nonces_new b) = (\<lambda>_. None)"
  by (auto simp: sn_get_def sn_insert_def sn_clear_def state_nonces_new_def fun_eq_iff)

lemma sn_get_empty: "sn_nonces sn = [] \<Longrightarrow> sn_get sn = (\<lambda>_. None)"
  by (auto simp: sn_get_def)

lemma sn_valid_block_simps [simp]:
  "sn_valid_block (sn_insert s n sn) = sn_valid_block sn"
  "sn_valid_block (sn_clear sn) = sn_valid_block sn"
  "sn_valid_block (state_nonces_new b) = b"
  by (auto simp: sn_insert_def sn_clear_def state_nonces_new_def)

lemma insert_parts [simp]:
  "srt_sorting (insert_state s n sn) = srt_sorting sn"
  "srt_state (insert_state s n sn) = sn_insert s n (srt_state sn)"
  "srt_state (insert_sorting s n sn) = srt_state sn"
  "srt_sorting (insert_sorting s n sn) = sn_insert s n (srt_sorting sn)"
  by (simp_all add: insert_state_def insert_sorting_def)

lemma valid_block_simps [simp]:
  "valid_block (insert_state s n sn) = valid_block sn"
  "valid_block (insert_sorting s n sn) = valid_block sn"
  "valid_block (sorting_nonces_new b) = b"
  by (auto simp: valid_block_def sorting_nonces_new_def)

lemma sorting_nonces_new_parts [simp]:
  "srt_sorting (sorting_nonces_new b) = state_nonces_new b"
  "srt_state (sorting_nonces_new b) = state_nonces_new b"
  by (auto simp: sorting_nonces_new_def)

text \<open>A simulated nonce shadows the state nonce of its sender; a state nonce never hides a
  simulated one.\<close>

lemma get_nonce_insert_sorting [simp]:
  "get_nonce (insert_sorting s n sn) = (get_nonce sn)(s \<mapsto> n)"
  by (auto simp: get_nonce_def fun_eq_iff split: option.splits)

lemma get_nonce_sorting: "sn_get (srt_sorting sn) s = Some n \<Longrightarrow> get_nonce sn s = Some n"
  by (simp add: get_nonce_def)

lemma hm_get_extend: "hm_wf kvs \<Longrightarrow> hm_get (hm_extend m kvs) = hm_get m ++ hm_get kvs"
proof (induction m kvs rule: hm_extend.induct)
  case (2 m k v kvs)
  then have "hm_wf kvs" and fresh: "hm_get kvs k = None"
    by (auto simp: hm_wf_def hm_get_def map_of_eq_None_iff)
  with 2 show ?case
    by (auto simp: fun_eq_iff map_add_def split: option.splits)
qed (simp add: map_add_def fun_eq_iff)

lemma hm_wf_extend [wf_intros]: "hm_wf m \<Longrightarrow> hm_wf (hm_extend m kvs)"
  by (induction m kvs rule: hm_extend.induct) (auto intro: wf_intros)

text \<open>What the pool learns from a sealed block is what sorting saw: the merged cache answers
  every lookup as \<open>get_nonce\<close> does.\<close>

lemma all_merged_get:
  "hm_wf (sn_nonces (srt_sorting sn)) \<Longrightarrow> sn_get (all_merged sn) = get_nonce sn"
  by (auto simp: all_merged_def sn_get_def get_nonce_def hm_get_extend map_add_def fun_eq_iff
      split: option.splits)

lemma all_merged_valid_block [simp]: "sn_valid_block (all_merged sn) = valid_block sn"
  by (simp add: all_merged_def valid_block_def)

definition sorting_nonces_wf :: "sorting_nonces \<Rightarrow> bool" where
  "sorting_nonces_wf sn \<longleftrightarrow> hm_wf (sn_nonces (srt_state sn)) \<and> hm_wf (sn_nonces (srt_sorting sn))"

lemma sorting_nonces_wf_intros [wf_intros, simp]:
  "sorting_nonces_wf (sorting_nonces_new b)"
  "sorting_nonces_wf sn \<Longrightarrow> sorting_nonces_wf (insert_state s n sn)"
  "sorting_nonces_wf sn \<Longrightarrow> sorting_nonces_wf (insert_sorting s n sn)"
  by (auto simp: sorting_nonces_wf_def state_nonces_new_def sn_insert_def intro: wf_intros)

end
