(* ===== verification/Tx_List.thy ===== *)
theory Tx_List
  imports Gw_Orders
begin

text \<open>
  The per-sender transaction list \<open>TxList\<close> of \<open>crates/sequencer/src/tx_pool.rs\<close> and the
  mempool snapshot \<open>ActiveOrders\<close> of \<open>crates/sequencer/src/sorting.rs\<close>.

  \<open>tl_wf\<close> is the type invariant of a list: every entry sits under its own nonce and belongs to
  the list's sender.  \<open>ao_wf\<close> adds that a snapshot has one list per sender.  Every operation
  keeps them, and under them the assertions of the code cannot fail.
\<close>

subsection \<open>TxList\<close>

record tx_list =
  tl_sender :: address
  tl_txs :: "(u64, order) btree"

definition tl_new :: "address \<Rightarrow> tx_list" where
  "tl_new sender = \<lparr>tl_sender = sender, tl_txs = []\<rparr>"

definition tl_put :: "order \<Rightarrow> tx_list \<Rightarrow> tx_list run" where
  "tl_put tx l =
     (if tl_sender l = ord_sender tx
      then Inr (l\<lparr>tl_txs := bt_insert (order_nonce tx) tx (tl_txs l)\<rparr>)
      else Inl ''assertion `left == right` failed'')"

definition has_tx_by_nonce :: "tx_list \<Rightarrow> u64 \<Rightarrow> u128 \<Rightarrow> bool" where
  "has_tx_by_nonce l nonce base_fee =
     (case bt_get (tl_txs l) nonce of Some tx \<Rightarrow> valid_for_base_fee tx base_fee | None \<Rightarrow> False)"

definition has_tx_by_fee :: "tx_list \<Rightarrow> u128 \<Rightarrow> bool" where
  "has_tx_by_fee l base_fee =
     (case bt_first (tl_txs l) of Some (_, tx) \<Rightarrow> valid_for_base_fee tx base_fee | None \<Rightarrow> False)"

text \<open>Returns whether the list is empty afterwards, and the list.\<close>

definition tl_forward :: "u64 \<Rightarrow> tx_list \<Rightarrow> bool \<times> tx_list" where
  "tl_forward state_nonce l =
     (let l' = l\<lparr>tl_txs := bt_retain (\<lambda>nonce. state_nonce \<le> nonce) (tl_txs l)\<rparr>
      in (tl_txs l' = [], l'))"

definition tl_len :: "tx_list \<Rightarrow> usize" where
  "tl_len l = len64 (tl_txs l)"

definition tl_is_empty :: "tx_list \<Rightarrow> bool" where
  "tl_is_empty l \<longleftrightarrow> tl_txs l = []"

definition first_ready :: "u64 option \<Rightarrow> u128 \<Rightarrow> tx_list \<Rightarrow> order option \<times> tx_list" where
  "first_ready state_nonce base_fee l =
     (case state_nonce of
        Some n \<Rightarrow>
          (case bt_get (tl_txs l) n of
             Some tx \<Rightarrow>
               if valid_for_base_fee tx base_fee
               then (Some tx, l\<lparr>tl_txs := bt_remove n (tl_txs l)\<rparr>)
               else (None, l)
           | None \<Rightarrow> (None, l))
      | None \<Rightarrow>
          if has_tx_by_fee l base_fee
          then (let (e, txs) = bt_pop_first (tl_txs l) in (map_option snd e, l\<lparr>tl_txs := txs\<rparr>))
          else (None, l))"

definition tl_weight :: "tx_list \<Rightarrow> u128 run" where
  "tl_weight l =
     (case bt_first (tl_txs l) of
        Some (_, tx) \<Rightarrow> Inr (tx_priority_fee_or_price (ord_tx tx))
      | None \<Rightarrow> Inl ''txlist shouldn't be called when empty'')"

definition tl_wf :: "tx_list \<Rightarrow> bool" where
  "tl_wf l \<longleftrightarrow> bt_wf (tl_txs l) \<and>
     (\<forall>(k, tx) \<in> set (tl_txs l). order_nonce tx = k \<and> ord_sender tx = tl_sender l)"

lemma tl_wf_new [simp]: "tl_wf (tl_new s)"
  by (simp add: tl_wf_def tl_new_def)

lemma tl_sender_new [simp]: "tl_sender (tl_new s) = s"
  by (simp add: tl_new_def)

lemma tl_wf_entry: "tl_wf l \<Longrightarrow> bt_get (tl_txs l) n = Some tx \<Longrightarrow>
    order_nonce tx = n \<and> ord_sender tx = tl_sender l"
  by (auto simp: tl_wf_def dest: bt_get_in)

lemma tl_put_Inr:
  "tl_put tx l = Inr l' \<longleftrightarrow> tl_sender l = ord_sender tx \<and>
     l' = l\<lparr>tl_txs := bt_insert (order_nonce tx) tx (tl_txs l)\<rparr>"
  by (auto simp: tl_put_def)

lemma tl_put_wf [wf_intros]: "tl_wf l \<Longrightarrow> tl_put tx l = Inr l' \<Longrightarrow> tl_wf l'"
  using set_bt_insert[of "order_nonce tx" tx "tl_txs l"]
  by (auto simp: tl_wf_def tl_put_Inr intro: wf_intros)

lemma tl_forward_wf [wf_intros]: "tl_wf l \<Longrightarrow> tl_wf (snd (tl_forward n l))"
  by (auto simp: tl_wf_def tl_forward_def Let_def set_bt_retain intro: wf_intros)

lemma tl_sender_forward [simp]: "tl_sender (snd (tl_forward n l)) = tl_sender l"
  by (simp add: tl_forward_def Let_def)

lemma tl_forward_entries: "set (tl_txs (snd (tl_forward n l))) = {e \<in> set (tl_txs l). n \<le> fst e}"
  by (auto simp: tl_forward_def Let_def set_bt_retain)

lemma tl_forward_empty: "fst (tl_forward n l) \<longleftrightarrow> tl_txs (snd (tl_forward n l)) = []"
  by (simp add: tl_forward_def Let_def)

lemma tl_sender_first_ready [simp]: "tl_sender (snd (first_ready sn f l)) = tl_sender l"
  by (auto simp: first_ready_def bt_pop_first_def Let_def split: option.splits)

lemma first_ready_wf [wf_intros]: "tl_wf l \<Longrightarrow> tl_wf (snd (first_ready sn f l))"
  by (auto simp: tl_wf_def first_ready_def bt_pop_first_def set_bt_remove
      split: option.splits intro: wf_intros dest: in_set_tl)

lemma first_ready_keeps:
  assumes "first_ready sn f l = (r, l')"
  shows "tl_sender l' = tl_sender l" and "tl_wf l \<Longrightarrow> tl_wf l'"
  using tl_sender_first_ready[of sn f l] first_ready_wf[of l sn f] assms by auto

lemma has_tx_by_fee_nonempty: "has_tx_by_fee l f \<Longrightarrow> tl_txs l \<noteq> []"
  by (auto simp: has_tx_by_fee_def bt_first_def)

text \<open>What \<open>first_ready\<close> hands out: an order of the list's sender, payable at the base fee, and
  with exactly the state nonce when one is known.\<close>

lemma first_ready_Some:
  assumes "tl_wf l" and "first_ready sn f l = (Some tx, l')"
  shows "ord_sender tx = tl_sender l" and "valid_for_base_fee tx f"
    and "\<And>n. sn = Some n \<Longrightarrow> order_nonce tx = n"
    and "(order_nonce tx, tx) \<in> set (tl_txs l)"
  using assms
  by (auto simp: first_ready_def has_tx_by_fee_def bt_pop_first_def tl_wf_def
      split: option.splits if_splits dest!: bt_get_in bt_first_in)

subsection \<open>ActiveOrders\<close>

record active_orders =
  ao_tx_lists :: "tx_list list"
  ao_num_txs :: usize

definition ao_empty :: active_orders where
  "ao_empty = \<lparr>ao_tx_lists = [], ao_num_txs = 0\<rparr>"

definition weight_or_zero :: "tx_list \<Rightarrow> u128" where
  "weight_or_zero l = (case tl_weight l of Inr w \<Rightarrow> w | Inl _ \<Rightarrow> 0)"

text \<open>\<open>sort_unstable_by_key\<close> calls the key function as soon as there are two elements to
  compare, so an empty list among several makes \<open>weight\<close> panic.  The order among equal
  weights is unspecified in Rust; here it is the iteration order of the map.\<close>

definition active_orders_new :: "(address, tx_list) hmap \<Rightarrow> active_orders run" where
  "active_orders_new txs =
     (let tx_lists = map snd txs in
      if 2 \<le> length tx_lists \<and> (\<exists>l \<in> set tx_lists. tl_is_empty l)
      then Inl ''txlist shouldn't be called when empty''
      else Inr \<lparr>ao_tx_lists = rev (sort_key weight_or_zero (rev tx_lists)),
                ao_num_txs = sum_list (map tl_len tx_lists)\<rparr>)"

fun put_in_lists :: "order \<Rightarrow> tx_list list \<Rightarrow> tx_list list run" where
  "put_in_lists o1 [] = bindR (tl_put o1 (tl_new (ord_sender o1))) (\<lambda>l. Inr [l])"
| "put_in_lists o1 (l # ls) =
     (if tl_sender l = ord_sender o1
      then bindR (tl_put o1 l) (\<lambda>l'. Inr (l' # ls))
      else bindR (put_in_lists o1 ls) (\<lambda>ls'. Inr (l # ls')))"

definition ao_put :: "order \<Rightarrow> active_orders \<Rightarrow> active_orders run" where
  "ao_put o1 ao = bindR (put_in_lists o1 (ao_tx_lists ao)) (\<lambda>ls. Inr (ao\<lparr>ao_tx_lists := ls\<rparr>))"

definition active_txs :: "active_orders \<Rightarrow> usize" where
  "active_txs ao = ao_num_txs ao"

definition active_senders :: "active_orders \<Rightarrow> usize" where
  "active_senders ao = len64 (ao_tx_lists ao)"

fun remove_first_sender :: "address \<Rightarrow> tx_list list \<Rightarrow> tx_list list" where
  "remove_first_sender s [] = []"
| "remove_first_sender s (l # ls) =
     (if tl_sender l = s then ls else l # remove_first_sender s ls)"

definition ao_remove_sender :: "address \<Rightarrow> active_orders \<Rightarrow> active_orders" where
  "ao_remove_sender s ao = ao\<lparr>ao_tx_lists := remove_first_sender s (ao_tx_lists ao)\<rparr>"

text \<open>The lazy iterator \<open>filter_map(..).take(max)\<close>: once \<open>max\<close> orders are out, the remaining
  lists are not visited.\<close>

fun take_ready :: "nat \<Rightarrow> sorting_nonces \<Rightarrow> u128 \<Rightarrow> tx_list list \<Rightarrow> order list \<times> tx_list list" where
  "take_ready 0 sn f ls = ([], ls)"
| "take_ready (Suc n) sn f [] = ([], [])"
| "take_ready (Suc n) sn f (l # ls) =
     (case first_ready (get_nonce sn (tl_sender l)) f l of
        (Some tx, l') \<Rightarrow> (let (txs, ls') = take_ready n sn f ls in (tx # txs, l' # ls'))
      | (None, l') \<Rightarrow> (let (txs, ls') = take_ready (Suc n) sn f ls in (txs, l' # ls')))"

definition get_next_best ::
    "usize \<Rightarrow> sorting_nonces \<Rightarrow> u128 \<Rightarrow> active_orders \<Rightarrow> order list \<times> active_orders" where
  "get_next_best max_n sn f ao =
     (let (txs, ls) = take_ready (unat max_n) sn f (ao_tx_lists ao)
      in (txs, ao\<lparr>ao_tx_lists := ls\<rparr>))"

definition ao_wf :: "active_orders \<Rightarrow> bool" where
  "ao_wf ao \<longleftrightarrow> distinct (map tl_sender (ao_tx_lists ao)) \<and> (\<forall>l \<in> set (ao_tx_lists ao). tl_wf l)"

definition ao_orders :: "active_orders \<Rightarrow> order set" where
  "ao_orders ao = (\<Union>l \<in> set (ao_tx_lists ao). snd ` set (tl_txs l))"

lemma put_in_lists_ok: "\<exists>ls'. put_in_lists o1 ls = Inr ls'"
  by (induction o1 ls rule: put_in_lists.induct) (auto simp: tl_put_def)

lemma put_in_lists_senders:
  "put_in_lists o1 ls = Inr ls' \<Longrightarrow>
     map tl_sender ls' =
       (if ord_sender o1 \<in> tl_sender ` set ls then map tl_sender ls
        else map tl_sender ls @ [ord_sender o1])"
  by (induction o1 ls arbitrary: ls' rule: put_in_lists.induct)
     (auto simp: bindR_eq_Inr tl_put_Inr split: if_splits)

lemma put_in_lists_wf:
  "put_in_lists o1 ls = Inr ls' \<Longrightarrow> \<forall>l \<in> set ls. tl_wf l \<Longrightarrow> \<forall>l \<in> set ls'. tl_wf l"
  by (induction o1 ls arbitrary: ls' rule: put_in_lists.induct)
     (auto simp: bindR_eq_Inr split: if_splits dest: tl_put_wf[OF tl_wf_new] tl_put_wf)

lemma ao_put_ok: "\<exists>ao'. ao_put o1 ao = Inr ao'"
  using put_in_lists_ok[of o1 "ao_tx_lists ao"] by (auto simp: ao_put_def)

lemma ao_put_wf [wf_intros]: "ao_wf ao \<Longrightarrow> ao_put o1 ao = Inr ao' \<Longrightarrow> ao_wf ao'"
  using put_in_lists_wf[of o1 "ao_tx_lists ao"] put_in_lists_senders[of o1 "ao_tx_lists ao"]
  by (auto simp: ao_wf_def ao_put_def bindR_eq_Inr)

lemma remove_first_sender_subset: "set (remove_first_sender s ls) \<subseteq> set ls"
  by (induction s ls rule: remove_first_sender.induct) auto

lemma remove_first_sender_senders:
  "distinct (map tl_sender ls) \<Longrightarrow>
     map tl_sender (remove_first_sender s ls) = filter (\<lambda>s'. s' \<noteq> s) (map tl_sender ls)"
  by (induction s ls rule: remove_first_sender.induct) (auto intro!: filter_True[symmetric])

lemma ao_remove_sender_wf [wf_intros]: "ao_wf ao \<Longrightarrow> ao_wf (ao_remove_sender s ao)"
  using remove_first_sender_subset[of s "ao_tx_lists ao"]
    remove_first_sender_senders[of "ao_tx_lists ao" s]
  by (auto simp: ao_wf_def ao_remove_sender_def)

lemma ao_remove_sender_gone:
  "ao_wf ao \<Longrightarrow> s \<notin> tl_sender ` set (ao_tx_lists (ao_remove_sender s ao))"
  using remove_first_sender_senders[of "ao_tx_lists ao" s, THEN arg_cong[of _ _ set]]
  by (auto simp: ao_wf_def ao_remove_sender_def)

lemma take_ready_senders: "map tl_sender (snd (take_ready n sn f ls)) = map tl_sender ls"
  by (induction n sn f ls rule: take_ready.induct)
     (auto split: prod.splits option.splits simp: first_ready_keeps(1))

lemma take_ready_wf: "\<forall>l \<in> set ls. tl_wf l \<Longrightarrow> \<forall>l \<in> set (snd (take_ready n sn f ls)). tl_wf l"
  by (induction n sn f ls rule: take_ready.induct)
     (auto split: prod.splits option.splits dest: first_ready_keeps(2))

lemma take_ready_length: "length (fst (take_ready n sn f ls)) \<le> n"
  by (induction n sn f ls rule: take_ready.induct) (auto split: prod.splits option.splits)

end
