(* ===== verification/Event_Runs.thy ===== *)
theory Event_Runs
  imports Gw_Prelude
begin

text \<open>
  Runs of a component over a sequence of events.  \<open>step e s\<close> is the handler of event \<open>e\<close> (it may
  panic), \<open>legal e s\<close> what the environment guarantees of an event that is delivered in state
  \<open>s\<close>.  The locale \<open>safe_system\<close> is the contract between the handlers of a component and
  whoever drives it: if every handler keeps the invariant and does not panic on legal events,
  then no sequence of legal events panics, and the invariant holds after each of them.
\<close>

fun run_events :: "('e \<Rightarrow> 's \<Rightarrow> 's run) \<Rightarrow> 'e list \<Rightarrow> 's \<Rightarrow> 's run" where
  "run_events step [] s = Inr s"
| "run_events step (e # es) s = bindR (step e s) (run_events step es)"

fun legal_run :: "('e \<Rightarrow> 's \<Rightarrow> 's run) \<Rightarrow> ('e \<Rightarrow> 's \<Rightarrow> bool) \<Rightarrow> 'e list \<Rightarrow> 's \<Rightarrow> bool" where
  "legal_run step legal [] s = True"
| "legal_run step legal (e # es) s =
     (legal e s \<and> (case step e s of Inl _ \<Rightarrow> True | Inr s' \<Rightarrow> legal_run step legal es s'))"

lemma run_events_append:
  "run_events step (es @ es') s = bindR (run_events step es s) (run_events step es')"
  by (induction es arbitrary: s) (auto simp: bindR_def split: sum.splits)

text \<open>The weaker contract: a handler keeps the invariant or stops with a panic that is meant to
  happen (\<open>allowed\<close>).\<close>

definition guarded :: "(string \<Rightarrow> bool) \<Rightarrow> ('a \<Rightarrow> bool) \<Rightarrow> 'a run \<Rightarrow> bool" where
  "guarded allowed P r = (case r of Inl m \<Rightarrow> allowed m | Inr x \<Rightarrow> P x)"

lemma guarded_simps [simp]:
  "guarded allowed P (Inl m) = allowed m" "guarded allowed P (Inr x) = P x"
  by (simp_all add: guarded_def)

lemma guarded_bind:
  assumes "guarded allowed P m" and "\<And>x. P x \<Longrightarrow> guarded allowed Q (f x)"
  shows "guarded allowed Q (bindR m f)"
  using assms by (cases m) auto

lemma guarded_mono: "guarded allowed P r \<Longrightarrow> (\<And>x. P x \<Longrightarrow> Q x) \<Longrightarrow> guarded allowed Q r"
  by (cases r) auto

lemma guarded_conj: "guarded allowed P r \<Longrightarrow> guarded allowed Q r \<Longrightarrow> guarded allowed (\<lambda>x. P x \<and> Q x) r"
  by (cases r) auto

locale guarded_system =
  fixes step :: "'e \<Rightarrow> 's \<Rightarrow> 's run"
    and legal :: "'e \<Rightarrow> 's \<Rightarrow> bool"
    and inv :: "'s \<Rightarrow> bool"
    and allowed :: "string \<Rightarrow> bool"
  assumes step_guarded: "inv s \<Longrightarrow> legal e s \<Longrightarrow> guarded allowed inv (step e s)"
begin

lemma run_guarded: "inv s \<Longrightarrow> legal_run step legal es s \<Longrightarrow> guarded allowed inv (run_events step es s)"
proof (induction es arbitrary: s)
  case (Cons e es)
  then have "guarded allowed inv (step e s)" using step_guarded[of s e] by simp
  with Cons show ?case by (cases "step e s") auto
qed simp

lemma guarded_run_inv:
  "inv s \<Longrightarrow> legal_run step legal es s \<Longrightarrow> run_events step es s = Inr s' \<Longrightarrow> inv s'"
  using run_guarded[of s es] by simp

lemma guarded_run_panic:
  "inv s \<Longrightarrow> legal_run step legal es s \<Longrightarrow> run_events step es s = Inl m \<Longrightarrow> allowed m"
  using run_guarded[of s es] by simp

end

locale safe_system =
  fixes step :: "'e \<Rightarrow> 's \<Rightarrow> 's run"
    and legal :: "'e \<Rightarrow> 's \<Rightarrow> bool"
    and inv :: "'s \<Rightarrow> bool"
  assumes step_safe: "inv s \<Longrightarrow> legal e s \<Longrightarrow> \<exists>s'. step e s = Inr s' \<and> inv s'"

sublocale safe_system \<subseteq> strict: guarded_system step legal inv "\<lambda>_. False"
proof unfold_locales
  fix s e assume "inv s" "legal e s"
  from step_safe[OF this] show "guarded (\<lambda>_. False) inv (step e s)" by auto
qed

context safe_system begin

lemma run_safe:
  "inv s \<Longrightarrow> legal_run step legal es s \<Longrightarrow> \<exists>s'. run_events step es s = Inr s' \<and> inv s'"
  using strict.run_guarded[of s es] by (cases "run_events step es s") auto

lemma run_inv: "inv s \<Longrightarrow> legal_run step legal es s \<Longrightarrow> run_events step es s = Inr s' \<Longrightarrow> inv s'"
  using run_safe by fastforce

lemma run_no_panic: "inv s \<Longrightarrow> legal_run step legal es s \<Longrightarrow> run_events step es s \<noteq> Inl msg"
  using run_safe by fastforce

end

text \<open>A quantity that no step of a safe system changes, or that steps change only in one
  direction, is tracked along the run.\<close>

locale tracked_system = safe_system step legal inv
  for step :: "'e \<Rightarrow> 's \<Rightarrow> 's run" and legal inv +
  fixes rel :: "'s \<Rightarrow> 's \<Rightarrow> bool"
  assumes rel_refl: "rel s s"
    and rel_trans: "rel s t \<Longrightarrow> rel t u \<Longrightarrow> rel s u"
    and rel_step: "inv s \<Longrightarrow> legal e s \<Longrightarrow> step e s = Inr s' \<Longrightarrow> rel s s'"
begin

lemma run_rel: "inv s \<Longrightarrow> legal_run step legal es s \<Longrightarrow> run_events step es s = Inr s' \<Longrightarrow> rel s s'"
proof (induction es arbitrary: s)
  case Nil
  then show ?case by (simp add: rel_refl)
next
  case (Cons e es)
  then obtain s1 where s1: "step e s = Inr s1" "inv s1" using step_safe[of s e] by auto
  with Cons have "rel s1 s'" by auto
  moreover have "rel s s1" using s1 Cons.prems rel_step[of s e] by auto
  ultimately show ?case by (blast intro: rel_trans)
qed

end

end
