(* ===== verification/Tx_Pool.thy ===== *)
theory Tx_Pool
  imports Tx_List Event_Runs
begin

text \<open>
  The transaction pool \<open>TxPool\<close> of \<open>crates/sequencer/src/tx_pool.rs\<close>: one list per sender and a
  nonce cache that is valid for one block number.

  \<open>pool_wf\<close> holds of every pool the code can build: lists sit under their own sender and are
  never empty.  \<open>pool_synced\<close> is what the cache promises: no pooled transaction has a nonce
  below the cached one.  Both are kept by every operation; from the first the assertions of
  \<open>active_orders\<close> follow, from the second that a snapshot starts at the state nonce.
\<close>

record tx_pool =
  tp_tx_lists :: "(address, tx_list) hmap"
  tp_nonces :: state_nonces
  tp_discarded_orders :: u64

definition tx_pool_new :: tx_pool where
  "tx_pool_new = \<lparr>tp_tx_lists = [], tp_nonces = state_nonces_new 0, tp_discarded_orders = 0\<rparr>"

definition put_list :: "order \<Rightarrow> (address, tx_list) hmap \<Rightarrow> (address, tx_list) hmap run" where
  "put_list tx tls =
     (let sender = ord_sender tx;
          l = (case hm_get tls sender of Some l \<Rightarrow> l | None \<Rightarrow> tl_new sender)
      in bindR (tl_put tx l) (\<lambda>l'. Inr (hm_insert sender l' tls)))"

definition tp_put :: "order \<Rightarrow> u64 \<Rightarrow> tx_pool \<Rightarrow> tx_pool run" where
  "tp_put tx parent_block tp =
     (let sender = ord_sender tx;
          insert_into = (\<lambda>tp'. bindR (put_list tx (tp_tx_lists tp'))
                                 (\<lambda>tls. Inr (tp'\<lparr>tp_tx_lists := tls\<rparr>)))
      in if \<not> is_valid_parent (tp_nonces tp) parent_block
         then insert_into (if sn_nonces (tp_nonces tp) \<noteq> []
                           then tp\<lparr>tp_nonces := sn_clear (tp_nonces tp)\<rparr> else tp)
         else (case sn_get (tp_nonces tp) sender of
                 Some state_nonce \<Rightarrow>
                   if order_nonce tx < state_nonce
                   then Inr (tp\<lparr>tp_discarded_orders := tp_discarded_orders tp + 1\<rparr>)
                   else insert_into tp
               | None \<Rightarrow> insert_into tp))"

text \<open>One step of the loop of \<open>get_active_for_nonces\<close> per sender; the assertion that a forwarded
  list is not empty is a branch.\<close>

fun active_for_nonces ::
    "state_nonces \<Rightarrow> u128 \<Rightarrow> (address, tx_list) hmap \<Rightarrow> (address, tx_list) hmap run" where
  "active_for_nonces sn f [] = Inr []"
| "active_for_nonces sn f ((sender, l) # rest) =
     (case sn_get sn sender of
        Some state_nonce \<Rightarrow>
          if has_tx_by_nonce l state_nonce f
          then (let l' = snd (tl_forward state_nonce l)
                in if tl_is_empty l' then Inl ''assertion failed: !tx_list.is_empty()''
                   else bindR (active_for_nonces sn f rest) (\<lambda>r. Inr ((sender, l') # r)))
          else active_for_nonces sn f rest
      | None \<Rightarrow>
          if has_tx_by_fee l f
          then bindR (active_for_nonces sn f rest) (\<lambda>r. Inr ((sender, l) # r))
          else active_for_nonces sn f rest)"

definition get_active_for_nonces :: "u128 \<Rightarrow> tx_pool \<Rightarrow> active_orders option run" where
  "get_active_for_nonces base_fee tp =
     bindR (active_for_nonces (tp_nonces tp) base_fee (tp_tx_lists tp)) (\<lambda>active.
       if active = [] then Inr None
       else bindR (active_orders_new active) (\<lambda>ao. Inr (Some ao)))"

definition tp_active_orders :: "u64 \<Rightarrow> u128 \<Rightarrow> tx_pool \<Rightarrow> (tx_pool \<times> active_orders option) run" where
  "tp_active_orders block_number base_fee tp =
     (if \<not> is_valid_block (tp_nonces tp) block_number
      then (let tp' = tp\<lparr>tp_nonces := sn_clear (tp_nonces tp)\<rparr>
            in if tp_tx_lists tp' = [] then Inr (tp', None)
               else bindR (active_orders_new (filter (\<lambda>(_, l). has_tx_by_fee l base_fee) (tp_tx_lists tp')))
                      (\<lambda>ao. Inr (tp', Some ao)))
      else bindR (get_active_for_nonces base_fee tp) (\<lambda>ao. Inr (tp, ao)))"

definition forward_sender ::
    "address \<Rightarrow> u64 \<Rightarrow> (address, tx_list) hmap \<Rightarrow> (address, tx_list) hmap" where
  "forward_sender sender state_nonce tls =
     (case hm_get tls sender of
        None \<Rightarrow> tls
      | Some l \<Rightarrow>
          (let (emptied, l') = tl_forward state_nonce l
           in if emptied then hm_remove sender tls else hm_insert sender l' tls))"

fun forward_all :: "(address \<times> u64) list \<Rightarrow> (address, tx_list) hmap \<Rightarrow> (address, tx_list) hmap" where
  "forward_all [] tls = tls"
| "forward_all ((s, n) # rest) tls = forward_all rest (forward_sender s n tls)"

fun merge_nonces :: "(address \<times> u64) list \<Rightarrow> tx_pool \<Rightarrow> tx_pool" where
  "merge_nonces [] tp = tp"
| "merge_nonces ((s, n) # rest) tp =
     merge_nonces rest
       (tp\<lparr>tp_nonces := sn_insert s n (tp_nonces tp),
           tp_tx_lists := forward_sender s n (tp_tx_lists tp)\<rparr>)"

definition update_reset :: "sorting_nonces \<Rightarrow> tx_pool \<Rightarrow> tx_pool" where
  "update_reset sn tp =
     (if sn_valid_block (tp_nonces tp) = valid_block sn
      then merge_nonces (sn_nonces (srt_state sn)) tp
      else tp\<lparr>tp_nonces := srt_state sn,
              tp_tx_lists := forward_all (sn_nonces (srt_state sn)) (tp_tx_lists tp)\<rparr>)"

definition update_new_block :: "sorting_nonces \<Rightarrow> tx_pool \<Rightarrow> tx_pool" where
  "update_new_block sn tp =
     (let tp' =
        (if sn_valid_block (tp_nonces tp) = valid_block sn
         then merge_nonces (all_iter sn) tp
         else tp\<lparr>tp_nonces := all_merged sn,
                 tp_tx_lists := forward_all (sn_nonces (all_merged sn)) (tp_tx_lists tp)\<rparr>)
      in tp'\<lparr>tp_nonces := (tp_nonces tp')\<lparr>sn_valid_block := sn_valid_block (tp_nonces tp') + 1\<rparr>\<rparr>)"

definition clear_nonces :: "tx_pool \<Rightarrow> tx_pool" where
  "clear_nonces tp = tp\<lparr>tp_nonces := sn_clear (tp_nonces tp)\<rparr>"

text \<open>\<open>now_sec\<close> is the clock that picks the sampled sender, \<open>sim_nonce\<close> what the simulator
  answers for it (\<open>None\<close> when the call fails).\<close>

definition report_and_sanity_check ::
    "u64 \<Rightarrow> (address \<Rightarrow> u64 option) \<Rightarrow> u64 \<Rightarrow> tx_pool \<Rightarrow> tx_pool" where
  "report_and_sanity_check parent_block sim_nonce now_sec tp =
     (if tp_tx_lists tp = [] then tp
      else
        (let random = unat (now_sec mod len64 (tp_tx_lists tp));
             addr = fst (tp_tx_lists tp ! random);
             cache_nonce = (if is_valid_parent (tp_nonces tp) parent_block
                            then sn_get (tp_nonces tp) addr else None)
         in (case sim_nonce addr of
               None \<Rightarrow> tp
             | Some simulator_nonce \<Rightarrow>
                 (case cache_nonce of
                    Some c \<Rightarrow> if c \<noteq> simulator_nonce then clear_nonces tp else tp
                  | None \<Rightarrow> tp))))"

subsection \<open>Well-formed pools\<close>

definition lists_wf :: "(address, tx_list) hmap \<Rightarrow> bool" where
  "lists_wf tls \<longleftrightarrow> hm_wf tls \<and>
     (\<forall>(s, l) \<in> set tls. tl_sender l = s \<and> tl_wf l \<and> tl_txs l \<noteq> [])"

definition pool_wf :: "tx_pool \<Rightarrow> bool" where
  "pool_wf tp \<longleftrightarrow> lists_wf (tp_tx_lists tp)"

text \<open>No pooled transaction is below a nonce that the cache knows.\<close>

definition lists_above :: "(address \<Rightarrow> u64 option) \<Rightarrow> (address, tx_list) hmap \<Rightarrow> bool" where
  "lists_above nonces tls \<longleftrightarrow>
     (\<forall>s l n k tx. hm_get tls s = Some l \<longrightarrow> nonces s = Some n \<longrightarrow> (k, tx) \<in> set (tl_txs l) \<longrightarrow> n \<le> k)"

definition pool_synced :: "tx_pool \<Rightarrow> bool" where
  "pool_synced tp \<longleftrightarrow> lists_above (sn_get (tp_nonces tp)) (tp_tx_lists tp)"

lemma lists_wf_get:
  "lists_wf tls \<Longrightarrow> hm_get tls s = Some l \<Longrightarrow> tl_sender l = s \<and> tl_wf l \<and> tl_txs l \<noteq> []"
  by (auto simp: lists_wf_def dest: hm_get_in)

lemma lists_wfI:
  assumes "hm_wf tls"
    and "\<And>s l. hm_get tls s = Some l \<Longrightarrow> tl_sender l = s \<and> tl_wf l \<and> tl_txs l \<noteq> []"
  shows "lists_wf tls"
  using assms by (auto simp: lists_wf_def dest: hm_in_get)

lemma lists_wf_hm_wf: "lists_wf tls \<Longrightarrow> hm_wf tls"
  by (simp add: lists_wf_def)

lemma lists_wf_insert [wf_intros]:
  assumes "lists_wf tls" "tl_sender l = s" "tl_wf l" "tl_txs l \<noteq> []"
  shows "lists_wf (hm_insert s l tls)"
proof (rule lists_wfI)
  show "hm_wf (hm_insert s l tls)" using assms(1) by (simp add: lists_wf_def hm_wf_insert)
  fix s' l' assume "hm_get (hm_insert s l tls) s' = Some l'"
  then show "tl_sender l' = s' \<and> tl_wf l' \<and> tl_txs l' \<noteq> []"
    using assms lists_wf_get[OF assms(1), of s' l'] by (cases "s' = s") auto
qed

lemma lists_wf_remove [wf_intros]: "lists_wf tls \<Longrightarrow> lists_wf (hm_remove s tls)"
  by (auto simp: lists_wf_def hm_wf_remove) (auto simp: hm_remove_def hm_retain_def)

lemma put_list_spec:
  assumes "lists_wf tls"
  obtains l' where "put_list tx tls = Inr (hm_insert (ord_sender tx) l' tls)"
    and "tl_sender l' = ord_sender tx" and "tl_wf l'" and "tl_txs l' \<noteq> []"
    and "set (tl_txs l') \<subseteq> insert (order_nonce tx, tx)
           (case hm_get tls (ord_sender tx) of Some l \<Rightarrow> set (tl_txs l) | None \<Rightarrow> {})"
    and "(order_nonce tx, tx) \<in> set (tl_txs l')"
proof -
  define l where "l = (case hm_get tls (ord_sender tx) of Some l \<Rightarrow> l | None \<Rightarrow> tl_new (ord_sender tx))"
  have l: "tl_sender l = ord_sender tx" "tl_wf l"
    using lists_wf_get[OF assms] by (auto simp: l_def split: option.splits)
  then obtain l' where l': "tl_put tx l = Inr l'" by (auto simp: tl_put_def)
  have "map_of (tl_txs l') (order_nonce tx) = Some tx"
    using l' l(2) by (auto simp: tl_put_Inr map_of_bt_insert tl_wf_def)
  then have "(order_nonce tx, tx) \<in> set (tl_txs l')" by (rule map_of_SomeD)
  moreover have "set (tl_txs l') \<subseteq> insert (order_nonce tx, tx)
           (case hm_get tls (ord_sender tx) of Some l \<Rightarrow> set (tl_txs l) | None \<Rightarrow> {})"
    using l' set_bt_insert[of "order_nonce tx" tx "tl_txs l"]
    by (auto simp: tl_put_Inr l_def tl_new_def split: option.splits)
  ultimately show ?thesis
    using that[of l'] l l' tl_put_wf[OF l(2) l']
    by (auto simp: put_list_def Let_def l_def[symmetric] tl_put_Inr)
qed

lemma put_list_wf:
  assumes "lists_wf tls" and "put_list tx tls = Inr tls'"
  shows "lists_wf tls'"
proof -
  obtain l' where *: "put_list tx tls = Inr (hm_insert (ord_sender tx) l' tls)"
    "tl_sender l' = ord_sender tx" "tl_wf l'" "tl_txs l' \<noteq> []"
    using put_list_spec[OF assms(1), of tx] by metis
  with assms show ?thesis by (auto intro: lists_wf_insert)
qed

lemma lists_aboveI:
  "(\<And>s l n k tx. hm_get tls s = Some l \<Longrightarrow> nonces s = Some n \<Longrightarrow> (k, tx) \<in> set (tl_txs l) \<Longrightarrow> n \<le> k)
   \<Longrightarrow> lists_above nonces tls"
  by (auto simp: lists_above_def)

lemma lists_aboveD:
  "lists_above nonces tls \<Longrightarrow> hm_get tls s = Some l \<Longrightarrow> nonces s = Some n \<Longrightarrow>
     (k, tx) \<in> set (tl_txs l) \<Longrightarrow> n \<le> k"
  by (unfold lists_above_def) blast

lemma put_list_above:
  assumes "lists_wf tls" and put: "put_list tx tls = Inr tls'" and above: "lists_above nonces tls"
    and new: "\<And>n. nonces (ord_sender tx) = Some n \<Longrightarrow> n \<le> order_nonce tx"
  shows "lists_above nonces tls'"
proof -
  obtain l' where l': "put_list tx tls = Inr (hm_insert (ord_sender tx) l' tls)"
    "set (tl_txs l') \<subseteq> insert (order_nonce tx, tx)
       (case hm_get tls (ord_sender tx) of Some l \<Rightarrow> set (tl_txs l) | None \<Rightarrow> {})"
    using put_list_spec[OF assms(1), of tx] by metis
  with put have tls': "tls' = hm_insert (ord_sender tx) l' tls" by simp
  show ?thesis
  proof (rule lists_aboveI)
    fix s l n k x
    assume g: "hm_get tls' s = Some l" "nonces s = Some n" "(k, x) \<in> set (tl_txs l)"
    show "n \<le> k"
    proof (cases "s = ord_sender tx")
      case True
      with g tls' l'(2) have "(k, x) = (order_nonce tx, tx) \<or>
          (\<exists>l0. hm_get tls s = Some l0 \<and> (k, x) \<in> set (tl_txs l0))"
        by (auto split: option.splits)
      with g(2) True new above show ?thesis by (auto dest: lists_aboveD)
    next
      case False
      with g tls' above show ?thesis by (auto dest: lists_aboveD)
    qed
  qed
qed

lemma forward_sender_wf:
  assumes "lists_wf tls"
  shows "lists_wf (forward_sender s n tls)"
proof (cases "hm_get tls s")
  case None
  with assms show ?thesis by (simp add: forward_sender_def)
next
  case (Some l)
  define l' where "l' = snd (tl_forward n l)"
  have l': "tl_sender l' = s" "tl_wf l'" "fst (tl_forward n l) \<longleftrightarrow> tl_txs l' = []"
    using lists_wf_get[OF assms Some] by (auto simp: l'_def tl_forward_wf tl_forward_empty)
  have "forward_sender s n tls = (if tl_txs l' = [] then hm_remove s tls else hm_insert s l' tls)"
    using l'(3) Some by (simp add: forward_sender_def l'_def split_beta)
  with assms l' show ?thesis by (simp add: lists_wf_insert lists_wf_remove)
qed

lemma forward_sender_get:
  "hm_get (forward_sender s n tls) s' = Some l' \<Longrightarrow>
     (s' \<noteq> s \<and> hm_get tls s' = Some l') \<or>
     (s' = s \<and> (\<exists>l. hm_get tls s = Some l \<and> l' = snd (tl_forward n l)))"
  by (auto simp: forward_sender_def split: option.splits prod.splits if_splits)

lemma forward_sender_above:
  assumes "lists_above nonces tls"
  shows "lists_above (nonces(s \<mapsto> n)) (forward_sender s n tls)"
  using assms forward_sender_get[of s n tls]
  by (fastforce simp: lists_above_def tl_forward_entries split: if_splits)

lemma forward_all_wf: "lists_wf tls \<Longrightarrow> lists_wf (forward_all kvs tls)"
  by (induction kvs tls rule: forward_all.induct) (auto intro: forward_sender_wf)

lemma forward_all_above:
  "lists_above nonces tls \<Longrightarrow> hm_wf kvs \<Longrightarrow> lists_above (nonces ++ hm_get kvs) (forward_all kvs tls)"
proof (induction kvs tls arbitrary: nonces rule: forward_all.induct)
  case (2 s n rest tls)
  then have "hm_wf rest" and "hm_get rest s = None"
    by (auto simp: hm_wf_def hm_get_def map_of_eq_None_iff)
  then have eq: "nonces ++ hm_get ((s, n) # rest) = nonces(s \<mapsto> n) ++ hm_get rest"
    by (auto simp: map_add_def fun_eq_iff split: option.splits)
  show ?case
    using "2.IH"[OF forward_sender_above[OF "2.prems"(1), of s n] \<open>hm_wf rest\<close>]
    by (simp only: forward_all.simps eq)
qed (simp add: map_add_def hm_get_def)

lemma merge_nonces_wf:
  "pool_wf tp \<Longrightarrow> pool_wf (merge_nonces kvs tp)"
  by (induction kvs tp rule: merge_nonces.induct) (auto simp: pool_wf_def forward_sender_wf)

lemma merge_nonces_synced: "pool_synced tp \<Longrightarrow> pool_synced (merge_nonces kvs tp)"
  by (induction kvs tp rule: merge_nonces.induct) (auto simp: pool_synced_def forward_sender_above)

lemma merge_nonces_valid_block [simp]:
  "sn_valid_block (tp_nonces (merge_nonces kvs tp)) = sn_valid_block (tp_nonces tp)"
  by (induction kvs tp rule: merge_nonces.induct) auto

lemma merge_nonces_get:
  "sn_get (tp_nonces (merge_nonces kvs tp)) s =
     (case map_of (rev kvs) s of Some n \<Rightarrow> Some n | None \<Rightarrow> sn_get (tp_nonces tp) s)"
  by (induction kvs tp rule: merge_nonces.induct)
     (auto simp: map_of_append map_add_def split: option.splits)

subsection \<open>The operations keep the invariants and do not panic\<close>

lemma pool_new_ok [simp]: "pool_wf tx_pool_new" "pool_synced tx_pool_new"
  by (auto simp: pool_wf_def pool_synced_def lists_wf_def lists_above_def tx_pool_new_def)

lemma clear_nonces_ok:
  "pool_wf tp \<Longrightarrow> pool_wf (clear_nonces tp)" "pool_synced (clear_nonces tp)"
  by (auto simp: pool_wf_def pool_synced_def lists_above_def clear_nonces_def)

lemma insert_into_ok:
  assumes "pool_wf tp" and "pool_synced tp"
    and "\<And>n. sn_get (tp_nonces tp) (ord_sender tx) = Some n \<Longrightarrow> n \<le> order_nonce tx"
  shows "\<exists>tls. put_list tx (tp_tx_lists tp) = Inr tls \<and>
    pool_wf (tp\<lparr>tp_tx_lists := tls\<rparr>) \<and> pool_synced (tp\<lparr>tp_tx_lists := tls\<rparr>)"
proof -
  obtain l' where *: "put_list tx (tp_tx_lists tp) = Inr (hm_insert (ord_sender tx) l' (tp_tx_lists tp))"
    using put_list_spec assms(1) unfolding pool_wf_def by metis
  with put_list_wf[of "tp_tx_lists tp" tx] put_list_above[of "tp_tx_lists tp" tx] assms show ?thesis
    by (auto simp: pool_wf_def pool_synced_def)
qed

lemma tp_put_ok:
  assumes "pool_wf tp" and "pool_synced tp"
  shows "\<exists>tp'. tp_put tx parent tp = Inr tp' \<and> pool_wf tp' \<and> pool_synced tp'"
proof (cases "is_valid_parent (tp_nonces tp) parent")
  case False
  define tp0 where "tp0 = (if sn_nonces (tp_nonces tp) \<noteq> [] then clear_nonces tp else tp)"
  have "pool_wf tp0" "pool_synced tp0" "sn_get (tp_nonces tp0) = (\<lambda>_. None)"
    using assms clear_nonces_ok[of tp] by (auto simp: tp0_def clear_nonces_def sn_get_empty)
  with insert_into_ok[of tp0 tx] False show ?thesis
    by (auto simp: tp_put_def Let_def tp0_def clear_nonces_def)
next
  case True
  show ?thesis
  proof (cases "\<exists>n. sn_get (tp_nonces tp) (ord_sender tx) = Some n \<and> order_nonce tx < n")
    case True
    with \<open>is_valid_parent _ _\<close> assms show ?thesis
      by (auto simp: tp_put_def Let_def pool_wf_def pool_synced_def)
  next
    case False
    then have "\<And>n. sn_get (tp_nonces tp) (ord_sender tx) = Some n \<Longrightarrow> n \<le> order_nonce tx"
      by auto
    with insert_into_ok[OF assms, of tx] True show ?thesis
      by (auto simp: tp_put_def Let_def split: option.splits)
  qed
qed

text \<open>A transaction that the pool accepts is in its sender's list, under its nonce.\<close>

lemma put_list_get:
  assumes "lists_wf tls" and "put_list tx tls = Inr tls'"
  shows "\<exists>l. hm_get tls' (ord_sender tx) = Some l \<and> bt_get (tl_txs l) (order_nonce tx) = Some tx"
    and "s \<noteq> ord_sender tx \<Longrightarrow> hm_get tls' s = hm_get tls s"
proof -
  obtain l' where l': "put_list tx tls = Inr (hm_insert (ord_sender tx) l' tls)" "tl_wf l'"
    "(order_nonce tx, tx) \<in> set (tl_txs l')"
    using put_list_spec[OF assms(1), of tx] by metis
  then have "bt_get (tl_txs l') (order_nonce tx) = Some tx" by (auto simp: tl_wf_def bt_in_get)
  with l' assms(2) show "\<exists>l. hm_get tls' (ord_sender tx) = Some l \<and>
      bt_get (tl_txs l) (order_nonce tx) = Some tx"
    and "s \<noteq> ord_sender tx \<Longrightarrow> hm_get tls' s = hm_get tls s"
    by auto
qed

definition lists_lookup :: "(address, tx_list) hmap \<Rightarrow> address \<Rightarrow> u64 \<Rightarrow> order option" where
  "lists_lookup tls s nonce =
     (case hm_get tls s of None \<Rightarrow> None | Some l \<Rightarrow> bt_get (tl_txs l) nonce)"

definition pool_lookup :: "tx_pool \<Rightarrow> address \<Rightarrow> u64 \<Rightarrow> order option" where
  "pool_lookup tp = lists_lookup (tp_tx_lists tp)"

lemma put_list_lookup:
  assumes "lists_wf tls"
  shows "\<exists>tls'. put_list tx tls = Inr tls' \<and> (\<forall>s nonce. lists_lookup tls' s nonce =
    (if s = ord_sender tx \<and> nonce = order_nonce tx then Some tx else lists_lookup tls s nonce))"
proof -
  define l where "l = (case hm_get tls (ord_sender tx) of Some l \<Rightarrow> l | None \<Rightarrow> tl_new (ord_sender tx))"
  have l: "tl_sender l = ord_sender tx" "bt_wf (tl_txs l)"
    using lists_wf_get[OF assms, of "ord_sender tx"]
    by (auto simp: l_def tl_wf_def tl_new_def split: option.splits)
  have old: "lists_lookup tls (ord_sender tx) nonce = bt_get (tl_txs l) nonce" for nonce
    by (auto simp: lists_lookup_def l_def tl_new_def bt_get_def split: option.splits)
  have "put_list tx tls =
      Inr (hm_insert (ord_sender tx) (l\<lparr>tl_txs := bt_insert (order_nonce tx) tx (tl_txs l)\<rparr>) tls)"
    using l(1) by (simp add: put_list_def l_def[symmetric] tl_put_def Let_def)
  then show ?thesis
    using l(2) old by (auto simp: lists_lookup_def bt.get_insert)
qed

lemma update_new_block_ok:
  assumes "pool_wf tp" "pool_synced tp"
    and "hm_wf (sn_nonces (srt_state sn))" "hm_wf (sn_nonces (srt_sorting sn))"
  shows "pool_wf (update_new_block sn tp)" and "pool_synced (update_new_block sn tp)"
proof -
  have none: "lists_above (\<lambda>_. None) tls" for tls by (simp add: lists_above_def)
  have "hm_wf (sn_nonces (all_merged sn))" using assms(3) by (simp add: all_merged_def hm_wf_extend)
  then have "lists_above (sn_get (all_merged sn)) (forward_all (sn_nonces (all_merged sn)) tls)" for tls
    using forward_all_above[OF none, of "sn_nonces (all_merged sn)" tls]
    by (simp add: sn_get_def)
  with assms(1,2) merge_nonces_wf[of tp] merge_nonces_synced[of tp]
  show "pool_wf (update_new_block sn tp)" and "pool_synced (update_new_block sn tp)"
    by (auto simp: update_new_block_def Let_def pool_wf_def pool_synced_def forward_all_wf sn_get_def)
qed

lemma update_reset_ok:
  assumes "pool_wf tp" "pool_synced tp" "hm_wf (sn_nonces (srt_state sn))"
  shows "pool_wf (update_reset sn tp)" and "pool_synced (update_reset sn tp)"
proof -
  have none: "lists_above (\<lambda>_. None) tls" for tls by (simp add: lists_above_def)
  have "lists_above (sn_get (srt_state sn)) (forward_all (sn_nonces (srt_state sn)) tls)" for tls
    using forward_all_above[OF none assms(3), of tls] by (simp add: sn_get_def)
  with assms(1,2) merge_nonces_wf[of tp] merge_nonces_synced[of tp]
  show "pool_wf (update_reset sn tp)" and "pool_synced (update_reset sn tp)"
    by (auto simp: update_reset_def pool_wf_def pool_synced_def forward_all_wf)
qed

lemma sanity_check_ok:
  "pool_wf tp \<Longrightarrow> pool_wf (report_and_sanity_check parent sim now tp)"
  "pool_synced tp \<Longrightarrow> pool_synced (report_and_sanity_check parent sim now tp)"
  using clear_nonces_ok[of tp]
  by (auto simp: report_and_sanity_check_def Let_def split: option.splits)

subsection \<open>Snapshots\<close>

text \<open>The reference for one sender: with a cached nonce, the list from that nonce on, provided its
  first order is there and payable; without one, the whole list if its lowest nonce is
  payable.\<close>

definition snapshot_list :: "(address \<Rightarrow> u64 option) \<Rightarrow> u128 \<Rightarrow> address \<Rightarrow> tx_list \<Rightarrow> tx_list option" where
  "snapshot_list nonces f s l =
     (case nonces s of
        Some n \<Rightarrow> if has_tx_by_nonce l n f then Some (snd (tl_forward n l)) else None
      | None \<Rightarrow> if has_tx_by_fee l f then Some l else None)"

fun snapshot :: "(address \<Rightarrow> u64 option) \<Rightarrow> u128 \<Rightarrow> (address, tx_list) hmap \<Rightarrow> (address, tx_list) hmap" where
  "snapshot nonces f [] = []"
| "snapshot nonces f ((s, l) # rest) =
     (case snapshot_list nonces f s l of
        Some l' \<Rightarrow> (s, l') # snapshot nonces f rest
      | None \<Rightarrow> snapshot nonces f rest)"

lemma has_tx_by_nonce_forward:
  "has_tx_by_nonce l n f \<Longrightarrow> tl_txs (snd (tl_forward n l)) \<noteq> []"
  by (auto simp: has_tx_by_nonce_def tl_forward_def Let_def bt_retain_def filter_empty_conv
      split: option.splits dest!: bt_get_in intro!: bexI[rotated])

lemma snapshot_list_Some:
  assumes "tl_wf l" and "snapshot_list nonces f s l = Some l'"
  shows "tl_wf l'" and "tl_sender l' = tl_sender l" and "tl_txs l' \<noteq> []"
    and "set (tl_txs l') \<subseteq> set (tl_txs l)"
  using assms
  by (auto simp: snapshot_list_def tl_forward_wf has_tx_by_nonce_forward tl_forward_entries
      dest: has_tx_by_fee_nonempty split: option.splits if_splits)

lemma active_for_nonces_eq: "active_for_nonces sn f tls = Inr (snapshot (sn_get sn) f tls)"
proof (induction sn f tls rule: active_for_nonces.induct)
  case (2 sn f sender l rest)
  then show ?case
    by (cases "sn_get sn sender")
       (auto simp: snapshot_list_def Let_def tl_is_empty_def has_tx_by_nonce_forward)
qed simp

lemma snapshot_stale: "snapshot (\<lambda>_. None) f tls = filter (\<lambda>(_, l). has_tx_by_fee l f) tls"
  by (induction tls) (auto simp: snapshot_list_def)

lemma snapshot_in:
  "(s, l') \<in> set (snapshot nonces f tls) \<longleftrightarrow> (\<exists>l. (s, l) \<in> set tls \<and> snapshot_list nonces f s l = Some l')"
  by (induction nonces f tls rule: snapshot.induct) (auto split: option.splits)

lemma snapshot_keys: "distinct (map fst tls) \<Longrightarrow> distinct (map fst (snapshot nonces f tls))"
proof (induction nonces f tls rule: snapshot.induct)
  case (2 nonces f s l rest)
  have "s \<notin> fst ` set rest \<Longrightarrow> s \<notin> fst ` set (snapshot nonces f rest)"
    by (force simp: snapshot_in)
  with 2 show ?case by (auto split: option.splits)
qed simp

lemma snapshot_wf: "lists_wf tls \<Longrightarrow> lists_wf (snapshot nonces f tls)"
  using snapshot_keys[of tls nonces f]
  by (fastforce simp: lists_wf_def hm_wf_def snapshot_in dest: snapshot_list_Some)

lemma snapshot_get:
  assumes "lists_wf tls"
  shows "hm_get (snapshot nonces f tls) s =
    (case hm_get tls s of Some l \<Rightarrow> snapshot_list nonces f s l | None \<Rightarrow> None)"
proof -
  have wf: "hm_wf (snapshot nonces f tls)" "hm_wf tls"
    using snapshot_wf[OF assms] assms by (auto simp: lists_wf_def)
  have "hm_get (snapshot nonces f tls) s = Some l' \<longleftrightarrow>
      (\<exists>l. hm_get tls s = Some l \<and> snapshot_list nonces f s l = Some l')" for l'
    using wf by (metis hm_get_in hm_in_get snapshot_in)
  then show ?thesis
    by (intro option_eqI) (auto split: option.splits)
qed

lemma active_orders_new_ok:
  assumes "lists_wf tls"
  shows "\<exists>ao. active_orders_new tls = Inr ao \<and> ao_wf ao \<and>
    set (ao_tx_lists ao) = snd ` set tls \<and> length (ao_tx_lists ao) = length tls \<and>
    sorted_wrt (\<lambda>l1 l2. weight_or_zero l2 \<le> weight_or_zero l1) (ao_tx_lists ao)"
proof -
  define ls where "ls = rev (sort_key weight_or_zero (rev (map snd tls)))"
  have ne: "\<forall>l \<in> set (map snd tls). \<not> tl_is_empty l" and wf: "\<forall>l \<in> set (map snd tls). tl_wf l"
    using assms by (auto simp: lists_wf_def tl_is_empty_def)
  have "map tl_sender (map snd tls) = map fst tls"
    using assms by (auto simp: lists_wf_def)
  then have d: "distinct (map tl_sender (map snd tls))"
    using assms unfolding lists_wf_def hm_wf_def by metis
  have "mset ls = mset (map snd tls)" by (simp add: ls_def)
  then have "mset (map tl_sender ls) = mset (map tl_sender (map snd tls))"
    by (metis mset_map)
  then have "distinct (map tl_sender ls)" using d mset_eq_imp_distinct_iff by blast
  moreover have "sorted_wrt (\<lambda>l1 l2. weight_or_zero l2 \<le> weight_or_zero l1) ls"
    using sorted_sort_key[of weight_or_zero "rev (map snd tls)"]
    by (simp add: ls_def sorted_wrt_rev sorted_wrt_map)
  moreover have "set ls = snd ` set tls" "length ls = length tls" by (simp_all add: ls_def)
  ultimately show ?thesis
    using ne wf by (auto simp: active_orders_new_def Let_def ls_def[symmetric] ao_wf_def)
qed

text \<open>What the sequencer uses: \<open>active_orders(..).unwrap_or_default()\<close>.\<close>

definition snapshot_or_default :: "active_orders option \<Rightarrow> active_orders" where
  "snapshot_or_default r = (case r of Some ao \<Rightarrow> ao | None \<Rightarrow> ao_empty)"

lemma tp_active_orders_cases:
  assumes "pool_wf tp"
  obtains tp' r where "tp_active_orders bn f tp = Inr (tp', r)"
    and "tp' = (if is_valid_block (tp_nonces tp) bn then tp else clear_nonces tp)"
    and "ao_wf (snapshot_or_default r)"
    and "set (ao_tx_lists (snapshot_or_default r)) =
           snd ` set (snapshot (sn_get (tp_nonces tp')) f (tp_tx_lists tp'))"
    and "sorted_wrt (\<lambda>l1 l2. weight_or_zero l2 \<le> weight_or_zero l1)
           (ao_tx_lists (snapshot_or_default r))"
proof -
  define tp' where "tp' = (if is_valid_block (tp_nonces tp) bn then tp else clear_nonces tp)"
  define sh where "sh = snapshot (sn_get (tp_nonces tp')) f (tp_tx_lists tp')"
  have "lists_wf (tp_tx_lists tp')"
    using assms by (auto simp: tp'_def pool_wf_def clear_nonces_def)
  from active_orders_new_ok[OF snapshot_wf[OF this]] obtain ao where
    ao: "active_orders_new sh = Inr ao" "ao_wf ao" "set (ao_tx_lists ao) = snd ` set sh"
      "sorted_wrt (\<lambda>l1 l2. weight_or_zero l2 \<le> weight_or_zero l1) (ao_tx_lists ao)"
    unfolding sh_def by meson
  have empty: "ao_wf ao_empty" "ao_tx_lists ao_empty = []" by (simp_all add: ao_wf_def ao_empty_def)
  show ?thesis
  proof (cases "is_valid_block (tp_nonces tp) bn")
    case True
    then have "tp_active_orders bn f tp = Inr (tp', if sh = [] then None else Some ao)"
      using ao(1) by (auto simp: tp_active_orders_def get_active_for_nonces_def active_for_nonces_eq
          tp'_def sh_def)
    with ao empty show ?thesis
      by (intro that[of tp' "if sh = [] then None else Some ao"])
         (auto simp: tp'_def snapshot_or_default_def sh_def[unfolded tp'_def, symmetric])
  next
    case False
    then have sh: "sh = filter (\<lambda>(_, l). has_tx_by_fee l f) (tp_tx_lists tp)"
      by (simp add: sh_def tp'_def clear_nonces_def snapshot_stale)
    define r where "r = (if tp_tx_lists tp = [] then None else Some ao)"
    have "tp_active_orders bn f tp = Inr (tp', r)"
      using ao(1) False by (auto simp: tp_active_orders_def tp'_def clear_nonces_def sh r_def Let_def)
    with ao empty show ?thesis
      by (intro that[of tp' r])
         (auto simp: tp'_def r_def snapshot_or_default_def sh_def[unfolded tp'_def, symmetric]
           sh split: if_splits)
  qed
qed

subsection \<open>Runs of the pool\<close>

datatype pool_op =
    PutTx order u64
  | ActiveOrders u64 u128
  | NewBlock sorting_nonces
  | ResetTo sorting_nonces
  | ClearNonces
  | SanityCheck u64 "address \<Rightarrow> u64 option" u64

fun pool_step :: "pool_op \<Rightarrow> tx_pool \<Rightarrow> tx_pool run" where
  "pool_step (PutTx tx parent) tp = tp_put tx parent tp"
| "pool_step (ActiveOrders bn f) tp = bindR (tp_active_orders bn f tp) (\<lambda>(tp', _). Inr tp')"
| "pool_step (NewBlock sn) tp = Inr (update_new_block sn tp)"
| "pool_step (ResetTo sn) tp = Inr (update_reset sn tp)"
| "pool_step ClearNonces tp = Inr (clear_nonces tp)"
| "pool_step (SanityCheck parent sim now) tp = Inr (report_and_sanity_check parent sim now tp)"

fun pool_legal :: "pool_op \<Rightarrow> tx_pool \<Rightarrow> bool" where
  "pool_legal (NewBlock sn) tp = sorting_nonces_wf sn"
| "pool_legal (ResetTo sn) tp = sorting_nonces_wf sn"
| "pool_legal _ tp = True"

lemma all_iter_lookup:
  assumes "sorting_nonces_wf sn"
  shows "map_of (rev (all_iter sn)) s = get_nonce sn s"
proof -
  have "map_of (rev (sn_nonces (srt_state sn))) = map_of (sn_nonces (srt_state sn))"
    "map_of (rev (sn_nonces (srt_sorting sn))) = map_of (sn_nonces (srt_sorting sn))"
    using assms by (auto simp: sorting_nonces_wf_def hm_wf_def intro!: map_of_rev_distinct)
  then show ?thesis
    by (auto simp: all_iter_def get_nonce_def sn_get_def hm_get_def map_add_def split: option.splits)
qed

lemma sn_get_bump [simp]: "sn_get (sn\<lparr>sn_valid_block := b\<rparr>) = sn_get sn"
  by (simp add: sn_get_def)

lemma pool_step_safe:
  assumes "pool_wf tp \<and> pool_synced tp" and "pool_legal e tp"
  shows "\<exists>tp'. pool_step e tp = Inr tp' \<and> pool_wf tp' \<and> pool_synced tp'"
proof (cases e)
  case (PutTx tx parent)
  with assms tp_put_ok show ?thesis by simp
next
  case (ActiveOrders bn f)
  from assms obtain tp' r where "tp_active_orders bn f tp = Inr (tp', r)"
    "tp' = (if is_valid_block (tp_nonces tp) bn then tp else clear_nonces tp)"
    using tp_active_orders_cases by metis
  with assms ActiveOrders clear_nonces_ok[of tp] show ?thesis by auto
qed (use assms update_new_block_ok update_reset_ok clear_nonces_ok sanity_check_ok
     in \<open>auto simp: sorting_nonces_wf_def\<close>)

interpretation pool: safe_system pool_step pool_legal "\<lambda>tp. pool_wf tp \<and> pool_synced tp"
  by unfold_locales (rule pool_step_safe)

end
