(* ===== verification/Pool_Props.thy ===== *)
theory Pool_Props
  imports Tx_Pool
begin

text \<open>
  What the transaction pool guarantees: it never panics, it keeps what it accepts, the snapshot
  it hands to the sorting loop is exactly what can run on the parent state, and it learns from
  every sealed block.
\<close>

subsection \<open>Fixtures\<close>

definition ex_tx :: "address \<Rightarrow> u64 \<Rightarrow> u128 \<Rightarrow> order" where
  "ex_tx s n tip = \<lparr>ord_sender = s,
     ord_tx = \<lparr>tx_nonce = n, tx_max_fee_per_gas = 100, tx_priority_fee_or_price = tip,
               tx_hash = 0, tx_input = []\<rparr>,
     ord_raw = [1, 2, 3]\<rparr>"

definition ex_nonces :: sorting_nonces where
  "ex_nonces = insert_sorting 7 5 (insert_state 7 4 (insert_state 8 2 (sorting_nonces_new 9)))"

definition ex_ops :: "pool_op list" where
  "ex_ops =
     [PutTx (ex_tx 7 4 5) 8, PutTx (ex_tx 7 5 6) 8, PutTx (ex_tx 8 2 9) 8,
      NewBlock ex_nonces, PutTx (ex_tx 7 4 50) 9, ActiveOrders 10 50]"

definition ex_list_7 :: tx_list where
  "ex_list_7 = \<lparr>tl_sender = 7, tl_txs = [(4, ex_tx 7 4 5), (5, ex_tx 7 5 6)]\<rparr>"

definition ex_list_8 :: tx_list where
  "ex_list_8 = \<lparr>tl_sender = 8, tl_txs = [(2, ex_tx 8 2 9)]\<rparr>"

definition ex_pool :: tx_pool where
  "ex_pool = \<lparr>tp_tx_lists = [(7, ex_list_7), (8, ex_list_8)],
     tp_nonces = \<lparr>sn_nonces = [(7, 4)], sn_valid_block = 9\<rparr>, tp_discarded_orders = 0\<rparr>"

lemma ex_nonces_wf: "sorting_nonces_wf ex_nonces"
  by (simp add: ex_nonces_def)

lemma ex_pool_wf: "pool_wf ex_pool"
  by (simp add: pool_wf_def lists_wf_def hm_wf_def ex_pool_def ex_tx_def tl_wf_def bt_wf_def
      ex_list_7_def ex_list_8_def)

lemma ex_pool_synced: "pool_synced ex_pool"
  by (auto simp: pool_synced_def lists_above_def ex_pool_def sn_get_def hm_get_def ex_tx_def
      ex_list_7_def ex_list_8_def split: if_splits)

lemmas snapshot_eval = ex_list_7_def ex_list_8_def sn_get_def snapshot_list_def bt_get_def
  bt_first_def tl_forward_def bt_retain_def valid_for_base_fee_def has_tx_by_fee_def
  has_tx_by_nonce_def ex_tx_def

subsection \<open>Properties\<close>

text \<open>From an empty pool, no sequence of pool operations (with nonce caches that are proper
  hash maps) panics: the assertions of \<open>TxList::put\<close>, \<open>get_active_for_nonces\<close> and
  \<open>TxList::weight\<close> cannot fail.  Afterwards every list sits under its own sender and is not
  empty, and no pooled transaction is below a cached nonce.\<close>

theorem pool_run_safe:
  assumes "legal_run pool_step pool_legal ops tx_pool_new"
  shows "\<exists>tp. run_events pool_step ops tx_pool_new = Inr tp \<and> pool_wf tp \<and> pool_synced tp"
  using pool.run_safe[of tx_pool_new ops] assms by simp

theorem pool_run_safe_witness:
  "\<exists>tp. run_events pool_step ex_ops tx_pool_new = Inr tp \<and> pool_wf tp \<and> pool_synced tp"
proof (rule pool_run_safe)
  show "legal_run pool_step pool_legal ex_ops tx_pool_new"
    by (auto simp: ex_ops_def ex_nonces_wf split: sum.splits)
qed

text \<open>What \<open>put\<close> does, on every branch.  A transaction is discarded only if the cache is valid
  for the parent block and knows a higher nonce of its sender; it is then counted and nothing else
  changes.  Otherwise it is in its sender's list afterwards under its own nonce, every other entry
  is as before, and a cache that is not for this parent is dropped.\<close>

theorem pool_put_branches:
  assumes "pool_wf tp"
  shows "\<exists>tp'. tp_put tx parent tp = Inr tp' \<and>
    (if is_valid_parent (tp_nonces tp) parent \<and>
        (\<exists>n. sn_get (tp_nonces tp) (ord_sender tx) = Some n \<and> order_nonce tx < n)
     then tp' = tp\<lparr>tp_discarded_orders := tp_discarded_orders tp + 1\<rparr>
     else tp_discarded_orders tp' = tp_discarded_orders tp \<and>
       sn_valid_block (tp_nonces tp') = sn_valid_block (tp_nonces tp) \<and>
       sn_get (tp_nonces tp') =
         (if is_valid_parent (tp_nonces tp) parent then sn_get (tp_nonces tp) else (\<lambda>_. None)) \<and>
       (\<forall>s nonce. pool_lookup tp' s nonce =
          (if s = ord_sender tx \<and> nonce = order_nonce tx then Some tx else pool_lookup tp s nonce)))"
proof -
  obtain tls where tls: "put_list tx (tp_tx_lists tp) = Inr tls"
    "\<And>s nonce. lists_lookup tls s nonce =
       (if s = ord_sender tx \<and> nonce = order_nonce tx then Some tx
        else lists_lookup (tp_tx_lists tp) s nonce)"
    using put_list_lookup assms unfolding pool_wf_def by metis
  show ?thesis
  proof (cases "is_valid_parent (tp_nonces tp) parent \<and>
        (\<exists>n. sn_get (tp_nonces tp) (ord_sender tx) = Some n \<and> order_nonce tx < n)")
    case True
    then show ?thesis by (auto simp: tp_put_def)
  next
    case False
    with tls show ?thesis
      by (auto simp: tp_put_def Let_def pool_lookup_def sn_get_empty split: option.splits)
  qed
qed

theorem pool_put_branches_witness:
  "\<exists>tp'. tp_put (ex_tx 7 6 1) 8 ex_pool = Inr tp' \<and>
     (\<forall>s nonce. pool_lookup tp' s nonce =
        (if s = 7 \<and> nonce = 6 then Some (ex_tx 7 6 1) else pool_lookup ex_pool s nonce))"
  using pool_put_branches[OF ex_pool_wf, of "ex_tx 7 6 1" 8]
  by (auto simp: ex_pool_def is_valid_parent_def sn_get_def hm_get_def ex_tx_def)

text \<open>C24: The snapshot a block starts from: whatever the state of the cache, it holds exactly one
  list per sender that has something to run -- the list from the cached nonce on if that order is
  there and payable, or the whole list of a sender without a cached nonce whose first order is
  payable -- by decreasing priority fee of the first order.  A cache for another block is dropped
  first.\<close>

theorem active_orders_snapshot:
  assumes "pool_wf tp"
  shows "\<exists>tp' r. tp_active_orders bn f tp = Inr (tp', r) \<and>
    tp_tx_lists tp' = tp_tx_lists tp \<and>
    sn_get (tp_nonces tp') =
      (if is_valid_block (tp_nonces tp) bn then sn_get (tp_nonces tp) else (\<lambda>_. None)) \<and>
    distinct (map tl_sender (ao_tx_lists (snapshot_or_default r))) \<and>
    (\<forall>l'. l' \<in> set (ao_tx_lists (snapshot_or_default r)) \<longleftrightarrow>
       (\<exists>s l. hm_get (tp_tx_lists tp) s = Some l \<and>
              snapshot_list (sn_get (tp_nonces tp')) f s l = Some l')) \<and>
    sorted_wrt (\<lambda>l1 l2. weight_or_zero l2 \<le> weight_or_zero l1)
      (ao_tx_lists (snapshot_or_default r))"
proof -
  from tp_active_orders_cases[OF assms, of bn f] obtain tp' r where
    r: "tp_active_orders bn f tp = Inr (tp', r)"
    "tp' = (if is_valid_block (tp_nonces tp) bn then tp else clear_nonces tp)"
    "ao_wf (snapshot_or_default r)"
    "set (ao_tx_lists (snapshot_or_default r)) =
       snd ` set (snapshot (sn_get (tp_nonces tp')) f (tp_tx_lists tp'))"
    "sorted_wrt (\<lambda>l1 l2. weight_or_zero l2 \<le> weight_or_zero l1)
       (ao_tx_lists (snapshot_or_default r))" .
  have eq: "tp_tx_lists tp' = tp_tx_lists tp" "sn_get (tp_nonces tp') =
      (if is_valid_block (tp_nonces tp) bn then sn_get (tp_nonces tp) else (\<lambda>_. None))"
    using r(2) by (auto simp: clear_nonces_def)
  have "l' \<in> set (ao_tx_lists (snapshot_or_default r)) \<longleftrightarrow>
       (\<exists>s l. hm_get (tp_tx_lists tp) s = Some l \<and>
              snapshot_list (sn_get (tp_nonces tp')) f s l = Some l')" for l'
  proof -
    have "l' \<in> snd ` set (snapshot nn f (tp_tx_lists tp)) \<longleftrightarrow>
        (\<exists>s l. (s, l) \<in> set (tp_tx_lists tp) \<and> snapshot_list nn f s l = Some l')" for nn
      by (simp add: in_snd_image snapshot_in)
    moreover have "(s, l) \<in> set (tp_tx_lists tp) \<longleftrightarrow> hm_get (tp_tx_lists tp) s = Some l" for s l
      using assms hm_get_in[of "tp_tx_lists tp" s l] hm_in_get[of "tp_tx_lists tp" s l]
      by (auto simp: pool_wf_def lists_wf_def)
    ultimately show ?thesis by (simp add: r(4) eq(1))
  qed
  with r eq show ?thesis unfolding ao_wf_def by blast
qed

theorem active_orders_snapshot_witness:
  "\<exists>tp' r. tp_active_orders 9 50 ex_pool = Inr (tp', r) \<and>
     {ex_list_7, ex_list_8} \<subseteq> set (ao_tx_lists (snapshot_or_default r)) \<and>
     distinct (map tl_sender (ao_tx_lists (snapshot_or_default r)))"
proof -
  from active_orders_snapshot[OF ex_pool_wf, of 9 50] obtain tp' r where
    r: "tp_active_orders 9 50 ex_pool = Inr (tp', r)" "sn_get (tp_nonces tp') = sn_get (tp_nonces ex_pool)"
    "distinct (map tl_sender (ao_tx_lists (snapshot_or_default r)))"
    "\<And>l'. l' \<in> set (ao_tx_lists (snapshot_or_default r)) \<longleftrightarrow>
       (\<exists>s l. hm_get (tp_tx_lists ex_pool) s = Some l \<and>
              snapshot_list (sn_get (tp_nonces tp')) 50 s l = Some l')"
    by (auto simp: ex_pool_def is_valid_block_def)
  have "hm_get (tp_tx_lists ex_pool) 7 = Some ex_list_7"
    "snapshot_list (sn_get (tp_nonces tp')) 50 7 ex_list_7 = Some ex_list_7"
    "hm_get (tp_tx_lists ex_pool) 8 = Some ex_list_8"
    "snapshot_list (sn_get (tp_nonces tp')) 50 8 ex_list_8 = Some ex_list_8"
    unfolding r(2)
    by (simp_all add: ex_pool_def snapshot_eval)
  with r show ?thesis by blast
qed

text \<open>After a block is sealed the pool has learned what sorting learned, whether or not its
  cache was for that block: the cache is valid for the next block, answers with the simulated
  nonce of a sender before its state nonce, and no transaction below that nonce is left.\<close>

theorem update_new_block_learns:
  assumes "pool_wf tp" "pool_synced tp" "sorting_nonces_wf sn"
  shows "sn_valid_block (tp_nonces (update_new_block sn tp)) = valid_block sn + 1 \<and>
    (\<forall>s n. get_nonce sn s = Some n \<longrightarrow>
       sn_get (tp_nonces (update_new_block sn tp)) s = Some n \<and>
       (\<forall>l k tx. hm_get (tp_tx_lists (update_new_block sn tp)) s = Some l \<longrightarrow>
          (k, tx) \<in> set (tl_txs l) \<longrightarrow> n \<le> k))"
proof -
  have wf: "hm_wf (sn_nonces (srt_state sn))" "hm_wf (sn_nonces (srt_sorting sn))"
    using assms(3) by (auto simp: sorting_nonces_wf_def)
  have learned: "sn_get (tp_nonces (update_new_block sn tp)) s = Some n"
    if "get_nonce sn s = Some n" for s n
    using that all_iter_lookup[OF assms(3), of s] all_merged_get[OF wf(2)]
    by (auto simp: update_new_block_def Let_def sn_get_bump merge_nonces_get)
  have "pool_synced (update_new_block sn tp)"
    using update_new_block_ok(2)[OF assms(1,2) wf] .
  with learned show ?thesis
    by (auto simp: update_new_block_def Let_def valid_block_def pool_synced_def dest: lists_aboveD)
qed

theorem update_new_block_learns_witness:
  "sn_valid_block (tp_nonces (update_new_block ex_nonces ex_pool)) = 10 \<and>
   sn_get (tp_nonces (update_new_block ex_nonces ex_pool)) 7 = Some 5"
proof -
  have "valid_block ex_nonces + 1 = 10" "get_nonce ex_nonces 7 = Some 5"
    by (simp_all add: ex_nonces_def get_nonce_def)
  with update_new_block_learns[OF ex_pool_wf ex_pool_synced ex_nonces_wf] show ?thesis by simp
qed

end
