(* ===== verification/Sort_Data.thy ===== *)
theory Sort_Data
  imports Tx_List Event_Runs
begin

text \<open>
  The block builder \<open>SortData\<close> of \<open>crates/sequencer/src/sorting.rs\<close>: it simulates candidate
  orders on the current state, keeps the best result, applies it once all simulations are back,
  and repeats until the block should be sealed.

  The clock readings (\<open>Instant::now\<close>) are arguments.  \<open>est\<close> is \<open>estimate_compressed_size\<close>, a
  floating point estimate that the builder only compares with the block size limit; nothing is
  assumed about it.  Spawned simulations are returned as a list of requests.
\<close>

subsection \<open>State\<close>

record telemetry =
  te_n_sims_sent :: usize
  te_n_sims_success :: usize
  te_n_sims_revert :: usize
  te_n_invalid_nonce_too_low :: usize
  te_n_invalid_nonce_too_high :: usize
  te_n_invalid_insufficient_funds :: usize
  te_n_invalid_other :: usize
  te_tot_sim_time :: duration
  te_new_txs_processed :: usize
  te_tot_new_tx_time :: duration
  te_tot_handle_sim_time :: duration
  te_tot_maybe_sim_next :: duration

definition telemetry_default :: telemetry where
  "telemetry_default =
     \<lparr>te_n_sims_sent = 0, te_n_sims_success = 0, te_n_sims_revert = 0,
      te_n_invalid_nonce_too_low = 0, te_n_invalid_nonce_too_high = 0,
      te_n_invalid_insufficient_funds = 0, te_n_invalid_other = 0,
      te_tot_sim_time = 0, te_new_txs_processed = 0, te_tot_new_tx_time = 0,
      te_tot_handle_sim_time = 0, te_tot_maybe_sim_next = 0\<rparr>"

record sort_data =
  sd_block_info :: block_info
  sd_state_id :: state_id
  sd_start_build :: instant
  sd_active_orders :: active_orders
  sd_nonces :: sorting_nonces
  sd_orders :: "order list"
  sd_uncompressed_size :: usize
  sd_target_seal :: instant
  sd_target_block_time :: duration
  sd_builder_payment :: u128
  sd_gas_remaining :: u128
  sd_max_block_size :: usize
  sd_next_best :: "valid_order option"
  sd_in_flight_sims :: usize
  sd_telemetry :: telemetry
  sd_should_seal :: bool
  sd_should_discard :: bool
  sd_last_logged :: instant
  sd_waiting_for_new_txs :: bool
  sd_min_orders_before_seal :: u64
  sd_max_block_skips :: u64

text \<open>\<open>min_orders\<close> and \<open>max_skips\<close> are the two fields read from \<open>SequencerConfig\<close>.\<close>

definition sort_data_new ::
    "instant \<Rightarrow> block_info \<Rightarrow> state_id \<Rightarrow> active_orders \<Rightarrow> u128 \<Rightarrow> duration \<Rightarrow> usize \<Rightarrow> u64 \<Rightarrow> u64 \<Rightarrow>
     sort_data" where
  "sort_data_new now bi anchor_state_id ao gas_limit target_block_time max_block_size
      min_orders max_skips =
     \<lparr>sd_block_info = bi,
      sd_state_id = anchor_state_id,
      sd_start_build = now,
      sd_active_orders = ao,
      sd_nonces = sorting_nonces_new (bi_block_number bi),
      sd_orders = [],
      sd_uncompressed_size = 0,
      sd_target_seal = now + target_block_time,
      sd_target_block_time = target_block_time,
      sd_builder_payment = 0,
      sd_gas_remaining = gas_limit,
      sd_max_block_size = max_block_size,
      sd_next_best = None,
      sd_in_flight_sims = 0,
      sd_telemetry = telemetry_default,
      sd_should_seal = False,
      sd_should_discard = False,
      sd_last_logged = now,
      sd_waiting_for_new_txs = False,
      sd_min_orders_before_seal = min_orders,
      sd_max_block_skips = max_skips\<rparr>"

subsection \<open>New transactions\<close>

definition handle_new_tx_core :: "order \<Rightarrow> sort_data \<Rightarrow> sort_data run" where
  "handle_new_tx_core o1 sd =
     (if \<not> valid_for_base_fee o1 (bi_base_fee (sd_block_info sd)) then Inr sd
      else if (case get_nonce (sd_nonces sd) (ord_sender o1) of
                 Some state_nonce \<Rightarrow> order_nonce o1 < state_nonce
               | None \<Rightarrow> False) then Inr sd
      else bindR (ao_put o1 (sd_active_orders sd)) (\<lambda>ao.
             Inr (sd\<lparr>sd_waiting_for_new_txs := False, sd_active_orders := ao\<rparr>)))"

definition handle_new_tx :: "duration \<Rightarrow> order \<Rightarrow> sort_data \<Rightarrow> sort_data run" where
  "handle_new_tx took o1 sd =
     bindR (handle_new_tx_core o1 sd) (\<lambda>sd'. Inr (sd'\<lparr>sd_telemetry := (sd_telemetry sd')
       \<lparr>te_new_txs_processed := te_new_txs_processed (sd_telemetry sd') + 1,
        te_tot_new_tx_time := te_tot_new_tx_time (sd_telemetry sd') + took\<rparr>\<rparr>))"

subsection \<open>Applying the best order\<close>

definition sd_is_valid :: "sort_data \<Rightarrow> state_id \<Rightarrow> bool" where
  "sd_is_valid sd state_id \<longleftrightarrow> sd_state_id sd = state_id"

definition apply_best :: "(usize \<Rightarrow> usize) \<Rightarrow> valid_order \<Rightarrow> sort_data \<Rightarrow> sort_data run" where
  "apply_best est nb sd =
     (if \<not> sd_is_valid sd (vo_origin_state_id nb)
      then Inl ''assertion failed: self.is_valid(next_best.origin_state_id)''
      else if sd_gas_remaining sd < vo_gas_used nb
      then Inl ''assertion failed: self.gas_remaining >= next_best.gas_used''
      else
        (let o1 = vo_order nb;
             sd1 = sd\<lparr>sd_nonces := insert_sorting (ord_sender o1) (order_nonce o1 + 1) (sd_nonces sd),
                      sd_state_id := vo_new_state_id nb,
                      sd_builder_payment := sd_builder_payment sd + vo_builder_payment nb,
                      sd_gas_remaining := sd_gas_remaining sd - vo_gas_used nb,
                      sd_uncompressed_size := sd_uncompressed_size sd + len64 (ord_raw o1),
                      sd_orders := sd_orders sd @ [o1]\<rparr>
         in Inr (if sd_max_block_size sd1 < est (sd_uncompressed_size sd1)
                 then sd1\<lparr>sd_should_seal := True\<rparr> else sd1)))"

definition maybe_apply_next :: "(usize \<Rightarrow> usize) \<Rightarrow> instant \<Rightarrow> sort_data \<Rightarrow> sort_data run" where
  "maybe_apply_next est now sd =
     bindR (case sd_next_best sd of
              None \<Rightarrow> Inr sd
            | Some nb \<Rightarrow> apply_best est nb (sd\<lparr>sd_next_best := None\<rparr>))
       (\<lambda>sd'. Inr (if from_millis 500 < elapsed now (sd_last_logged sd')
                    then sd'\<lparr>sd_last_logged := now\<rparr> else sd'))"

subsection \<open>Simulation results\<close>

fun record_execution_result :: "execution_result \<Rightarrow> telemetry \<Rightarrow> telemetry" where
  "record_execution_result (Success _ _ _) te = te\<lparr>te_n_sims_success := te_n_sims_success te + 1\<rparr>"
| "record_execution_result (Revert _ _ _) te = te\<lparr>te_n_sims_revert := te_n_sims_revert te + 1\<rparr>"
| "record_execution_result (Invalid (NonceTooLow _ _)) te =
     te\<lparr>te_n_invalid_nonce_too_low := te_n_invalid_nonce_too_low te + 1\<rparr>"
| "record_execution_result (Invalid (NonceTooHigh _ _)) te =
     te\<lparr>te_n_invalid_nonce_too_high := te_n_invalid_nonce_too_high te + 1\<rparr>"
| "record_execution_result (Invalid (InsufficientFunds _ _)) te =
     te\<lparr>te_n_invalid_insufficient_funds := te_n_invalid_insufficient_funds te + 1\<rparr>"
| "record_execution_result (Invalid _) te = te\<lparr>te_n_invalid_other := te_n_invalid_other te + 1\<rparr>"

text \<open>The \<open>debug_assert!(false)\<close> of \<open>CapLessThanBaseFee\<close> is compiled out in the release profile.\<close>

fun handle_invalid :: "invalid_reason \<Rightarrow> order \<Rightarrow> sort_data \<Rightarrow> sort_data" where
  "handle_invalid (NonceTooLow _ st) o1 sd =
     sd\<lparr>sd_nonces := insert_state (ord_sender o1) st (sd_nonces sd)\<rparr>"
| "handle_invalid (NonceTooHigh _ st) o1 sd =
     sd\<lparr>sd_nonces := insert_state (ord_sender o1) st (sd_nonces sd)\<rparr>"
| "handle_invalid NotEnoughGas o1 sd = sd\<lparr>sd_should_seal := True\<rparr>"
| "handle_invalid CapLessThanBaseFee o1 sd =
     sd\<lparr>sd_nonces := insert_state (ord_sender o1) (order_nonce o1) (sd_nonces sd)\<rparr>"
| "handle_invalid (InsufficientFunds _ _) o1 sd =
     sd\<lparr>sd_nonces := insert_state (ord_sender o1) (order_nonce o1) (sd_nonces sd),
        sd_active_orders := ao_remove_sender (ord_sender o1) (sd_active_orders sd)\<rparr>"
| "handle_invalid (StateIdNotFound _) o1 sd = sd\<lparr>sd_should_discard := True\<rparr>"
| "handle_invalid (Uknown _) o1 sd = sd"

text \<open>A result that can be applied: drop it if it needs too much gas, else keep the better of it
  and the current best and put the other order back.\<close>

definition handle_valid ::
    "state_id \<Rightarrow> u128 \<Rightarrow> u128 \<Rightarrow> simulated_order \<Rightarrow> sort_data \<Rightarrow> sort_data run" where
  "handle_valid st gas_used builder_payment sim sd =
     (if sd_gas_remaining sd < gas_used then Inr sd
      else
        (let better = (case sd_next_best sd of
                         None \<Rightarrow> True | Some t \<Rightarrow> vo_builder_payment t < builder_payment);
             valid_order = \<lparr>vo_origin_state_id = so_origin_state_id sim, vo_new_state_id = st,
                            vo_gas_used = gas_used, vo_builder_payment = builder_payment,
                            vo_order = so_order sim\<rparr>;
             put_back = (if better then map_option vo_order (sd_next_best sd)
                         else Some (so_order sim));
             sd1 = (if better then sd\<lparr>sd_next_best := Some valid_order\<rparr> else sd)
         in (case put_back of
               None \<Rightarrow> Inr sd1
             | Some tx \<Rightarrow> bindR (ao_put tx (sd_active_orders sd1))
                            (\<lambda>ao. Inr (sd1\<lparr>sd_active_orders := ao\<rparr>)))))"

definition handle_sim_core :: "simulated_order \<Rightarrow> sort_data \<Rightarrow> sort_data run" where
  "handle_sim_core sim sd =
     (if \<not> sd_is_valid sd (so_origin_state_id sim) then Inr sd
      else
        (let te = (sd_telemetry sd)
               \<lparr>te_tot_sim_time := te_tot_sim_time (sd_telemetry sd) + so_sim_time sim\<rparr>;
             sd1 = sd\<lparr>sd_in_flight_sims := sd_in_flight_sims sd - 1,
                      sd_telemetry := record_execution_result (so_execution_result sim) te\<rparr>
         in (case so_execution_result sim of
               Success st gas pay \<Rightarrow> handle_valid st gas pay sim sd1
             | Revert st gas pay \<Rightarrow> handle_valid st gas pay sim sd1
             | Invalid reason \<Rightarrow> Inr (handle_invalid reason (so_order sim) sd1))))"

definition handle_sim :: "duration \<Rightarrow> simulated_order \<Rightarrow> sort_data \<Rightarrow> sort_data run" where
  "handle_sim took sim sd =
     bindR (handle_sim_core sim sd) (\<lambda>sd'. Inr (sd'\<lparr>sd_telemetry := (sd_telemetry sd')
       \<lparr>te_tot_handle_sim_time := te_tot_handle_sim_time (sd_telemetry sd') + took\<rparr>\<rparr>))"

subsection \<open>When to seal\<close>

definition is_past_target_seal :: "instant \<Rightarrow> sort_data \<Rightarrow> bool" where
  "is_past_target_seal now sd \<longleftrightarrow> sd_target_seal sd < now"

definition is_past_max_skip :: "instant \<Rightarrow> sort_data \<Rightarrow> bool" where
  "is_past_max_skip now sd \<longleftrightarrow>
     sd_target_seal sd + sd_target_block_time sd * unat (ucast (sd_max_block_skips sd) :: u32) < now"

definition is_enough_orders :: "sort_data \<Rightarrow> bool" where
  "is_enough_orders sd \<longleftrightarrow> sd_min_orders_before_seal sd \<le> len64 (sd_orders sd)"

definition should_seal :: "instant \<Rightarrow> sort_data \<Rightarrow> bool" where
  "should_seal now sd \<longleftrightarrow>
     sd_should_seal sd \<or> (is_enough_orders sd \<and> is_past_target_seal now sd) \<or> is_past_max_skip now sd"

definition set_should_seal :: "sort_data \<Rightarrow> sort_data" where
  "set_should_seal sd = sd\<lparr>sd_should_seal := True\<rparr>"

definition should_discard :: "sort_data \<Rightarrow> bool" where
  "should_discard sd \<longleftrightarrow> sd_should_discard sd"

definition num_txs :: "sort_data \<Rightarrow> usize" where
  "num_txs sd = len64 (sd_orders sd)"

subsection \<open>The next round of simulations\<close>

definition maybe_sim_next_batch_core ::
    "(usize \<Rightarrow> usize) \<Rightarrow> usize \<Rightarrow> instant \<Rightarrow> sort_data \<Rightarrow> (sort_data \<times> (order \<times> state_id) list) run" where
  "maybe_sim_next_batch_core est max_sims_per_loop now sd =
     (if 0 < sd_in_flight_sims sd \<or> should_seal now sd then Inr (sd, [])
      else bindR (maybe_apply_next est now sd) (\<lambda>sd1.
        if sd_waiting_for_new_txs sd1 then Inr (sd1, [])
        else
          (let (txs, ao) = get_next_best max_sims_per_loop (sd_nonces sd1)
                             (bi_base_fee (sd_block_info sd1)) (sd_active_orders sd1);
               sd2 = sd1\<lparr>sd_active_orders := ao,
                         sd_in_flight_sims := sd_in_flight_sims sd1 + len64 txs,
                         sd_telemetry := (sd_telemetry sd1)
                           \<lparr>te_n_sims_sent := te_n_sims_sent (sd_telemetry sd1) + len64 txs\<rparr>\<rparr>;
               sd3 = (if sd_in_flight_sims sd2 = 0
                      then sd2\<lparr>sd_waiting_for_new_txs := True\<rparr> else sd2)
           in Inr (sd3, map (\<lambda>tx. (tx, sd_state_id sd1)) txs))))"

definition maybe_sim_next_batch ::
    "(usize \<Rightarrow> usize) \<Rightarrow> usize \<Rightarrow> instant \<Rightarrow> duration \<Rightarrow> sort_data \<Rightarrow>
     (sort_data \<times> (order \<times> state_id) list) run" where
  "maybe_sim_next_batch est max_sims now took sd =
     bindR (maybe_sim_next_batch_core est max_sims now sd) (\<lambda>(sd', sent).
       Inr (sd'\<lparr>sd_telemetry := (sd_telemetry sd')
         \<lparr>te_tot_maybe_sim_next := te_tot_maybe_sim_next (sd_telemetry sd') + took\<rparr>\<rparr>, sent))"

end
