(* ===== verification/Sort_Loop.thy ===== *)
theory Sort_Loop
  imports Sort_Data
begin

text \<open>
  The sorting loop as a system: the builder \<open>sort_data\<close>, the simulations that are in flight for
  it, and the history of the orders it has applied (a ghost variable, which nothing reads).  The
  events are the calls that \<open>Sequencer\<close> makes while it is in state \<open>Sorting\<close>; the environment
  chooses their order, the answers of the simulator, and when they arrive.

  The invariant \<open>sort_inv\<close> connects the parts: the counter of simulations in flight, the state
  they run on, the nonces of the candidates, and what the applied orders add up to.
\<close>

record sort_sys =
  ss_sd :: sort_data
  ss_pend :: "(order \<times> state_id) list"
  ss_applied :: "valid_order list"

datatype sort_event =
    NewTxArrives order duration
  | SimReturns nat execution_result duration duration
  | StaleSimReturns simulated_order duration
  | SimBatch instant duration
  | SealRequested

definition drop_nth :: "nat \<Rightarrow> 'a list \<Rightarrow> 'a list" where
  "drop_nth i xs = take i xs @ drop (Suc i) xs"

definition returned_sim :: "(order \<times> state_id) list \<Rightarrow> nat \<Rightarrow> execution_result \<Rightarrow> duration \<Rightarrow> simulated_order" where
  "returned_sim pend i res t =
     \<lparr>so_origin_state_id = snd (pend ! i), so_execution_result = res, so_sim_time = t,
      so_order = fst (pend ! i)\<rparr>"

text \<open>The order that a call of \<open>maybe_sim_next_batch\<close> applies, for the history.\<close>

definition applies :: "instant \<Rightarrow> sort_data \<Rightarrow> valid_order list" where
  "applies now sd =
     (if 0 < sd_in_flight_sims sd \<or> should_seal now sd then []
      else (case sd_next_best sd of None \<Rightarrow> [] | Some nb \<Rightarrow> [nb]))"

fun sort_step :: "(usize \<Rightarrow> usize) \<Rightarrow> usize \<Rightarrow> sort_event \<Rightarrow> sort_sys \<Rightarrow> sort_sys run" where
  "sort_step est mx (NewTxArrives o1 took) s =
     bindR (handle_new_tx took o1 (ss_sd s)) (\<lambda>sd. Inr (s\<lparr>ss_sd := sd\<rparr>))"
| "sort_step est mx (SimReturns i res t took) s =
     bindR (handle_sim took (returned_sim (ss_pend s) i res t) (ss_sd s))
       (\<lambda>sd. Inr (s\<lparr>ss_sd := sd, ss_pend := drop_nth i (ss_pend s)\<rparr>))"
| "sort_step est mx (StaleSimReturns sim took) s =
     bindR (handle_sim took sim (ss_sd s)) (\<lambda>sd. Inr (s\<lparr>ss_sd := sd\<rparr>))"
| "sort_step est mx (SimBatch now took) s =
     bindR (maybe_sim_next_batch est mx now took (ss_sd s)) (\<lambda>(sd, sent).
       Inr \<lparr>ss_sd = sd, ss_pend = ss_pend s @ sent, ss_applied = ss_applied s @ applies now (ss_sd s)\<rparr>)"
| "sort_step est mx SealRequested s = Inr (s\<lparr>ss_sd := set_should_seal (ss_sd s)\<rparr>)"

text \<open>What the environment guarantees: an answer belongs to a simulation in flight, and an answer
  from an earlier block carries a state id other than the current one (the simulator numbers
  states uniquely).\<close>

fun sort_legal :: "sort_event \<Rightarrow> sort_sys \<Rightarrow> bool" where
  "sort_legal (SimReturns i res t took) s = (i < length (ss_pend s))"
| "sort_legal (StaleSimReturns sim took) s = (so_origin_state_id sim \<noteq> sd_state_id (ss_sd s))"
| "sort_legal _ s = True"

subsection \<open>The invariant\<close>

definition sender_nonces :: "address \<Rightarrow> order list \<Rightarrow> u64 list" where
  "sender_nonces s os = map order_nonce (filter (\<lambda>o1. ord_sender o1 = s) os)"

fun consecutive :: "u64 list \<Rightarrow> bool" where
  "consecutive (a # b # ns) = (b = a + 1 \<and> consecutive (b # ns))"
| "consecutive _ = True"

definition simulated_nonce :: "sort_data \<Rightarrow> address \<Rightarrow> u64 option" where
  "simulated_nonce sd = sn_get (srt_sorting (sd_nonces sd))"

definition chain_ok :: "sort_data \<Rightarrow> bool" where
  "chain_ok sd \<longleftrightarrow> (\<forall>s.
     consecutive (sender_nonces s (sd_orders sd)) \<and>
     simulated_nonce sd s =
       (if sender_nonces s (sd_orders sd) = [] then None
        else Some (last (sender_nonces s (sd_orders sd)) + 1)))"

definition fits_nonce :: "sort_data \<Rightarrow> order \<Rightarrow> bool" where
  "fits_nonce sd o1 \<longleftrightarrow> (\<forall>n. simulated_nonce sd (ord_sender o1) = Some n \<longrightarrow> order_nonce o1 = n)"

text \<open>Each applied order was simulated on the state the previous one left.\<close>

fun linked :: "state_id \<Rightarrow> valid_order list \<Rightarrow> state_id \<Rightarrow> bool" where
  "linked a [] b = (a = b)"
| "linked a (v # vs) b = (vo_origin_state_id v = a \<and> linked (vo_new_state_id v) vs b)"

definition accounts :: "state_id \<Rightarrow> u128 \<Rightarrow> valid_order list \<Rightarrow> sort_data \<Rightarrow> bool" where
  "accounts a gas_limit applied sd \<longleftrightarrow>
     sd_orders sd = map vo_order applied \<and>
     linked a applied (sd_state_id sd) \<and>
     unat (sd_gas_remaining sd) + (\<Sum>v\<leftarrow>applied. unat (vo_gas_used v)) = unat gas_limit \<and>
     sd_builder_payment sd = (\<Sum>v\<leftarrow>applied. vo_builder_payment v) \<and>
     sd_uncompressed_size sd = (\<Sum>v\<leftarrow>applied. len64 (ord_raw (vo_order v)))"

definition flight_ok :: "(order \<times> state_id) list \<Rightarrow> sort_data \<Rightarrow> bool" where
  "flight_ok pend sd \<longleftrightarrow> unat (sd_in_flight_sims sd) = length pend \<and>
     (\<forall>(o1, i) \<in> set pend. i = sd_state_id sd \<and> fits_nonce sd o1)"

definition best_ok :: "sort_data \<Rightarrow> bool" where
  "best_ok sd \<longleftrightarrow> (\<forall>nb. sd_next_best sd = Some nb \<longrightarrow>
     vo_origin_state_id nb = sd_state_id sd \<and> vo_gas_used nb \<le> sd_gas_remaining sd \<and>
     fits_nonce sd (vo_order nb))"

definition sort_inv :: "state_id \<Rightarrow> u128 \<Rightarrow> sort_sys \<Rightarrow> bool" where
  "sort_inv a gas_limit s \<longleftrightarrow>
     ao_wf (sd_active_orders (ss_sd s)) \<and> sorting_nonces_wf (sd_nonces (ss_sd s)) \<and>
     chain_ok (ss_sd s) \<and> accounts a gas_limit (ss_applied s) (ss_sd s) \<and>
     flight_ok (ss_pend s) (ss_sd s) \<and> best_ok (ss_sd s)"

subsection \<open>The operations, one at a time\<close>

text \<open>The part of the builder that the invariant reads besides the snapshot.\<close>

definition same_core :: "sort_data \<Rightarrow> sort_data \<Rightarrow> bool" where
  "same_core sd sd' \<longleftrightarrow>
     sd_state_id sd' = sd_state_id sd \<and> sd_orders sd' = sd_orders sd \<and>
     srt_sorting (sd_nonces sd') = srt_sorting (sd_nonces sd) \<and>
     sd_gas_remaining sd' = sd_gas_remaining sd \<and> sd_builder_payment sd' = sd_builder_payment sd \<and>
     sd_uncompressed_size sd' = sd_uncompressed_size sd"

lemma same_core_refl [simp]: "same_core sd sd"
  by (simp add: same_core_def)

lemma same_core_parts:
  assumes "same_core sd sd'"
  shows "simulated_nonce sd' = simulated_nonce sd" "fits_nonce sd' = fits_nonce sd"
    "chain_ok sd' \<longleftrightarrow> chain_ok sd" "accounts a g applied sd' \<longleftrightarrow> accounts a g applied sd"
  using assms
  by (auto simp: same_core_def simulated_nonce_def fits_nonce_def chain_ok_def accounts_def fun_eq_iff)

lemma handle_new_tx_core_ok:
  assumes "ao_wf (sd_active_orders sd)"
  shows "\<exists>sd'. handle_new_tx_core o1 sd = Inr sd' \<and> same_core sd sd' \<and>
    ao_wf (sd_active_orders sd') \<and> sd_nonces sd' = sd_nonces sd \<and>
    sd_next_best sd' = sd_next_best sd \<and> sd_in_flight_sims sd' = sd_in_flight_sims sd"
  using assms ao_put_ok[of o1 "sd_active_orders sd"]
  by (auto simp: handle_new_tx_core_def same_core_def dest: ao_put_wf)

lemma handle_new_tx_ok:
  assumes "ao_wf (sd_active_orders sd)"
  shows "\<exists>sd'. handle_new_tx took o1 sd = Inr sd' \<and> same_core sd sd' \<and>
    ao_wf (sd_active_orders sd') \<and> sd_nonces sd' = sd_nonces sd \<and>
    sd_next_best sd' = sd_next_best sd \<and> sd_in_flight_sims sd' = sd_in_flight_sims sd"
  using handle_new_tx_core_ok[OF assms, of o1]
  by (auto simp: handle_new_tx_def same_core_def)

lemma handle_invalid_ok:
  assumes "ao_wf (sd_active_orders sd)" "sorting_nonces_wf (sd_nonces sd)"
  shows "same_core sd (handle_invalid r o1 sd)" "ao_wf (sd_active_orders (handle_invalid r o1 sd))"
    "sorting_nonces_wf (sd_nonces (handle_invalid r o1 sd))"
    "sd_next_best (handle_invalid r o1 sd) = sd_next_best sd"
    "sd_in_flight_sims (handle_invalid r o1 sd) = sd_in_flight_sims sd"
  using assms by (cases r; auto simp: same_core_def ao_remove_sender_wf)+

definition best_after :: "sort_data \<Rightarrow> valid_order \<Rightarrow> valid_order option" where
  "best_after sd v =
     (if sd_gas_remaining sd < vo_gas_used v then sd_next_best sd
      else (case sd_next_best sd of
              None \<Rightarrow> Some v
            | Some t \<Rightarrow> if vo_builder_payment t < vo_builder_payment v then Some v else Some t))"

lemma handle_valid_ok:
  assumes "ao_wf (sd_active_orders sd)"
  shows "\<exists>sd'. handle_valid st gas pay sim sd = Inr sd' \<and> same_core sd sd' \<and>
    ao_wf (sd_active_orders sd') \<and> sd_nonces sd' = sd_nonces sd \<and>
    sd_in_flight_sims sd' = sd_in_flight_sims sd \<and>
    sd_next_best sd' = best_after sd \<lparr>vo_origin_state_id = so_origin_state_id sim,
      vo_new_state_id = st, vo_gas_used = gas, vo_builder_payment = pay, vo_order = so_order sim\<rparr>"
proof -
  have put: "\<exists>ao. ao_put tx (sd_active_orders sd) = Inr ao \<and> ao_wf ao" for tx
    using ao_put_ok[of tx "sd_active_orders sd"] assms by (auto dest: ao_put_wf)
  show ?thesis
  proof (cases "sd_next_best sd")
    case None
    with assms show ?thesis
      by (auto simp: handle_valid_def Let_def same_core_def best_after_def)
  next
    case (Some t)
    with assms put[of "vo_order t"] put[of "so_order sim"] show ?thesis
      by (auto simp: handle_valid_def Let_def same_core_def best_after_def)
  qed
qed

text \<open>The candidate that a simulation yields, if it can be included at all.\<close>

fun candidate :: "simulated_order \<Rightarrow> valid_order option" where
  "candidate sim =
     (case so_execution_result sim of
        Success st gas pay \<Rightarrow>
          Some \<lparr>vo_origin_state_id = so_origin_state_id sim, vo_new_state_id = st,
                vo_gas_used = gas, vo_builder_payment = pay, vo_order = so_order sim\<rparr>
      | Revert st gas pay \<Rightarrow>
          Some \<lparr>vo_origin_state_id = so_origin_state_id sim, vo_new_state_id = st,
                vo_gas_used = gas, vo_builder_payment = pay, vo_order = so_order sim\<rparr>
      | Invalid _ \<Rightarrow> None)"

lemma candidate_parts:
  "candidate sim = Some v \<Longrightarrow> vo_origin_state_id v = so_origin_state_id sim \<and> vo_order v = so_order sim"
  by (cases "so_execution_result sim") auto

lemma handle_sim_core_ok:
  assumes wf: "ao_wf (sd_active_orders sd)" "sorting_nonces_wf (sd_nonces sd)"
    and origin: "so_origin_state_id sim = sd_state_id sd"
  shows "\<exists>sd'. handle_sim_core sim sd = Inr sd' \<and> same_core sd sd' \<and>
    ao_wf (sd_active_orders sd') \<and> sorting_nonces_wf (sd_nonces sd') \<and>
    sd_in_flight_sims sd' = sd_in_flight_sims sd - 1 \<and>
    sd_next_best sd' = (case candidate sim of Some v \<Rightarrow> best_after sd v | None \<Rightarrow> sd_next_best sd)"
proof -
  define sd1 where "sd1 = sd\<lparr>sd_in_flight_sims := sd_in_flight_sims sd - 1,
    sd_telemetry := record_execution_result (so_execution_result sim) ((sd_telemetry sd)
      \<lparr>te_tot_sim_time := te_tot_sim_time (sd_telemetry sd) + so_sim_time sim\<rparr>)\<rparr>"
  have sd1: "ao_wf (sd_active_orders sd1)" "sorting_nonces_wf (sd_nonces sd1)" "same_core sd sd1"
    "sd_in_flight_sims sd1 = sd_in_flight_sims sd - 1" "best_after sd1 = best_after sd"
    "sd_next_best sd1 = sd_next_best sd"
    using wf by (auto simp: sd1_def same_core_def best_after_def fun_eq_iff)
  have trans: "same_core sd1 sd' \<Longrightarrow> same_core sd sd'" for sd'
    using sd1(3) by (simp add: same_core_def)
  have eq: "handle_sim_core sim sd =
      (case so_execution_result sim of
         Success st gas pay \<Rightarrow> handle_valid st gas pay sim sd1
       | Revert st gas pay \<Rightarrow> handle_valid st gas pay sim sd1
       | Invalid reason \<Rightarrow> Inr (handle_invalid reason (so_order sim) sd1))"
    by (simp only: handle_sim_core_def sd_is_valid_def sd1_def Let_def origin simp_thms if_False)
  show ?thesis
  proof (cases "so_execution_result sim")
    case (Success st gas pay)
    with handle_valid_ok[OF sd1(1), of st gas pay sim] sd1 trans eq show ?thesis by fastforce
  next
    case (Revert st gas pay)
    with handle_valid_ok[OF sd1(1), of st gas pay sim] sd1 trans eq show ?thesis by fastforce
  next
    case (Invalid reason)
    with handle_invalid_ok[OF sd1(1,2), of reason "so_order sim"] sd1 trans eq show ?thesis by simp
  qed
qed

lemma handle_sim_ok:
  assumes "ao_wf (sd_active_orders sd)" "sorting_nonces_wf (sd_nonces sd)"
    and "so_origin_state_id sim = sd_state_id sd"
  shows "\<exists>sd'. handle_sim took sim sd = Inr sd' \<and> same_core sd sd' \<and>
    ao_wf (sd_active_orders sd') \<and> sorting_nonces_wf (sd_nonces sd') \<and>
    sd_in_flight_sims sd' = sd_in_flight_sims sd - 1 \<and>
    sd_next_best sd' = (case candidate sim of Some v \<Rightarrow> best_after sd v | None \<Rightarrow> sd_next_best sd)"
  using handle_sim_core_ok[OF assms]
  by (auto simp: handle_sim_def same_core_def simp del: candidate.simps)

lemma handle_sim_stale:
  "so_origin_state_id sim \<noteq> sd_state_id sd \<Longrightarrow> \<exists>te. handle_sim took sim sd = Inr (sd\<lparr>sd_telemetry := te\<rparr>)"
  by (auto simp: handle_sim_def handle_sim_core_def sd_is_valid_def)

lemma same_core_telemetry [simp]: "same_core sd (sd\<lparr>sd_telemetry := te\<rparr>)"
  by (simp add: same_core_def)

lemma log_clock_simps [simp]:
  "chain_ok (sd\<lparr>sd_last_logged := t\<rparr>) \<longleftrightarrow> chain_ok sd"
  "accounts a g vs (sd\<lparr>sd_last_logged := t\<rparr>) \<longleftrightarrow> accounts a g vs sd"
  by (simp_all add: chain_ok_def accounts_def simulated_nonce_def)

text \<open>The orders of one sender after another order is appended.\<close>

lemma sender_nonces_snoc:
  "sender_nonces s (os @ [o1]) =
     (if ord_sender o1 = s then sender_nonces s os @ [order_nonce o1] else sender_nonces s os)"
  by (simp add: sender_nonces_def)

lemma consecutive_snoc:
  "consecutive (ns @ [n]) \<longleftrightarrow> consecutive ns \<and> (ns \<noteq> [] \<longrightarrow> n = last ns + 1)"
  by (induction ns rule: consecutive.induct) auto

lemma linked_snoc: "linked a (vs @ [v]) b \<longleftrightarrow> linked a vs (vo_origin_state_id v) \<and> vo_new_state_id v = b"
  by (induction vs arbitrary: a) auto

lemma apply_best_ok:
  assumes inv: "chain_ok sd" "accounts a g applied sd" "ao_wf (sd_active_orders sd)"
      "sorting_nonces_wf (sd_nonces sd)"
    and nb: "vo_origin_state_id nb = sd_state_id sd" "vo_gas_used nb \<le> sd_gas_remaining sd"
      "fits_nonce sd (vo_order nb)"
  shows "\<exists>sd'. apply_best est nb sd = Inr sd' \<and> chain_ok sd' \<and> accounts a g (applied @ [nb]) sd' \<and>
    ao_wf (sd_active_orders sd') \<and> sorting_nonces_wf (sd_nonces sd') \<and>
    sd_next_best sd' = sd_next_best sd \<and> sd_in_flight_sims sd' = sd_in_flight_sims sd"
proof -
  define o1 where "o1 = vo_order nb"
  define sd1 where "sd1 = sd\<lparr>sd_nonces := insert_sorting (ord_sender o1) (order_nonce o1 + 1) (sd_nonces sd),
                      sd_state_id := vo_new_state_id nb,
                      sd_builder_payment := sd_builder_payment sd + vo_builder_payment nb,
                      sd_gas_remaining := sd_gas_remaining sd - vo_gas_used nb,
                      sd_uncompressed_size := sd_uncompressed_size sd + len64 (ord_raw o1),
                      sd_orders := sd_orders sd @ [o1]\<rparr>"
  define sd' where "sd' = (if sd_max_block_size sd1 < est (sd_uncompressed_size sd1)
                 then sd1\<lparr>sd_should_seal := True\<rparr> else sd1)"
  have eq: "apply_best est nb sd = Inr sd'"
    using nb by (simp add: apply_best_def sd_is_valid_def sd'_def sd1_def o1_def Let_def)
  have sim: "simulated_nonce sd1 = (simulated_nonce sd)(ord_sender o1 \<mapsto> order_nonce o1 + 1)"
    by (simp add: simulated_nonce_def sd1_def)
  have "chain_ok sd1"
    using inv(1) nb(3) unfolding chain_ok_def sim fits_nonce_def
    by (auto simp: sd1_def sender_nonces_snoc consecutive_snoc o1_def[symmetric])
  moreover have "unat (sd_gas_remaining sd - vo_gas_used nb) = unat (sd_gas_remaining sd) - unat (vo_gas_used nb)"
    and "unat (vo_gas_used nb) \<le> unat (sd_gas_remaining sd)"
    using nb(2) by (simp_all add: unat_sub word_le_nat_alt)
  then have "accounts a g (applied @ [nb]) sd1"
    using inv(2) nb(1) by (auto simp: accounts_def sd1_def linked_snoc o1_def)
  moreover have "same_core sd1 sd'" by (simp add: sd'_def same_core_def)
  ultimately have "chain_ok sd'" "accounts a g (applied @ [nb]) sd'"
    using same_core_parts[of sd1 sd'] by simp_all
  moreover have "ao_wf (sd_active_orders sd')" "sorting_nonces_wf (sd_nonces sd')"
      "sd_next_best sd' = sd_next_best sd" "sd_in_flight_sims sd' = sd_in_flight_sims sd"
    using inv(3,4) by (simp_all add: sd'_def sd1_def)
  ultimately show ?thesis using eq by blast
qed

lemma maybe_apply_next_ok:
  assumes inv: "chain_ok sd" "accounts a g applied sd" "ao_wf (sd_active_orders sd)"
      "sorting_nonces_wf (sd_nonces sd)" "best_ok sd"
  shows "\<exists>sd'. maybe_apply_next est now sd = Inr sd' \<and> chain_ok sd' \<and>
    accounts a g (applied @ (case sd_next_best sd of None \<Rightarrow> [] | Some nb \<Rightarrow> [nb])) sd' \<and>
    ao_wf (sd_active_orders sd') \<and> sorting_nonces_wf (sd_nonces sd') \<and>
    sd_next_best sd' = None \<and> sd_in_flight_sims sd' = sd_in_flight_sims sd"
proof -
  show ?thesis
  proof (cases "sd_next_best sd")
    case None
    with inv show ?thesis by (simp add: maybe_apply_next_def)
  next
    case (Some nb)
    let ?sd0 = "sd\<lparr>sd_next_best := None\<rparr>"
    have "same_core sd ?sd0" by (simp add: same_core_def)
    from same_core_parts[OF this] inv Some have
      "chain_ok ?sd0" "accounts a g applied ?sd0" "fits_nonce ?sd0 (vo_order nb)"
      "vo_origin_state_id nb = sd_state_id ?sd0" "vo_gas_used nb \<le> sd_gas_remaining ?sd0"
      by (auto simp: best_ok_def)
    moreover have "ao_wf (sd_active_orders ?sd0)" "sorting_nonces_wf (sd_nonces ?sd0)"
      using inv(3,4) by simp_all
    ultimately obtain sd1 where
      "apply_best est nb ?sd0 = Inr sd1" "chain_ok sd1" "accounts a g (applied @ [nb]) sd1"
      "ao_wf (sd_active_orders sd1)" "sorting_nonces_wf (sd_nonces sd1)"
      "sd_next_best sd1 = sd_next_best ?sd0" "sd_in_flight_sims sd1 = sd_in_flight_sims ?sd0"
      using apply_best_ok[of ?sd0 a g applied nb est] by blast
    with Some show ?thesis by (simp add: maybe_apply_next_def)
  qed
qed

lemma take_ready_fits:
  assumes "\<forall>l \<in> set ls. tl_wf l" and "tx \<in> set (fst (take_ready n sn f ls))"
  shows "valid_for_base_fee tx f" and "get_nonce sn (ord_sender tx) = Some k \<Longrightarrow> order_nonce tx = k"
  using assms
proof (induction n sn f ls rule: take_ready.induct)
  case (3 n sn f l ls)
  {
    case 1
    with "3.IH" show ?case
      by (auto split: prod.splits option.splits dest: first_ready_Some)
  next
    case 2
    with "3.IH" show ?case
      by (auto split: prod.splits option.splits) (metis first_ready_Some(1,3))
  }
qed simp_all

lemma maybe_sim_next_batch_core_ok:
  assumes inv: "chain_ok sd" "accounts a g applied sd" "ao_wf (sd_active_orders sd)"
      "sorting_nonces_wf (sd_nonces sd)" "best_ok sd" "flight_ok pend sd"
  shows "\<exists>sd' sent. maybe_sim_next_batch_core est mx now sd = Inr (sd', sent) \<and> chain_ok sd' \<and>
    accounts a g (applied @ applies now sd) sd' \<and>
    ao_wf (sd_active_orders sd') \<and> sorting_nonces_wf (sd_nonces sd') \<and> best_ok sd' \<and>
    flight_ok (pend @ sent) sd' \<and> length sent \<le> unat mx \<and>
    (sent \<noteq> [] \<longrightarrow> pend = [] \<and> \<not> should_seal now sd) \<and>
    (\<forall>(tx, i) \<in> set sent. valid_for_base_fee tx (bi_base_fee (sd_block_info sd')))"
proof (cases "0 < sd_in_flight_sims sd \<or> should_seal now sd")
  case True
  with inv show ?thesis by (auto simp: maybe_sim_next_batch_core_def applies_def)
next
  case False
  with inv(6) have pend: "pend = []" by (auto simp: flight_ok_def word_gt_0)
  from maybe_apply_next_ok[OF inv(1-5), of est now] obtain sd1 where
    sd1: "maybe_apply_next est now sd = Inr sd1" "chain_ok sd1"
      "accounts a g (applied @ applies now sd) sd1" "ao_wf (sd_active_orders sd1)"
      "sorting_nonces_wf (sd_nonces sd1)" "sd_next_best sd1 = None"
      "sd_in_flight_sims sd1 = 0"
    using False by (auto simp: applies_def word_gt_0)
  show ?thesis
  proof (cases "sd_waiting_for_new_txs sd1")
    case True
    with sd1 False pend show ?thesis
      by (auto simp: maybe_sim_next_batch_core_def best_ok_def flight_ok_def)
  next
    case waiting: False
    define fee where "fee = bi_base_fee (sd_block_info sd1)"
    obtain txs ao where ready: "get_next_best mx (sd_nonces sd1) fee (sd_active_orders sd1) = (txs, ao)"
      by (cases "get_next_best mx (sd_nonces sd1) fee (sd_active_orders sd1)")
    define sd2 where "sd2 = sd1\<lparr>sd_active_orders := ao,
                         sd_in_flight_sims := sd_in_flight_sims sd1 + len64 txs,
                         sd_telemetry := (sd_telemetry sd1)
                           \<lparr>te_n_sims_sent := te_n_sims_sent (sd_telemetry sd1) + len64 txs\<rparr>\<rparr>"
    define sd3 where "sd3 = (if sd_in_flight_sims sd2 = 0
                      then sd2\<lparr>sd_waiting_for_new_txs := True\<rparr> else sd2)"
    have eq: "maybe_sim_next_batch_core est mx now sd = Inr (sd3, map (\<lambda>tx. (tx, sd_state_id sd1)) txs)"
      using False waiting ready sd1(1)
      by (simp add: maybe_sim_next_batch_core_def fee_def sd2_def sd3_def Let_def)
    have core: "same_core sd1 sd3" by (simp add: sd2_def sd3_def same_core_def)
    have ls: "(txs, ao_tx_lists ao) =
        take_ready (unat mx) (sd_nonces sd1) fee (ao_tx_lists (sd_active_orders sd1))"
      using ready by (auto simp: get_next_best_def split: prod.splits)
    have len: "length txs \<le> unat mx" "unat (len64 txs) = length txs"
      using take_ready_length[of "unat mx" "sd_nonces sd1" fee "ao_tx_lists (sd_active_orders sd1)"]
        ls[symmetric] unat_u64_less[of mx] by (auto intro!: unat_len64)
    have wf: "ao_wf ao"
      using take_ready_wf[of "ao_tx_lists (sd_active_orders sd1)" "unat mx" "sd_nonces sd1" fee]
        take_ready_senders[of "unat mx" "sd_nonces sd1" fee "ao_tx_lists (sd_active_orders sd1)"]
        ls[symmetric] sd1(4) by (auto simp: ao_wf_def)
    have fit: "valid_for_base_fee tx fee \<and> fits_nonce sd1 tx" if "tx \<in> set txs" for tx
    proof -
      have "\<forall>l \<in> set (ao_tx_lists (sd_active_orders sd1)). tl_wf l" and
        "tx \<in> set (fst (take_ready (unat mx) (sd_nonces sd1) fee (ao_tx_lists (sd_active_orders sd1))))"
        using that sd1(4) ls[symmetric] by (auto simp: ao_wf_def)
      from take_ready_fits[OF this] show ?thesis
        by (auto simp: fits_nonce_def simulated_nonce_def dest: get_nonce_sorting)
    qed
    have "flight_ok (pend @ map (\<lambda>tx. (tx, sd_state_id sd1)) txs) sd3"
      using fit pend len(2) same_core_parts(2)[OF core] sd1(7)
      by (auto simp: flight_ok_def sd2_def sd3_def)
    moreover have "best_ok sd3" "ao_wf (sd_active_orders sd3)" "sorting_nonces_wf (sd_nonces sd3)"
      using sd1(5,6) wf by (auto simp: best_ok_def sd2_def sd3_def)
    moreover have "bi_base_fee (sd_block_info sd3) = fee" by (simp add: sd2_def sd3_def fee_def)
    ultimately show ?thesis
      using eq sd1(2,3) core same_core_parts(3,4)[OF core] len(1) fit pend False
      by (intro exI[of _ sd3] exI[of _ "map (\<lambda>tx. (tx, sd_state_id sd1)) txs"]) auto
  qed
qed

lemma maybe_sim_next_batch_ok:
  assumes "chain_ok sd" "accounts a g applied sd" "ao_wf (sd_active_orders sd)"
      "sorting_nonces_wf (sd_nonces sd)" "best_ok sd" "flight_ok pend sd"
  shows "\<exists>sd' sent. maybe_sim_next_batch est mx now took sd = Inr (sd', sent) \<and> chain_ok sd' \<and>
    accounts a g (applied @ applies now sd) sd' \<and>
    ao_wf (sd_active_orders sd') \<and> sorting_nonces_wf (sd_nonces sd') \<and> best_ok sd' \<and>
    flight_ok (pend @ sent) sd' \<and> length sent \<le> unat mx \<and>
    (sent \<noteq> [] \<longrightarrow> pend = [] \<and> \<not> should_seal now sd) \<and>
    (\<forall>(tx, i) \<in> set sent. valid_for_base_fee tx (bi_base_fee (sd_block_info sd')))"
proof -
  from maybe_sim_next_batch_core_ok[OF assms, of est mx now] obtain sd1 sent where
    core: "maybe_sim_next_batch_core est mx now sd = Inr (sd1, sent)" "chain_ok sd1"
      "accounts a g (applied @ applies now sd) sd1"
      "ao_wf (sd_active_orders sd1)" "sorting_nonces_wf (sd_nonces sd1)" "best_ok sd1"
      "flight_ok (pend @ sent) sd1" "length sent \<le> unat mx"
      "sent \<noteq> [] \<longrightarrow> pend = [] \<and> \<not> should_seal now sd"
      "\<forall>(tx, i) \<in> set sent. valid_for_base_fee tx (bi_base_fee (sd_block_info sd1))"
    by blast
  define sd' where "sd' = sd1\<lparr>sd_telemetry := (sd_telemetry sd1)
         \<lparr>te_tot_maybe_sim_next := te_tot_maybe_sim_next (sd_telemetry sd1) + took\<rparr>\<rparr>"
  have same: "same_core sd1 sd'" "sd_block_info sd' = sd_block_info sd1"
    "sd_active_orders sd' = sd_active_orders sd1" "sd_nonces sd' = sd_nonces sd1"
    "sd_in_flight_sims sd' = sd_in_flight_sims sd1" "sd_next_best sd' = sd_next_best sd1"
    "sd_state_id sd' = sd_state_id sd1" "sd_gas_remaining sd' = sd_gas_remaining sd1"
    by (simp_all add: sd'_def)
  have "flight_ok (pend @ sent) sd'" "best_ok sd'"
    using core(6,7) same same_core_parts(2)[OF same(1)] by (simp_all add: flight_ok_def best_ok_def)
  moreover have "maybe_sim_next_batch est mx now took sd = Inr (sd', sent)"
    using core(1) by (simp add: maybe_sim_next_batch_def sd'_def)
  ultimately show ?thesis
    using core same same_core_parts(3,4)[OF same(1)] by (intro exI[of _ sd'] exI[of _ sent]) simp
qed

lemma set_drop_nth: "set (drop_nth i xs) \<subseteq> set xs"
  by (auto simp: drop_nth_def dest: in_set_takeD in_set_dropD)

lemma length_drop_nth: "i < length xs \<Longrightarrow> length (drop_nth i xs) = length xs - 1"
  by (simp add: drop_nth_def)

lemma flight_ok_return:
  assumes "flight_ok pend sd" "i < length pend" "same_core sd sd'"
    and "sd_in_flight_sims sd' = sd_in_flight_sims sd - 1"
  shows "flight_ok (drop_nth i pend) sd'"
proof -
  have "unat (sd_in_flight_sims sd) = length pend" using assms(1) by (simp add: flight_ok_def)
  with assms(2) have "unat (sd_in_flight_sims sd - 1) = length pend - 1"
    by (simp add: unat_sub word_le_nat_alt)
  moreover have "sd_state_id sd' = sd_state_id sd" using assms(3) by (simp add: same_core_def)
  ultimately show ?thesis
    using assms set_drop_nth[of i pend] length_drop_nth[OF assms(2)] same_core_parts(2)[OF assms(3)]
    by (auto simp: flight_ok_def)
qed

lemma flight_ok_same:
  "flight_ok pend sd \<Longrightarrow> same_core sd sd' \<Longrightarrow> sd_in_flight_sims sd' = sd_in_flight_sims sd \<Longrightarrow>
     flight_ok pend sd'"
  using same_core_parts(2)[of sd sd'] by (auto simp: flight_ok_def same_core_def)

lemma best_ok_same:
  "best_ok sd \<Longrightarrow> same_core sd sd' \<Longrightarrow> sd_next_best sd' = sd_next_best sd \<Longrightarrow> best_ok sd'"
  using same_core_parts(2)[of sd sd'] by (auto simp: best_ok_def same_core_def)

lemma best_ok_after:
  assumes "best_ok sd" "same_core sd sd'" "sd_next_best sd' = best_after sd v"
    and "vo_origin_state_id v = sd_state_id sd" "fits_nonce sd (vo_order v)"
  shows "best_ok sd'"
  using assms same_core_parts(2)[OF assms(2)]
  by (auto simp: best_ok_def same_core_def best_after_def not_less split: option.splits if_splits)

lemma sort_step_safe:
  assumes inv: "sort_inv a g s" and legal: "sort_legal e s"
  shows "\<exists>s'. sort_step est mx e s = Inr s' \<and> sort_inv a g s'"
proof -
  define sd where "sd = ss_sd s"
  have I: "ao_wf (sd_active_orders sd)" "sorting_nonces_wf (sd_nonces sd)" "chain_ok sd"
    "accounts a g (ss_applied s) sd" "flight_ok (ss_pend s) sd" "best_ok sd"
    using inv by (simp_all add: sort_inv_def sd_def)
  show ?thesis
  proof (cases e)
    case (NewTxArrives o1 took)
    obtain sd' where sd': "handle_new_tx took o1 sd = Inr sd'" "same_core sd sd'"
      "ao_wf (sd_active_orders sd')" "sd_nonces sd' = sd_nonces sd"
      "sd_next_best sd' = sd_next_best sd" "sd_in_flight_sims sd' = sd_in_flight_sims sd"
      using handle_new_tx_ok[OF I(1), of took o1] by blast
    with I NewTxArrives same_core_parts[OF sd'(2)] show ?thesis
      by (simp add: sort_inv_def sd_def[symmetric] flight_ok_same best_ok_same)
  next
    case (SimReturns i res t took)
    define sim where "sim = returned_sim (ss_pend s) i res t"
    have i: "i < length (ss_pend s)" using legal SimReturns by simp
    then have "ss_pend s ! i \<in> set (ss_pend s)" by simp
    with I(5) have sim: "so_origin_state_id sim = sd_state_id sd" "fits_nonce sd (so_order sim)"
      by (auto simp: sim_def returned_sim_def flight_ok_def)
    from handle_sim_ok[OF I(1,2) sim(1), of took] obtain sd' where
      sd': "handle_sim took sim sd = Inr sd'" "same_core sd sd'"
      "ao_wf (sd_active_orders sd')" "sorting_nonces_wf (sd_nonces sd')"
      "sd_in_flight_sims sd' = sd_in_flight_sims sd - 1"
      "sd_next_best sd' = (case candidate sim of Some v \<Rightarrow> best_after sd v | None \<Rightarrow> sd_next_best sd)"
      by blast
    have "best_ok sd'"
    proof (cases "candidate sim")
      case None
      with sd'(6) have "sd_next_best sd' = sd_next_best sd" by simp
      with best_ok_same[OF I(6) sd'(2)] show ?thesis by simp
    next
      case (Some v)
      with sd'(6) have "sd_next_best sd' = best_after sd v" by simp
      from best_ok_after[OF I(6) sd'(2) this] candidate_parts[OF Some] sim show ?thesis by simp
    qed
    moreover have "flight_ok (drop_nth i (ss_pend s)) sd'"
      using flight_ok_return[OF I(5) i sd'(2,5)] .
    moreover have "sort_step est mx e s = Inr (s\<lparr>ss_sd := sd', ss_pend := drop_nth i (ss_pend s)\<rparr>)"
      using sd'(1) SimReturns by (simp add: sd_def sim_def)
    ultimately show ?thesis
      using I sd' same_core_parts[OF sd'(2)] by (simp add: sort_inv_def)
  next
    case (StaleSimReturns sim took)
    with legal handle_sim_stale[of sim sd took] obtain te where
      te: "handle_sim took sim sd = Inr (sd\<lparr>sd_telemetry := te\<rparr>)" by (auto simp: sd_def)
    with I StaleSimReturns same_core_parts[OF same_core_telemetry[of sd te]] show ?thesis
      by (simp add: sort_inv_def sd_def[symmetric] flight_ok_same best_ok_same)
  next
    case (SimBatch now took)
    obtain sd' sent where sd': "maybe_sim_next_batch est mx now took sd = Inr (sd', sent)" "chain_ok sd'"
      "accounts a g (ss_applied s @ applies now sd) sd'" "ao_wf (sd_active_orders sd')"
      "sorting_nonces_wf (sd_nonces sd')" "best_ok sd'" "flight_ok (ss_pend s @ sent) sd'"
      using maybe_sim_next_batch_ok[OF I(3,4,1,2,6,5), of est mx now took] by blast
    with SimBatch show ?thesis by (simp add: sort_inv_def sd_def[symmetric])
  next
    case SealRequested
    have "same_core sd (set_should_seal sd)" by (simp add: same_core_def set_should_seal_def)
    from same_core_parts[OF this] this I SealRequested show ?thesis
      by (simp add: sort_inv_def sd_def[symmetric] set_should_seal_def flight_ok_def best_ok_def)
  qed
qed

interpretation sorting: safe_system "sort_step est mx" sort_legal "sort_inv a g"
  for est mx a g
  by unfold_locales (rule sort_step_safe)

definition sort_sys_new :: "sort_data \<Rightarrow> sort_sys" where
  "sort_sys_new sd = \<lparr>ss_sd = sd, ss_pend = [], ss_applied = []\<rparr>"

lemma sort_inv_new:
  "ao_wf ao \<Longrightarrow> sort_inv a g (sort_sys_new (sort_data_new now bi a ao g bt mbs mo ms))"
  by (auto simp: sort_inv_def sort_sys_new_def sort_data_new_def chain_ok_def sender_nonces_def
      simulated_nonce_def accounts_def flight_ok_def best_ok_def)

lemma sort_run_inv:
  assumes "ao_wf ao"
    and "legal_run (sort_step est mx) sort_legal es (sort_sys_new (sort_data_new now bi a ao g bt mbs mo ms))"
    and "run_events (sort_step est mx) es (sort_sys_new (sort_data_new now bi a ao g bt mbs mo ms)) = Inr s"
  shows "sort_inv a g s"
  using sorting.run_inv[OF sort_inv_new[OF assms(1)] assms(2,3)] .

end
