(* ===== verification/Sort_Round.thy ===== *)
theory Sort_Round
  imports Sort_Loop
begin

text \<open>
  One round of the sorting loop: the results of the simulations that were sent together, in the
  order in which they come back.  \<open>round_ok\<close> says that the best candidate so far is in
  \<open>next_best\<close> and every other candidate that fits is back in the snapshot.  The second part is
  about the two conditions under which the loop stands still: nothing is ready
  (\<open>waiting_for_new_txs\<close>), and the block is to be sealed.
\<close>

subsection \<open>One round of simulations\<close>

definition ao_holds :: "active_orders \<Rightarrow> order \<Rightarrow> bool" where
  "ao_holds ao o1 \<longleftrightarrow> (\<exists>l \<in> set (ao_tx_lists ao).
     tl_sender l = ord_sender o1 \<and> bt_get (tl_txs l) (order_nonce o1) = Some o1)"

lemma put_in_lists_holds:
  "put_in_lists o1 ls = Inr ls' \<Longrightarrow> \<forall>l \<in> set ls. tl_wf l \<Longrightarrow>
     \<exists>l \<in> set ls'. tl_sender l = ord_sender o1 \<and> bt_get (tl_txs l) (order_nonce o1) = Some o1"
  by (induction o1 ls arbitrary: ls' rule: put_in_lists.induct)
     (auto simp: bindR_eq_Inr tl_put_Inr tl_wf_def bt.get_insert tl_new_def bt_get_def
       map_of_bt_insert split: if_splits)

lemma put_in_lists_other:
  "put_in_lists o1 ls = Inr ls' \<Longrightarrow> l \<in> set ls \<Longrightarrow> tl_sender l \<noteq> ord_sender o1 \<Longrightarrow> l \<in> set ls'"
  by (induction o1 ls arbitrary: ls' rule: put_in_lists.induct)
     (auto simp: bindR_eq_Inr split: if_splits)

lemma ao_put_holds:
  assumes "ao_wf ao" "ao_put o1 ao = Inr ao'"
  shows "ao_holds ao' o1" and "ao_holds ao o2 \<Longrightarrow> ord_sender o2 \<noteq> ord_sender o1 \<Longrightarrow> ao_holds ao' o2"
proof -
  from assms(2) obtain ls where ls: "put_in_lists o1 (ao_tx_lists ao) = Inr ls"
    "ao' = ao\<lparr>ao_tx_lists := ls\<rparr>" by (auto simp: ao_put_def bindR_eq_Inr)
  show "ao_holds ao' o1"
    using put_in_lists_holds[OF ls(1)] assms(1) by (auto simp: ao_holds_def ls(2) ao_wf_def)
  assume "ao_holds ao o2" "ord_sender o2 \<noteq> ord_sender o1"
  with put_in_lists_other[OF ls(1)] show "ao_holds ao' o2"
    by (auto simp: ao_holds_def ls(2))
qed

lemma remove_first_sender_other:
  "l \<in> set ls \<Longrightarrow> tl_sender l \<noteq> s \<Longrightarrow> l \<in> set (remove_first_sender s ls)"
  by (induction s ls rule: remove_first_sender.induct) auto

lemma ao_remove_sender_holds:
  "ao_holds ao o2 \<Longrightarrow> ord_sender o2 \<noteq> s \<Longrightarrow> ao_holds (ao_remove_sender s ao) o2"
  by (auto simp: ao_holds_def ao_remove_sender_def intro!: bexI[OF _ remove_first_sender_other])

text \<open>The results that fit into the gas that is left.\<close>

definition fitting :: "u128 \<Rightarrow> simulated_order list \<Rightarrow> valid_order set" where
  "fitting gas sims = {v. \<exists>sim \<in> set sims. candidate sim = Some v \<and> vo_gas_used v \<le> gas}"

definition round_ok :: "simulated_order list \<Rightarrow> sort_data \<Rightarrow> bool" where
  "round_ok sims sd \<longleftrightarrow>
     (case sd_next_best sd of
        None \<Rightarrow> fitting (sd_gas_remaining sd) sims = {}
      | Some b \<Rightarrow> b \<in> fitting (sd_gas_remaining sd) sims \<and>
          (\<forall>v \<in> fitting (sd_gas_remaining sd) sims. vo_builder_payment v \<le> vo_builder_payment b)) \<and>
     (\<forall>v \<in> fitting (sd_gas_remaining sd) sims.
        sd_next_best sd = Some v \<or> ao_holds (sd_active_orders sd) (vo_order v))"

fun handle_all :: "(simulated_order \<times> duration) list \<Rightarrow> sort_data \<Rightarrow> sort_data run" where
  "handle_all [] sd = Inr sd"
| "handle_all ((sim, took) # sims) sd = bindR (handle_sim took sim sd) (handle_all sims)"

lemma fitting_snoc:
  "fitting gas (sims @ [sim]) =
     (case candidate sim of
        Some v \<Rightarrow> if vo_gas_used v \<le> gas then insert v (fitting gas sims) else fitting gas sims
      | None \<Rightarrow> fitting gas sims)"
  by (auto simp: fitting_def split: option.splits simp del: candidate.simps)

lemma fitting_sender:
  "v \<in> fitting gas sims \<Longrightarrow> ord_sender (vo_order v) \<in> (\<lambda>sim. ord_sender (so_order sim)) ` set sims"
  by (auto simp: fitting_def simp del: candidate.simps dest!: candidate_parts)

lemma round_ok_cong:
  assumes "sd_next_best sd' = sd_next_best sd" "sd_gas_remaining sd' = sd_gas_remaining sd"
    "sd_active_orders sd' = sd_active_orders sd"
  shows "round_ok sims sd' \<longleftrightarrow> round_ok sims sd"
  using assms by (simp add: round_ok_def split: option.splits)

lemma fitting_inj:
  assumes "distinct (map (\<lambda>sim. ord_sender (so_order sim)) sims)"
    and "v \<in> fitting gas sims" "w \<in> fitting gas sims" "v \<noteq> w"
  shows "ord_sender (vo_order v) \<noteq> ord_sender (vo_order w)"
proof
  assume same: "ord_sender (vo_order v) = ord_sender (vo_order w)"
  from assms(2,3) obtain a b where
    "a \<in> set sims" "candidate a = Some v" "b \<in> set sims" "candidate b = Some w"
    by (auto simp: fitting_def simp del: candidate.simps)
  moreover from this same have "a = b"
    using assms(1) candidate_parts by (metis distinct_map inj_onD)
  ultimately show False using assms(4) by simp
qed

lemma round_ok_put:
  assumes wf: "ao_wf (sd_active_orders sd)" and put: "ao_put (vo_order x) (sd_active_orders sd) = Inr ao"
    and dist: "distinct (map (\<lambda>sim. ord_sender (so_order sim)) sims)"
    and fit: "b \<in> fitting (sd_gas_remaining sd) sims" "x \<in> fitting (sd_gas_remaining sd) sims"
    and best: "\<And>v. v \<in> fitting (sd_gas_remaining sd) sims \<Longrightarrow> vo_builder_payment v \<le> vo_builder_payment b"
    and held: "\<And>v. v \<in> fitting (sd_gas_remaining sd) sims \<Longrightarrow>
      v = b \<or> v = x \<or> ao_holds (sd_active_orders sd) (vo_order v)"
  shows "round_ok sims (sd\<lparr>sd_next_best := Some b, sd_active_orders := ao\<rparr>)"
proof -
  have "ao_holds ao (vo_order v)" if v: "v \<in> fitting (sd_gas_remaining sd) sims" "v \<noteq> b" for v
  proof (cases "v = x")
    case True
    then show ?thesis using ao_put_holds(1)[OF wf put] by simp
  next
    case False
    with held[OF v(1)] v(2) have "ao_holds (sd_active_orders sd) (vo_order v)" by blast
    then show ?thesis using ao_put_holds(2)[OF wf put] fitting_inj[OF dist v(1) fit(2) False] by blast
  qed
  with fit(1) best show ?thesis by (auto simp: round_ok_def)
qed

lemma handle_valid_round:
  assumes ok: "round_ok sims sd" and wf: "ao_wf (sd_active_orders sd)"
    and cand: "candidate sim = Some \<lparr>vo_origin_state_id = so_origin_state_id sim,
      vo_new_state_id = st, vo_gas_used = gas, vo_builder_payment = pay, vo_order = so_order sim\<rparr>"
    and dist: "distinct (map (\<lambda>sim. ord_sender (so_order sim)) (sims @ [sim]))"
    and run: "handle_valid st gas pay sim sd = Inr sd'"
  shows "round_ok (sims @ [sim]) sd'"
proof -
  define v where "v = \<lparr>vo_origin_state_id = so_origin_state_id sim,
      vo_new_state_id = st, vo_gas_used = gas, vo_builder_payment = pay, vo_order = so_order sim\<rparr>"
  note snoc = fitting_snoc[of _ sims sim, unfolded cand, folded v_def, simplified]
  consider (gas) "sd_gas_remaining sd < gas" | (first) "\<not> sd_gas_remaining sd < gas" "sd_next_best sd = None"
    | (better) t where "\<not> sd_gas_remaining sd < gas" "sd_next_best sd = Some t" "vo_builder_payment t < pay"
    | (worse) t where "\<not> sd_gas_remaining sd < gas" "sd_next_best sd = Some t" "\<not> vo_builder_payment t < pay"
    by (cases "sd_next_best sd") auto
  then show ?thesis
  proof cases
    case gas
    with run ok show ?thesis by (auto simp: handle_valid_def round_ok_def snoc v_def split: option.splits)
  next
    case first
    with run ok show ?thesis
      by (auto simp: handle_valid_def round_ok_def snoc v_def[symmetric] Let_def) (auto simp: v_def)
  next
    case better
    from run better obtain ao where ao: "ao_put (vo_order t) (sd_active_orders sd) = Inr ao"
      "sd' = sd\<lparr>sd_next_best := Some v, sd_active_orders := ao\<rparr>"
      by (auto simp: handle_valid_def Let_def v_def bindR_eq_Inr)
    have gas: "vo_gas_used v \<le> sd_gas_remaining sd" "vo_builder_payment v = pay"
      using better(1) by (auto simp: v_def)
    show ?thesis unfolding ao(2)
      by (rule round_ok_put[OF wf ao(1) dist])
        (use ok better gas in \<open>auto simp: round_ok_def snoc\<close>)
  next
    case worse
    from run worse obtain ao where ao: "ao_put (vo_order v) (sd_active_orders sd) = Inr ao"
      "sd' = sd\<lparr>sd_next_best := Some t, sd_active_orders := ao\<rparr>"
      by (auto simp: handle_valid_def Let_def v_def bindR_eq_Inr)
    have gas: "vo_gas_used v \<le> sd_gas_remaining sd" "vo_builder_payment v = pay"
      using worse(1) by (auto simp: v_def)
    show ?thesis unfolding ao(2)
      by (rule round_ok_put[OF wf ao(1) dist])
        (use ok worse gas in \<open>auto simp: round_ok_def snoc\<close>)
  qed
qed

lemma handle_invalid_round:
  assumes ok: "round_ok sims sd" and none: "candidate sim = None"
    and dist: "distinct (map (\<lambda>sim. ord_sender (so_order sim)) (sims @ [sim]))"
  shows "round_ok (sims @ [sim]) (handle_invalid r (so_order sim) sd)"
proof -
  have snoc: "fitting gas (sims @ [sim]) = fitting gas sims" for gas
    using none by (simp add: fitting_snoc del: candidate.simps)
  have frame: "sd_gas_remaining (handle_invalid r (so_order sim) sd) = sd_gas_remaining sd"
    "sd_next_best (handle_invalid r (so_order sim) sd) = sd_next_best sd"
    by (cases r; simp)+
  have held: "ao_holds (sd_active_orders (handle_invalid r (so_order sim) sd)) (vo_order v)"
    if "v \<in> fitting (sd_gas_remaining sd) sims" "ao_holds (sd_active_orders sd) (vo_order v)" for v
  proof -
    have "ord_sender (vo_order v) \<noteq> ord_sender (so_order sim)"
      using fitting_sender[OF that(1)] dist by auto
    with that(2) ao_remove_sender_holds show ?thesis by (cases r) auto
  qed
  show ?thesis
    using ok held by (auto simp: round_ok_def snoc frame split: option.splits)
qed

lemma handle_sim_round:
  assumes ok: "round_ok sims sd" and wf: "ao_wf (sd_active_orders sd)"
    and origin: "so_origin_state_id sim = sd_state_id sd"
    and dist: "distinct (map (\<lambda>sim. ord_sender (so_order sim)) (sims @ [sim]))"
    and run: "handle_sim took sim sd = Inr sd'"
  shows "round_ok (sims @ [sim]) sd'"
proof -
  define sd1 where "sd1 = sd\<lparr>sd_in_flight_sims := sd_in_flight_sims sd - 1,
    sd_telemetry := record_execution_result (so_execution_result sim) ((sd_telemetry sd)
      \<lparr>te_tot_sim_time := te_tot_sim_time (sd_telemetry sd) + so_sim_time sim\<rparr>)\<rparr>"
  have eq: "handle_sim_core sim sd =
      (case so_execution_result sim of
         Success st gas pay \<Rightarrow> handle_valid st gas pay sim sd1
       | Revert st gas pay \<Rightarrow> handle_valid st gas pay sim sd1
       | Invalid reason \<Rightarrow> Inr (handle_invalid reason (so_order sim) sd1))"
    by (simp only: handle_sim_core_def sd_is_valid_def sd1_def Let_def origin simp_thms if_False)
  have ok1: "round_ok sims sd1" and wf1: "ao_wf (sd_active_orders sd1)"
    using ok wf round_ok_cong[of sd1 sd] by (simp_all add: sd1_def)
  from run obtain sd2 where sd2: "handle_sim_core sim sd = Inr sd2"
    "sd_next_best sd' = sd_next_best sd2" "sd_gas_remaining sd' = sd_gas_remaining sd2"
    "sd_active_orders sd' = sd_active_orders sd2"
    by (auto simp: handle_sim_def bindR_eq_Inr)
  have "round_ok (sims @ [sim]) sd2"
  proof (cases "so_execution_result sim")
    case (Success st gas pay)
    then show ?thesis using handle_valid_round[OF ok1 wf1 _ dist, of st gas pay sd2] sd2(1) eq by simp
  next
    case (Revert st gas pay)
    then show ?thesis using handle_valid_round[OF ok1 wf1 _ dist, of st gas pay sd2] sd2(1) eq by simp
  next
    case (Invalid reason)
    then show ?thesis using handle_invalid_round[OF ok1 _ dist, of reason] sd2(1) eq by simp
  qed
  then show ?thesis using round_ok_cong[OF sd2(2-4)] by simp
qed

lemma handle_all_round:
  assumes "round_ok done sd" "ao_wf (sd_active_orders sd)" "sorting_nonces_wf (sd_nonces sd)"
    and "\<forall>(sim, t) \<in> set sims. so_origin_state_id sim = sd_state_id sd"
    and "distinct (map (\<lambda>sim. ord_sender (so_order sim)) (done @ map fst sims))"
  shows "\<exists>sd'. handle_all sims sd = Inr sd' \<and> same_core sd sd' \<and> round_ok (done @ map fst sims) sd' \<and>
    sd_in_flight_sims sd' = sd_in_flight_sims sd - len64 sims"
  using assms
proof (induction sims arbitrary: "done" sd)
  case (Cons e sims)
  obtain sim took where e: "e = (sim, took)" by (cases e)
  have origin: "so_origin_state_id sim = sd_state_id sd" using Cons.prems(4) e by auto
  from handle_sim_ok[OF Cons.prems(2,3) origin, of took] obtain sd1 where
    sd1: "handle_sim took sim sd = Inr sd1" "same_core sd sd1" "ao_wf (sd_active_orders sd1)"
      "sorting_nonces_wf (sd_nonces sd1)" "sd_in_flight_sims sd1 = sd_in_flight_sims sd - 1"
    by blast
  have "distinct (map (\<lambda>sim. ord_sender (so_order sim)) (done @ [sim]))"
    using Cons.prems(5) e by auto
  from handle_sim_round[OF Cons.prems(1,2) origin this sd1(1)]
  have ok: "round_ok (done @ [sim]) sd1" .
  have "\<forall>(sim, t) \<in> set sims. so_origin_state_id sim = sd_state_id sd1"
    using Cons.prems(4) sd1(2) by (auto simp: same_core_def)
  from Cons.IH[OF ok sd1(3,4) this] Cons.prems(5) e obtain sd' where
    "handle_all sims sd1 = Inr sd'" "same_core sd1 sd'" "round_ok (done @ map fst (e # sims)) sd'"
    "sd_in_flight_sims sd' = sd_in_flight_sims sd1 - len64 sims"
    by auto
  with sd1(1,2,5) e show ?case
    by (auto simp: same_core_def len64_def algebra_simps)
qed (simp add: len64_def)

text \<open>The orders of one round have different senders.\<close>

lemma take_ready_distinct:
  assumes "\<forall>l \<in> set ls. tl_wf l"
  shows "ord_sender ` set (fst (take_ready n sn f ls)) \<subseteq> tl_sender ` set ls"
    and "distinct (map tl_sender ls) \<Longrightarrow> distinct (map ord_sender (fst (take_ready n sn f ls)))"
  using assms
proof (induction n sn f ls rule: take_ready.induct)
  case (3 n sn f l ls)
  {
    case 1
    with "3.IH" show ?case
      by (auto split: prod.splits option.splits dest: first_ready_Some(1); blast dest: first_ready_Some(1))
  next
    case 2
    with "3.IH" show ?case
      by (auto split: prod.splits option.splits) (metis (no_types) first_ready_Some(1) in_mono imageI)
  }
qed simp_all


lemma maybe_apply_next_frame:
  assumes "maybe_apply_next est now sd = Inr sd'"
  shows "sd_active_orders sd' = sd_active_orders sd" "sd_block_info sd' = sd_block_info sd"
    "sd_waiting_for_new_txs sd' = sd_waiting_for_new_txs sd"
    "sd_in_flight_sims sd' = sd_in_flight_sims sd" "sd_next_best sd' = None"
    "sd_next_best sd = None \<Longrightarrow> sd_nonces sd' = sd_nonces sd"
  using assms
  by (auto simp: maybe_apply_next_def apply_best_def Let_def bindR_eq_Inr split: option.splits if_splits)

lemma sent_distinct:
  assumes "ao_wf (sd_active_orders sd)" "maybe_sim_next_batch est mx now took sd = Inr (sd', sent)"
  shows "distinct (map (ord_sender \<circ> fst) sent)"
proof -
  have "distinct (map ord_sender (fst (take_ready n sn f (ao_tx_lists (sd_active_orders sd)))))" for n sn f
    using take_ready_distinct(2) assms(1) by (simp add: ao_wf_def)
  with assms(2) maybe_apply_next_frame(1) show ?thesis
    by (auto simp: maybe_sim_next_batch_def maybe_sim_next_batch_core_def get_next_best_def
        bindR_eq_Inr Let_def comp_def split: if_splits prod.splits) (metis fst_conv)+
qed

subsection \<open>Standing still\<close>

lemma take_ready_none: "fst (take_ready n sn f ls) = [] \<Longrightarrow> snd (take_ready n sn f ls) = ls"
proof (induction n sn f ls rule: take_ready.induct)
  case (3 n sn f l ls)
  obtain r l' where r: "first_ready (get_nonce sn (tl_sender l)) f l = (r, l')"
    by (cases "first_ready (get_nonce sn (tl_sender l)) f l")
  with 3 have "r = None" by (auto split: prod.splits option.splits)
  moreover from this r have "l' = l"
    by (auto simp: first_ready_def has_tx_by_fee_def bt_pop_first_def split: option.splits if_splits)
  ultimately show ?case using 3 r by (auto split: prod.splits)
qed simp_all

definition nothing_ready :: "usize \<Rightarrow> sort_data \<Rightarrow> bool" where
  "nothing_ready mx sd \<longleftrightarrow> sd_in_flight_sims sd = 0 \<and> sd_next_best sd = None \<and>
     fst (get_next_best mx (sd_nonces sd) (bi_base_fee (sd_block_info sd)) (sd_active_orders sd)) = []"

definition idle_ok :: "usize \<Rightarrow> sort_sys \<Rightarrow> bool" where
  "idle_ok mx s \<longleftrightarrow> sd_waiting_for_new_txs (ss_sd s) \<longrightarrow> nothing_ready mx (ss_sd s)"

lemma handle_new_tx_idle:
  assumes "handle_new_tx took o1 sd = Inr sd'" "sd_waiting_for_new_txs sd \<longrightarrow> nothing_ready mx sd"
  shows "sd_waiting_for_new_txs sd' \<longrightarrow> nothing_ready mx sd'"
  using assms
  by (auto simp: handle_new_tx_def handle_new_tx_core_def bindR_eq_Inr nothing_ready_def split: if_splits)

lemma handle_sim_waiting:
  "handle_sim took sim sd = Inr sd' \<Longrightarrow> sd_waiting_for_new_txs sd' = sd_waiting_for_new_txs sd"
proof -
  have "sd_waiting_for_new_txs (handle_invalid r o1 sd) = sd_waiting_for_new_txs sd" for r o1 sd
    by (cases r) auto
  then show "handle_sim took sim sd = Inr sd' \<Longrightarrow> sd_waiting_for_new_txs sd' = sd_waiting_for_new_txs sd"
    by (auto simp: handle_sim_def handle_sim_core_def handle_valid_def Let_def bindR_eq_Inr
        split: if_splits execution_result.splits option.splits)
qed

lemma maybe_sim_next_batch_idle:
  assumes run: "maybe_sim_next_batch est mx now took sd = Inr (sd', sent)"
    and idle: "sd_waiting_for_new_txs sd \<longrightarrow> nothing_ready mx sd"
  shows "sd_waiting_for_new_txs sd' \<longrightarrow> nothing_ready mx sd'"
proof -
  from run obtain sd0 where core: "maybe_sim_next_batch_core est mx now sd = Inr (sd0, sent)"
    and sd': "sd_waiting_for_new_txs sd' = sd_waiting_for_new_txs sd0"
      "nothing_ready mx sd' = nothing_ready mx sd0"
    by (auto simp: maybe_sim_next_batch_def bindR_eq_Inr nothing_ready_def)
  have "sd_waiting_for_new_txs sd0 \<longrightarrow> nothing_ready mx sd0"
  proof (cases "0 < sd_in_flight_sims sd \<or> should_seal now sd")
    case True
    with core idle show ?thesis by (auto simp: maybe_sim_next_batch_core_def)
  next
    case False
    with core obtain sd1 where sd1: "maybe_apply_next est now sd = Inr sd1"
      by (auto simp: maybe_sim_next_batch_core_def bindR_eq_Inr)
    note frame = maybe_apply_next_frame[OF sd1]
    have zero: "sd_in_flight_sims sd = 0" using False by (simp add: word_gt_0)
    show ?thesis
    proof (cases "sd_waiting_for_new_txs sd1")
      case True
      with core False sd1 have "sd0 = sd1" by (auto simp: maybe_sim_next_batch_core_def)
      with True frame idle show ?thesis by (auto simp: nothing_ready_def)
    next
      case waiting: False
      obtain txs ls where ready: "take_ready (unat mx) (sd_nonces sd1) (bi_base_fee (sd_block_info sd1))
          (ao_tx_lists (sd_active_orders sd1)) = (txs, ls)"
        by fastforce
      have txs: "len64 txs = 0 \<longleftrightarrow> txs = []"
        using take_ready_length[of "unat mx" "sd_nonces sd1" "bi_base_fee (sd_block_info sd1)"
            "ao_tx_lists (sd_active_orders sd1)"] ready unat_u64_less[of mx]
        by (auto intro!: len64_eq_0)
      have "txs = [] \<Longrightarrow> ls = ao_tx_lists (sd_active_orders sd1)"
        using take_ready_none[of "unat mx" "sd_nonces sd1" "bi_base_fee (sd_block_info sd1)"
            "ao_tx_lists (sd_active_orders sd1)"] ready by simp
      with core False waiting sd1 ready txs frame zero show ?thesis
        by (auto simp: maybe_sim_next_batch_core_def get_next_best_def nothing_ready_def Let_def
            split: if_splits)
    qed
  qed
  with sd' show ?thesis by simp
qed

lemma idle_step:
  assumes inv: "sort_inv a g s" and legal: "sort_legal e s" and idle: "idle_ok mx s"
    and step: "sort_step est mx e s = Inr s'"
  shows "idle_ok mx s'"
proof (cases e)
  case (NewTxArrives o1 took)
  with step idle handle_new_tx_idle show ?thesis by (auto simp: idle_ok_def bindR_eq_Inr)
next
  case (SimReturns i res t took)
  with inv legal have "sd_in_flight_sims (ss_sd s) \<noteq> 0"
    by (auto simp: sort_inv_def flight_ok_def)
  with SimReturns step idle handle_sim_waiting show ?thesis
    by (auto simp: idle_ok_def bindR_eq_Inr nothing_ready_def)
next
  case (StaleSimReturns sim took)
  with legal handle_sim_stale[of sim "ss_sd s" took] step idle show ?thesis
    by (auto simp: idle_ok_def nothing_ready_def)
next
  case (SimBatch now took)
  with step idle maybe_sim_next_batch_idle show ?thesis by (auto simp: idle_ok_def bindR_eq_Inr)
next
  case SealRequested
  with step idle show ?thesis by (auto simp: idle_ok_def nothing_ready_def set_should_seal_def)
qed

lemma idle_step_safe:
  assumes "sort_inv a g s \<and> idle_ok mx s" "sort_legal e s"
  shows "\<exists>s'. sort_step est mx e s = Inr s' \<and> (sort_inv a g s' \<and> idle_ok mx s')"
  using sort_step_safe[of a g s e est mx] idle_step[of a g s e mx est] assms by blast

interpretation idle: safe_system "sort_step est mx" sort_legal "\<lambda>s. sort_inv a g s \<and> idle_ok mx s"
  for est mx a g
  by unfold_locales (rule idle_step_safe)

text \<open>Once the seal flag is set, the block does not change any more.\<close>

definition frozen :: "sort_sys \<Rightarrow> sort_sys \<Rightarrow> bool" where
  "frozen s s' \<longleftrightarrow> sd_should_seal (ss_sd s) \<longrightarrow>
     sd_should_seal (ss_sd s') \<and> same_core (ss_sd s) (ss_sd s') \<and> ss_applied s' = ss_applied s"

lemma handle_sim_seal_flag:
  "handle_sim took sim sd = Inr sd' \<Longrightarrow> sd_should_seal sd \<Longrightarrow> sd_should_seal sd'"
proof -
  have "sd_should_seal sd \<Longrightarrow> sd_should_seal (handle_invalid r o1 sd)" for r o1 sd
    by (cases r) auto
  then show "handle_sim took sim sd = Inr sd' \<Longrightarrow> sd_should_seal sd \<Longrightarrow> sd_should_seal sd'"
    by (auto simp: handle_sim_def handle_sim_core_def handle_valid_def Let_def bindR_eq_Inr
        split: if_splits execution_result.splits option.splits)
qed

lemma handle_new_tx_seal_flag:
  "handle_new_tx took o1 sd = Inr sd' \<Longrightarrow> sd_should_seal sd' = sd_should_seal sd"
  by (auto simp: handle_new_tx_def handle_new_tx_core_def bindR_eq_Inr split: if_splits)

lemma frozen_step:
  assumes inv: "sort_inv a g s" and legal: "sort_legal e s" and step: "sort_step est mx e s = Inr s'"
  shows "frozen s s'"
proof (cases e)
  case (NewTxArrives o1 took)
  with step inv handle_new_tx_ok[of "ss_sd s" took o1] handle_new_tx_seal_flag[of took o1 "ss_sd s"]
  show ?thesis by (auto simp: frozen_def sort_inv_def)
next
  case (SimReturns i res t took)
  then have "ss_pend s ! i \<in> set (ss_pend s)" using legal by simp
  with inv have "so_origin_state_id (returned_sim (ss_pend s) i res t) = sd_state_id (ss_sd s)"
    by (auto simp: sort_inv_def flight_ok_def returned_sim_def)
  with SimReturns step inv handle_sim_ok[of "ss_sd s" "returned_sim (ss_pend s) i res t" took]
    handle_sim_seal_flag[of took "returned_sim (ss_pend s) i res t" "ss_sd s"]
  show ?thesis by (auto simp: frozen_def sort_inv_def)
next
  case (StaleSimReturns sim took)
  with legal handle_sim_stale[of sim "ss_sd s" took] step show ?thesis by (auto simp: frozen_def)
next
  case (SimBatch now took)
  with step show ?thesis
    by (auto simp: frozen_def maybe_sim_next_batch_def maybe_sim_next_batch_core_def should_seal_def
        applies_def bindR_eq_Inr same_core_def split: if_splits)
next
  case SealRequested
  with step show ?thesis by (auto simp: frozen_def set_should_seal_def same_core_def)
qed

interpretation frozen: tracked_system "sort_step est mx" sort_legal "sort_inv a g" frozen
  for est mx a g
proof (unfold_locales, goal_cases)
  case (2 s t u)
  then show ?case by (auto simp: frozen_def same_core_def)
next
  case (3 s e s')
  then show ?case by (rule frozen_step)
qed (simp add: frozen_def)

end
