(* ===== verification/Sort_Props.thy ===== *)
theory Sort_Props
  imports Sort_Round
begin

text \<open>
  What the sorting loop guarantees of the block it builds, for every order in which new
  transactions, simulation results and loop iterations can arrive.  The theorems read the
  invariants of \<open>Sort_Loop\<close> and \<open>Sort_Round\<close> off at the end of a run; the fixtures at the start
  are the concrete run that their witnesses use.
\<close>

subsection \<open>A concrete run\<close>

definition ex_order :: "address \<Rightarrow> u64 \<Rightarrow> order" where
  "ex_order s n = \<lparr>ord_sender = s,
     ord_tx = \<lparr>tx_nonce = n, tx_max_fee_per_gas = 100, tx_priority_fee_or_price = 5,
               tx_hash = 0, tx_input = []\<rparr>,
     ord_raw = [1, 2, 3]\<rparr>"

definition ex_active :: active_orders where
  "ex_active =
     \<lparr>ao_tx_lists =
        [\<lparr>tl_sender = 7, tl_txs = [(4, ex_order 7 4), (5, ex_order 7 5)]\<rparr>,
         \<lparr>tl_sender = 8, tl_txs = [(0, ex_order 8 0)]\<rparr>],
      ao_num_txs = 3\<rparr>"

definition ex_info :: block_info where
  "ex_info = \<lparr>bi_anchor_params = \<lparr>ap_block_id = 1, ap_state_root = 0, ap_created_at = 0\<rparr>,
     bi_block_number = 9, bi_base_fee = 10, bi_parent_hash = 0\<rparr>"

definition ex_data :: sort_data where
  "ex_data = sort_data_new 0 ex_info (StateId 100) ex_active 1000000 1000 10000 3 2"

definition ex_start :: sort_sys where
  "ex_start = sort_sys_new ex_data"

definition ex_events :: "sort_event list" where
  "ex_events =
     [SimBatch 1 0,
      SimReturns 0 (Success (StateId 101) 21000 50) 0 0,
      SimReturns 0 (Revert (StateId 102) 30000 60) 0 0,
      SimBatch 2 0,
      SimReturns 0 (Success (StateId 103) 21000 50) 0 0,
      SimBatch 3 0,
      SimReturns 0 (Success (StateId 104) 21000 50) 0 0,
      SimBatch 4 0]"

abbreviation ex_step :: "sort_event \<Rightarrow> sort_sys \<Rightarrow> sort_sys run" where
  "ex_step \<equiv> sort_step (\<lambda>n. n) 5"

lemma ex_active_wf: "ao_wf ex_active"
  by (simp add: ao_wf_def ex_active_def tl_wf_def bt_wf_def ex_order_def)


lemmas sort_eval =
  handle_sim_def handle_sim_core_def sd_is_valid_def handle_valid_def returned_sim_def
  maybe_sim_next_batch_def maybe_sim_next_batch_core_def maybe_apply_next_def apply_best_def
  should_seal_def is_enough_orders_def is_past_target_seal_def is_past_max_skip_def
  get_next_best_def first_ready_def has_tx_by_fee_def bt_first_def bt_pop_first_def bt_get_def
  bt_remove_def bt_retain_def valid_for_base_fee_def ao_put_def tl_put_def
  get_nonce_def sn_get_def insert_sorting_def insert_state_def sn_insert_def hm_insert_def
  hm_get_def sorting_nonces_new_def state_nonces_new_def sort_data_new_def sort_sys_new_def
  telemetry_default_def drop_nth_def applies_def from_millis_def elapsed_def Let_def len64_def
  handle_new_tx_def handle_new_tx_core_def set_should_seal_def tl_new_def


lemma take_ready_step:
  "0 < n \<Longrightarrow> take_ready n sn f [] = ([], [])"
  "0 < n \<Longrightarrow> take_ready n sn f (l # ls) =
     (case first_ready (get_nonce sn (tl_sender l)) f l of
        (Some tx, l') \<Rightarrow> (let (txs, ls') = take_ready (n - 1) sn f ls in (tx # txs, l' # ls'))
      | (None, l') \<Rightarrow> (let (txs, ls') = take_ready n sn f ls in (txs, l' # ls')))"
  using gr0_conv_Suc[of n] by (auto simp only: take_ready.simps diff_Suc_1)


lemmas ex_eval = sort_eval ex_events_def ex_start_def ex_data_def ex_active_def ex_order_def ex_info_def
  take_ready_step



lemma ex_legal: "legal_run ex_step sort_legal ex_events ex_start"
  by (simp add: ex_eval del: hm_get_insert)

lemma ex_result:
  "\<exists>s. run_events ex_step ex_events ex_start = Inr s \<and>
     sd_orders (ss_sd s) = [ex_order 8 0, ex_order 7 4, ex_order 7 5]"
  by (simp add: ex_eval del: hm_get_insert)



lemma ex_start_eq:
  "ex_start = sort_sys_new (sort_data_new 0 ex_info (StateId 100) ex_active 1000000 1000 10000 3 2)"
  by (simp add: ex_start_def ex_data_def)

lemmas ex_legal_new = ex_legal[unfolded ex_start_eq]

subsection \<open>Runs\<close>

text \<open>C9: No run of the sorting loop panics, whatever the simulator answers and however the answers,
  the new transactions and the iterations interleave: the assertions of \<open>apply_best\<close> and
  \<open>TxList::put\<close> cannot fail.  The counter of simulations in flight is exact (it never wraps), and
  all of them run on the current state.\<close>

theorem sorting_never_panics:
  assumes "ao_wf ao"
    and "legal_run (sort_step est mx) sort_legal es
           (sort_sys_new (sort_data_new now bi a ao g bt mbs mo ms))"
  shows "\<exists>s. run_events (sort_step est mx) es
      (sort_sys_new (sort_data_new now bi a ao g bt mbs mo ms)) = Inr s \<and>
    unat (sd_in_flight_sims (ss_sd s)) = length (ss_pend s) \<and>
    (\<forall>(o1, i) \<in> set (ss_pend s). i = sd_state_id (ss_sd s))"
proof -
  obtain s where "run_events (sort_step est mx) es
      (sort_sys_new (sort_data_new now bi a ao g bt mbs mo ms)) = Inr s" "sort_inv a g s"
    using sorting.run_safe[OF sort_inv_new[OF assms(1)] assms(2)] by blast
  then show ?thesis by (auto simp: sort_inv_def flight_ok_def)
qed

theorem sorting_never_panics_witness:
  "\<exists>s. run_events ex_step ex_events
      (sort_sys_new (sort_data_new 0 ex_info (StateId 100) ex_active 1000000 1000 10000 3 2)) = Inr s \<and>
    unat (sd_in_flight_sims (ss_sd s)) = length (ss_pend s) \<and>
    (\<forall>(o1, i) \<in> set (ss_pend s). i = sd_state_id (ss_sd s))"
  by (rule sorting_never_panics[OF ex_active_wf ex_legal_new])

text \<open>C10: In every block that sorting builds, the orders of each sender have consecutive nonces, in
  order, and the sorting cache holds exactly the nonce that must come next.\<close>

theorem sorting_nonce_chain:
  assumes "ao_wf ao"
    and "legal_run (sort_step est mx) sort_legal es
           (sort_sys_new (sort_data_new now bi a ao g bt mbs mo ms))"
    and "run_events (sort_step est mx) es
           (sort_sys_new (sort_data_new now bi a ao g bt mbs mo ms)) = Inr s"
  shows "consecutive (sender_nonces sender (sd_orders (ss_sd s))) \<and>
    simulated_nonce (ss_sd s) sender =
      (if sender_nonces sender (sd_orders (ss_sd s)) = [] then None
       else Some (last (sender_nonces sender (sd_orders (ss_sd s))) + 1))"
  using sort_run_inv[OF assms] by (simp add: sort_inv_def chain_ok_def)

theorem sorting_nonce_chain_witness:
  "\<exists>s :: sort_sys. sender_nonces 7 (sd_orders (ss_sd s)) = [4, 5] \<and>
     consecutive (sender_nonces 7 (sd_orders (ss_sd s))) \<and> simulated_nonce (ss_sd s) 7 = Some 6"
proof -
  from ex_result obtain s where s: "run_events ex_step ex_events ex_start = Inr s"
    "sd_orders (ss_sd s) = [ex_order 8 0, ex_order 7 4, ex_order 7 5]" by blast
  then have "sender_nonces 7 (sd_orders (ss_sd s)) = [4, 5]"
    by (simp add: sender_nonces_def ex_order_def)
  with sorting_nonce_chain[OF ex_active_wf ex_legal_new s(1)[unfolded ex_start_eq], of 7]
  show ?thesis by (intro exI[of _ s]) simp
qed

text \<open>C11: The accounts of the block are exact.  The orders are the applied results in order; each
  was simulated on the state that the one before it left, the first on the anchored state; the gas
  used and the gas remaining add up to the gas limit (no wrap-around); payment and size are the
  sums over the orders.\<close>

theorem sorting_accounts:
  assumes "ao_wf ao"
    and "legal_run (sort_step est mx) sort_legal es
           (sort_sys_new (sort_data_new now bi a ao g bt mbs mo ms))"
    and "run_events (sort_step est mx) es
           (sort_sys_new (sort_data_new now bi a ao g bt mbs mo ms)) = Inr s"
  shows "sd_orders (ss_sd s) = map vo_order (ss_applied s) \<and>
    linked a (ss_applied s) (sd_state_id (ss_sd s)) \<and>
    unat (sd_gas_remaining (ss_sd s)) + (\<Sum>v\<leftarrow>ss_applied s. unat (vo_gas_used v)) = unat g \<and>
    sd_builder_payment (ss_sd s) = (\<Sum>v\<leftarrow>ss_applied s. vo_builder_payment v) \<and>
    sd_uncompressed_size (ss_sd s) = (\<Sum>v\<leftarrow>ss_applied s. len64 (ord_raw (vo_order v)))"
  using sort_run_inv[OF assms] unfolding sort_inv_def accounts_def by blast

theorem sorting_accounts_witness:
  "\<exists>s :: sort_sys. length (ss_applied s) = 3 \<and> linked (StateId 100) (ss_applied s) (sd_state_id (ss_sd s)) \<and>
     unat (sd_gas_remaining (ss_sd s)) + (\<Sum>v\<leftarrow>ss_applied s. unat (vo_gas_used v)) = 1000000"
proof -
  from ex_result obtain s where s: "run_events ex_step ex_events ex_start = Inr s"
    "sd_orders (ss_sd s) = [ex_order 8 0, ex_order 7 4, ex_order 7 5]" by blast
  from sorting_accounts[OF ex_active_wf ex_legal_new s(1)[unfolded ex_start_eq]]
  have "sd_orders (ss_sd s) = map vo_order (ss_applied s) \<and>
    linked (StateId 100) (ss_applied s) (sd_state_id (ss_sd s)) \<and>
    unat (sd_gas_remaining (ss_sd s)) + (\<Sum>v\<leftarrow>ss_applied s. unat (vo_gas_used v)) = 1000000"
    by simp
  moreover from this s(2) have "length (ss_applied s) = 3"
    by (metis length_map length_Cons list.size(3) numeral_3_eq_3)
  ultimately show ?thesis by blast
qed

text \<open>A block whose seal flag is set is frozen: new transactions, late results and further
  iterations change neither its orders nor its state, gas, payment, size or nonces.\<close>

theorem sealed_block_frozen:
  assumes "ao_wf ao"
    and "legal_run (sort_step est mx) sort_legal es
           (sort_sys_new (sort_data_new now bi a ao g bt mbs mo ms))"
    and "run_events (sort_step est mx) es
           (sort_sys_new (sort_data_new now bi a ao g bt mbs mo ms)) = Inr s"
    and "sd_should_seal (ss_sd s)"
    and "legal_run (sort_step est mx) sort_legal es' s"
    and "run_events (sort_step est mx) es' s = Inr s'"
  shows "sd_should_seal (ss_sd s') \<and> sd_orders (ss_sd s') = sd_orders (ss_sd s) \<and>
    sd_state_id (ss_sd s') = sd_state_id (ss_sd s) \<and>
    sd_gas_remaining (ss_sd s') = sd_gas_remaining (ss_sd s) \<and>
    sd_builder_payment (ss_sd s') = sd_builder_payment (ss_sd s) \<and>
    sd_uncompressed_size (ss_sd s') = sd_uncompressed_size (ss_sd s) \<and>
    simulated_nonce (ss_sd s') = simulated_nonce (ss_sd s)"
  using frozen.run_rel[OF sort_run_inv[OF assms(1-3)] assms(5,6)] assms(4)
  by (auto simp: frozen_def same_core_def simulated_nonce_def)

theorem sealed_block_frozen_witness:
  "\<exists>s s'. run_events ex_step [SealRequested] ex_start = Inr s \<and>
     run_events ex_step [NewTxArrives (ex_order 7 6) 0, SimBatch 2 0] s = Inr s' \<and>
     sd_orders (ss_sd s') = sd_orders (ss_sd s) \<and> sd_should_seal (ss_sd s')"
proof -
  obtain s where s: "run_events ex_step [SealRequested] ex_start = Inr s" "sd_should_seal (ss_sd s)"
      "s = ex_start\<lparr>ss_sd := set_should_seal ex_data\<rparr>"
    by (simp add: set_should_seal_def ex_start_def sort_sys_new_def)
  have legal: "legal_run ex_step sort_legal [SealRequested] ex_start"
    "legal_run ex_step sort_legal [NewTxArrives (ex_order 7 6) 0, SimBatch 2 0] s"
    by (auto split: sum.splits)
  have "\<exists>s'. run_events ex_step [NewTxArrives (ex_order 7 6) 0, SimBatch 2 0] s = Inr s'"
    unfolding s(3) by (simp add: ex_eval del: hm_get_insert)
  then obtain s' where s': "run_events ex_step [NewTxArrives (ex_order 7 6) 0, SimBatch 2 0] s = Inr s'"
    by blast
  from sealed_block_frozen[OF ex_active_wf legal(1)[unfolded ex_start_eq] s(1)[unfolded ex_start_eq]
      s(2) legal(2) s'] s(1) s' show ?thesis by blast
qed

text \<open>The loop goes idle only when there is nothing to do: while it waits for new transactions no
  simulation is in flight, no result waits to be applied, and no pending order of the snapshot has
  the right nonce and can pay the base fee.\<close>

theorem waits_only_when_idle:
  assumes "ao_wf ao"
    and "legal_run (sort_step est mx) sort_legal es
           (sort_sys_new (sort_data_new now bi a ao g bt mbs mo ms))"
    and "run_events (sort_step est mx) es
           (sort_sys_new (sort_data_new now bi a ao g bt mbs mo ms)) = Inr s"
    and "sd_waiting_for_new_txs (ss_sd s)"
  shows "sd_in_flight_sims (ss_sd s) = 0 \<and> sd_next_best (ss_sd s) = None \<and>
    fst (get_next_best mx (sd_nonces (ss_sd s)) (bi_base_fee (sd_block_info (ss_sd s)))
          (sd_active_orders (ss_sd s))) = []"
proof -
  have "idle_ok mx (sort_sys_new (sort_data_new now bi a ao g bt mbs mo ms))"
    by (simp add: idle_ok_def sort_sys_new_def sort_data_new_def)
  with idle.run_inv[OF _ assms(2,3), of a g] sort_inv_new[OF assms(1)] have "idle_ok mx s" by blast
  with assms(4) show ?thesis by (simp add: idle_ok_def nothing_ready_def)
qed

lemma ex_waiting:
  "\<exists>s. run_events ex_step ex_events ex_start = Inr s \<and> sd_waiting_for_new_txs (ss_sd s)"
  by (simp add: ex_eval del: hm_get_insert)

theorem waits_only_when_idle_witness:
  "\<exists>s. run_events ex_step ex_events ex_start = Inr s \<and> sd_waiting_for_new_txs (ss_sd s) \<and>
     sd_in_flight_sims (ss_sd s) = 0 \<and> sd_next_best (ss_sd s) = None"
proof -
  from ex_waiting obtain s where s: "run_events ex_step ex_events ex_start = Inr s"
    "sd_waiting_for_new_txs (ss_sd s)" by blast
  from waits_only_when_idle[OF ex_active_wf ex_legal_new s(1)[unfolded ex_start_eq] s(2)] s
  show ?thesis by blast
qed

subsection \<open>Rounds\<close>

text \<open>C22: What a round of simulations is: it starts only when all earlier results are back and the
  block is not due; it has at most \<open>max_sims_per_loop\<close> orders of distinct senders, all on the new
  current state, payable at the base fee, each with the nonce that its sender must use next.\<close>

theorem round_of_simulations:
  assumes "ao_wf ao"
    and "legal_run (sort_step est mx) sort_legal es
           (sort_sys_new (sort_data_new now bi a ao g bt mbs mo ms))"
    and "run_events (sort_step est mx) es
           (sort_sys_new (sort_data_new now bi a ao g bt mbs mo ms)) = Inr s"
  shows "\<exists>sd' sent. maybe_sim_next_batch est mx now' took (ss_sd s) = Inr (sd', sent) \<and>
    (sent \<noteq> [] \<longrightarrow> ss_pend s = [] \<and> \<not> should_seal now' (ss_sd s)) \<and>
    length sent \<le> unat mx \<and> distinct (map (ord_sender \<circ> fst) sent) \<and>
    (\<forall>(tx, i) \<in> set sent. i = sd_state_id sd' \<and>
       valid_for_base_fee tx (bi_base_fee (sd_block_info sd')) \<and>
       (\<forall>n. simulated_nonce sd' (ord_sender tx) = Some n \<longrightarrow> order_nonce tx = n))"
proof -
  have I: "ao_wf (sd_active_orders (ss_sd s))" "sorting_nonces_wf (sd_nonces (ss_sd s))"
    "chain_ok (ss_sd s)" "accounts a g (ss_applied s) (ss_sd s)" "flight_ok (ss_pend s) (ss_sd s)"
    "best_ok (ss_sd s)"
    using sort_run_inv[OF assms] by (simp_all add: sort_inv_def)
  from maybe_sim_next_batch_ok[OF I(3,4,1,2,6,5), of est mx now' took] obtain sd' sent where
    run: "maybe_sim_next_batch est mx now' took (ss_sd s) = Inr (sd', sent)"
    and flight: "flight_ok (ss_pend s @ sent) sd'"
    and rest: "length sent \<le> unat mx" "sent \<noteq> [] \<longrightarrow> ss_pend s = [] \<and> \<not> should_seal now' (ss_sd s)"
      "\<forall>(tx, i) \<in> set sent. valid_for_base_fee tx (bi_base_fee (sd_block_info sd'))"
    by blast
  have "distinct (map (ord_sender \<circ> fst) sent)" using sent_distinct[OF I(1) run] .
  moreover have "i = sd_state_id sd' \<and> valid_for_base_fee tx (bi_base_fee (sd_block_info sd')) \<and>
       (\<forall>n. simulated_nonce sd' (ord_sender tx) = Some n \<longrightarrow> order_nonce tx = n)"
    if "(tx, i) \<in> set sent" for tx i
    using flight rest(3) that by (fastforce simp: flight_ok_def fits_nonce_def)
  ultimately show ?thesis
    using run rest(1,2) by (intro exI[of _ sd'] exI[of _ sent]) blast
qed

theorem round_of_simulations_witness:
  "\<exists>s sd' sent. run_events ex_step [] ex_start = Inr s \<and>
     maybe_sim_next_batch (\<lambda>n. n) 5 1 0 (ss_sd s) = Inr (sd', sent) \<and>
     distinct (map (ord_sender \<circ> fst) sent) \<and> (\<forall>(tx, i) \<in> set sent. i = sd_state_id sd')"
proof -
  have "legal_run ex_step sort_legal [] ex_start" "run_events ex_step [] ex_start = Inr ex_start"
    by simp_all
  from round_of_simulations[OF ex_active_wf this[unfolded ex_start_eq], of 1 0] show ?thesis
    unfolding ex_start_eq by fastforce
qed

text \<open>C21: When all results of a round are back -- in whatever order, some of them invalid -- the next
  order is the one that pays the most among those that fit into the remaining gas, every other one
  that fits is back in the snapshot, and nothing was applied in the meantime.  If none fits there
  is no next order.\<close>

theorem best_order_wins:
  assumes "ao_wf (sd_active_orders sd)" "sorting_nonces_wf (sd_nonces sd)" "sd_next_best sd = None"
    and "\<forall>(sim, took) \<in> set sims. so_origin_state_id sim = sd_state_id sd"
    and "distinct (map (\<lambda>(sim, took). ord_sender (so_order sim)) sims)"
  shows "\<exists>sd'. handle_all sims sd = Inr sd' \<and>
    sd_orders sd' = sd_orders sd \<and> sd_state_id sd' = sd_state_id sd \<and>
    sd_in_flight_sims sd' = sd_in_flight_sims sd - len64 sims \<and>
    (case sd_next_best sd' of
       None \<Rightarrow> fitting (sd_gas_remaining sd) (map fst sims) = {}
     | Some b \<Rightarrow> b \<in> fitting (sd_gas_remaining sd) (map fst sims) \<and>
         (\<forall>v \<in> fitting (sd_gas_remaining sd) (map fst sims).
            vo_builder_payment v \<le> vo_builder_payment b \<and>
            (v = b \<or> ao_holds (sd_active_orders sd') (vo_order v))))"
proof -
  have "round_ok [] sd" using assms(3) by (simp add: round_ok_def fitting_def)
  moreover have "distinct (map (\<lambda>sim. ord_sender (so_order sim)) ([] @ map fst sims))"
    using assms(5) by (simp add: case_prod_unfold comp_def)
  ultimately obtain sd' where sd': "handle_all sims sd = Inr sd'" "same_core sd sd'"
    "round_ok (map fst sims) sd'" "sd_in_flight_sims sd' = sd_in_flight_sims sd - len64 sims"
    using handle_all_round[of "[]" sd sims] assms(1,2,4) by auto
  then show ?thesis
    by (intro exI[of _ sd']) (auto simp: same_core_def round_ok_def split: option.splits)
qed

definition ex_sims :: "(simulated_order \<times> duration) list" where
  "ex_sims =
     [(\<lparr>so_origin_state_id = StateId 100, so_execution_result = Success (StateId 101) 21000 50,
        so_sim_time = 0, so_order = ex_order 7 4\<rparr>, 0),
      (\<lparr>so_origin_state_id = StateId 100, so_execution_result = Revert (StateId 102) 30000 60,
        so_sim_time = 0, so_order = ex_order 8 0\<rparr>, 0)]"

theorem best_order_wins_witness:
  "\<exists>sd'. handle_all ex_sims ex_data = Inr sd' \<and>
     map_option vo_builder_payment (sd_next_best sd') = Some 60 \<and>
     (\<forall>v \<in> fitting 1000000 (map fst ex_sims). vo_builder_payment v \<le> 60)"
proof -
  have "\<exists>sd'. handle_all ex_sims ex_data = Inr sd' \<and>
     map_option vo_builder_payment (sd_next_best sd') = Some 60"
    by (simp add: ex_eval ex_sims_def del: hm_get_insert)
  then obtain sd' where sd': "handle_all ex_sims ex_data = Inr sd'"
     "map_option vo_builder_payment (sd_next_best sd') = Some 60" by blast
  have pre: "ao_wf (sd_active_orders ex_data)" "sorting_nonces_wf (sd_nonces ex_data)"
    "sd_next_best ex_data = None" "\<forall>(sim, took) \<in> set ex_sims. so_origin_state_id sim = sd_state_id ex_data"
    "distinct (map (\<lambda>(sim, took). ord_sender (so_order sim)) ex_sims)"
    using ex_active_wf
    by (simp_all add: ex_data_def sort_data_new_def ex_sims_def ex_order_def)
  from best_order_wins[OF pre] sd' show ?thesis
    by (auto simp: ex_data_def sort_data_new_def split: option.splits)
qed

end
