(* ===== verification/Lookahead.thy ===== *)
theory Lookahead
  imports Gw_Prelude Event_Runs
begin

text \<open>
  Whose turn it is: the slot clock \<open>BeaconHandle\<close> of \<open>crates/common/src/beacon.rs\<close> and the view of
  the operator schedule, \<open>LookaheadHandle\<close> and its background loops, of
  \<open>crates/common/src/taiko/lookahead.rs\<close>.

  The unix clock (\<open>utcnow_sec\<close>) and the monotonic clock are arguments.  The whitelist, router and
  wrapper contracts are the answers of their calls.  Rust panics on a division by zero, and so
  does the model.  The logging-only variables of the loops are left out.
\<close>

subsection \<open>The slot clock\<close>

record beacon_handle =
  bh_slots_per_epoch :: u64
  bh_genesis_time_sec :: u64
  bh_seconds_per_slot :: u64

definition beacon_new :: "u64 \<Rightarrow> u64 \<Rightarrow> u64 \<Rightarrow> beacon_handle" where
  "beacon_new slots_per_epoch genesis_time_sec seconds_per_slot =
     \<lparr>bh_slots_per_epoch = slots_per_epoch, bh_genesis_time_sec = genesis_time_sec,
      bh_seconds_per_slot = seconds_per_slot\<rparr>"

definition div_u64 :: "u64 \<Rightarrow> u64 \<Rightarrow> u64 run" where
  "div_u64 a b = (if b = 0 then Inl ''attempt to divide by zero'' else Inr (a div b))"

definition rem_u64 :: "u64 \<Rightarrow> u64 \<Rightarrow> u64 run" where
  "rem_u64 a b =
     (if b = 0 then Inl ''attempt to calculate the remainder with a divisor of zero''
      else Inr (a mod b))"

definition current_slot :: "u64 \<Rightarrow> beacon_handle \<Rightarrow> u64 run" where
  "current_slot utc b = div_u64 (utc - bh_genesis_time_sec b) (bh_seconds_per_slot b)"

definition current_epoch :: "u64 \<Rightarrow> beacon_handle \<Rightarrow> u64 run" where
  "current_epoch utc b = bindR (current_slot utc b) (\<lambda>s. div_u64 s (bh_slots_per_epoch b))"

definition slot_in_epoch :: "u64 \<Rightarrow> beacon_handle \<Rightarrow> u64 run" where
  "slot_in_epoch utc b = bindR (current_slot utc b) (\<lambda>s. rem_u64 s (bh_slots_per_epoch b))"

definition slot_epoch_start :: "beacon_handle \<Rightarrow> u64 \<Rightarrow> u64" where
  "slot_epoch_start b epoch = epoch * bh_slots_per_epoch b"

definition timestamp_of_slot :: "beacon_handle \<Rightarrow> u64 \<Rightarrow> u64" where
  "timestamp_of_slot b slot = bh_genesis_time_sec b + slot * bh_seconds_per_slot b"

definition slot_for_timestamp :: "beacon_handle \<Rightarrow> u64 \<Rightarrow> u64 run" where
  "slot_for_timestamp b timestamp =
     (if bh_genesis_time_sec b < timestamp
      then div_u64 (timestamp - bh_genesis_time_sec b) (bh_seconds_per_slot b)
      else Inl ''assertion failed: timestamp > self.genesis_time_sec'')"

subsection \<open>The schedule and the handle on it\<close>

record lookahead =
  la_curr :: address
  la_next :: address
  la_updated_epoch :: u64

text \<open>The first three fields are shared with the background loops; the others belong to the
  handle.\<close>

record lookahead_handle =
  lh_lookahead :: lookahead
  lh_preconfs_enabled :: bool
  lh_handover_window_slots :: u64
  lh_checked :: instant
  lh_last :: lookahead
  lh_handover_start_buffer_ms :: u64
  lh_beacon :: beacon_handle

definition lookahead_handle_new ::
    "instant \<Rightarrow> lookahead \<Rightarrow> bool \<Rightarrow> u64 \<Rightarrow> u64 \<Rightarrow> beacon_handle \<Rightarrow> lookahead_handle" where
  "lookahead_handle_new now la enabled window buffer_ms beacon =
     \<lparr>lh_lookahead = la, lh_preconfs_enabled = enabled, lh_handover_window_slots = window,
      lh_checked = now, lh_last = la, lh_handover_start_buffer_ms = buffer_ms,
      lh_beacon = beacon\<rparr>"

definition maybe_refresh :: "instant \<Rightarrow> lookahead_handle \<Rightarrow> lookahead_handle" where
  "maybe_refresh now h =
     (if from_millis 500 < elapsed now (lh_checked h)
      then h\<lparr>lh_last := lh_lookahead h, lh_checked := now\<rparr> else h)"

definition is_current_operator ::
    "instant \<Rightarrow> address \<Rightarrow> lookahead_handle \<Rightarrow> bool \<times> lookahead_handle" where
  "is_current_operator now operator h =
     (let h' = maybe_refresh now h in (operator = la_curr (lh_last h'), h'))"

text \<open>The first slot that the current operator leaves to the next one, and the operators that a
  view names for an epoch.\<close>

definition cutoff_slot :: "u64 \<Rightarrow> lookahead_handle \<Rightarrow> u64" where
  "cutoff_slot epoch h =
     slot_epoch_start (lh_beacon h) epoch + bh_slots_per_epoch (lh_beacon h) -
       lh_handover_window_slots h"

definition cutoff_time :: "u64 \<Rightarrow> lookahead_handle \<Rightarrow> u64" where
  "cutoff_time epoch h =
     timestamp_of_slot (lh_beacon h) (cutoff_slot epoch h) + lh_handover_start_buffer_ms h div 1000"

definition operators_at :: "u64 \<Rightarrow> lookahead \<Rightarrow> address \<times> address" where
  "operators_at epoch la =
     (if la_updated_epoch la = 0 \<or> epoch = la_updated_epoch la
      then (la_curr la, la_next la) else (la_next la, 0))"

definition can_sequence ::
    "instant \<Rightarrow> u64 \<Rightarrow> address \<Rightarrow> lookahead_handle \<Rightarrow> ((bool \<times> string) \<times> lookahead_handle) run" where
  "can_sequence now utc operator h =
     (if \<not> lh_preconfs_enabled h then Inr ((False, ''preconfs are disabled''), h)
      else
        (let h' = maybe_refresh now h in
         bindR (current_epoch utc (lh_beacon h')) (\<lambda>epoch.
           (let (current_operator, next_operator) = operators_at epoch (lh_last h')
            in if operator = current_operator
               then (if operator = next_operator
                     then Inr ((True, ''operator is both current and next''), h')
                     else bindR (current_slot utc (lh_beacon h')) (\<lambda>slot.
                            Inr (if slot < cutoff_slot epoch h'
                                 then (True, ''current operator before delay_slots'')
                                 else (False, ''current operator but too late in epoch''), h')))
               else (if operator = next_operator
                     then Inr (if cutoff_time epoch h' < utc
                               then (True, ''next operator after buffer_secs'')
                               else (False, ''next operator but too early in epoch''), h')
                     else Inr ((False, ''operator is not in lookahead''), h'))))))"

definition can_propose ::
    "instant \<Rightarrow> u64 \<Rightarrow> address \<Rightarrow> lookahead_handle \<Rightarrow> ((bool \<times> string) \<times> lookahead_handle) run" where
  "can_propose now utc operator h =
     (if \<not> lh_preconfs_enabled h then Inr ((False, ''preconfs are disabled''), h)
      else
        (let h' = maybe_refresh now h; la = lh_last h' in
         bindR (current_epoch utc (lh_beacon h')) (\<lambda>epoch.
           Inr (if epoch \<noteq> la_updated_epoch la
                then (if operator = la_next la
                      then (True, ''current operator (waiting for lookahead update)'')
                      else (False, ''not the current operator (waiting for lookahead update)''))
                else if operator = la_curr la then (True, ''current operator'')
                else (False, ''not the current operator''), h'))))"

definition should_clear_proposal ::
    "instant \<Rightarrow> u64 \<Rightarrow> address \<Rightarrow> lookahead_handle \<Rightarrow> ((bool \<times> string) \<times> lookahead_handle) run" where
  "should_clear_proposal now utc operator h =
     (if \<not> lh_preconfs_enabled h then Inr ((False, ''preconfs are disabled''), h)
      else
        (let h' = maybe_refresh now h; la = lh_last h' in
         bindR (current_epoch utc (lh_beacon h')) (\<lambda>epoch.
           if epoch \<noteq> la_updated_epoch la
           then Inr ((False, ''stale lookahead (early in epoch)''), h')
           else if operator \<noteq> la_curr la then Inr ((False, ''operator is not current''), h')
           else if operator = la_next la
           then Inr ((False, ''operator is both current and next''), h')
           else bindR (current_slot utc (lh_beacon h')) (\<lambda>slot.
                  Inr (if slot < cutoff_slot (la_updated_epoch la) h'
                       then (False, ''current operator early in epoch'')
                       else (True, ''different operator turn approaching''), h')))))"

subsection \<open>The background loops\<close>

text \<open>The answer of a whitelist call: an operator, the revert \<open>InvalidOperatorCount\<close>, another
  decoded revert, or a failure that is not a revert.\<close>

datatype whitelist_answer =
    Operator address
  | InvalidOperatorCount
  | OtherRevert string
  | CallFailed string

fun operator_or_panic :: "whitelist_answer \<Rightarrow> address run" where
  "operator_or_panic (Operator a) = Inr a"
| "operator_or_panic InvalidOperatorCount = Inr 0"
| "operator_or_panic (OtherRevert e) = Inl (''unhandled whitelist error: '' @ e)"
| "operator_or_panic (CallFailed e) = Inl (''failed to fetch operator: '' @ e)"

text \<open>One iteration of the update loop: nothing is fetched in the first three slots of an epoch.\<close>

definition lookahead_update ::
    "beacon_handle \<Rightarrow> u64 \<Rightarrow> whitelist_answer \<Rightarrow> whitelist_answer \<Rightarrow> lookahead \<Rightarrow> lookahead run" where
  "lookahead_update b utc curr_op next_op la =
     bindR (current_slot utc b) (\<lambda>slot.
     bindR (div_u64 slot (bh_slots_per_epoch b)) (\<lambda>epoch.
     bindR (rem_u64 slot (bh_slots_per_epoch b)) (\<lambda>slot_in.
       if 2 < slot_in
       then bindR (operator_or_panic curr_op) (\<lambda>c.
            bindR (operator_or_panic next_op) (\<lambda>n.
              Inr (la\<lparr>la_updated_epoch := epoch, la_curr := c, la_next := n\<rparr>)))
       else Inr la)))"

text \<open>The loop that waits for a block of the current epoch before the first fetch.\<close>

definition has_block_in_epoch :: "beacon_handle \<Rightarrow> u64 \<Rightarrow> u64 \<Rightarrow> bool run" where
  "has_block_in_epoch b utc last_block_timestamp =
     bindR (current_epoch utc b) (\<lambda>epoch.
     bindR (slot_for_timestamp b last_block_timestamp) (\<lambda>last_slot.
       Inr (slot_epoch_start b epoch < last_slot)))"

text \<open>The first view: a failing call for the current operator ends the start-up, one for the next
  operator falls back to the zero address.\<close>

definition initial_lookahead ::
    "beacon_handle \<Rightarrow> u64 \<Rightarrow> whitelist_answer \<Rightarrow> whitelist_answer \<Rightarrow> lookahead run" where
  "initial_lookahead b utc curr_op next_op =
     (case curr_op of
        Operator c \<Rightarrow>
          bindR (current_epoch utc b) (\<lambda>epoch.
            Inr \<lparr>la_curr = c, la_next = (case next_op of Operator n \<Rightarrow> n | _ \<Rightarrow> 0),
                 la_updated_epoch = epoch\<rparr>)
      | _ \<Rightarrow> Inl ''getOperatorForCurrentEpoch failed'')"

text \<open>The preconf router loop: its last router and the shared flag.\<close>

record router_loop =
  rl_current_router :: address
  rl_preconfs_enabled :: bool

definition router_loop_new :: router_loop where
  "router_loop_new = \<lparr>rl_current_router = 0, rl_preconfs_enabled = False\<rparr>"

definition router_step :: "address option \<Rightarrow> router_loop \<Rightarrow> router_loop" where
  "router_step answer s =
     (case answer of
        Some a \<Rightarrow> if a \<noteq> rl_current_router s
                  then s\<lparr>rl_current_router := a, rl_preconfs_enabled := (a \<noteq> 0)\<rparr> else s
      | None \<Rightarrow> s\<lparr>rl_current_router := 0, rl_preconfs_enabled := False\<rparr>)"

text \<open>The handover loop: its last value and epoch, and the shared window.  \<open>answer\<close> is the
  \<open>handOverSlots\<close> of the router's configuration (a 256-bit value), \<open>None\<close> a failing call.\<close>

record handover_loop =
  hl_current_handover :: u64
  hl_curr_epoch :: u64
  hl_window_slots :: u64

definition handover_loop_new :: "u64 \<Rightarrow> handover_loop" where
  "handover_loop_new d = \<lparr>hl_current_handover = d, hl_curr_epoch = 0, hl_window_slots = d\<rparr>"

definition handover_step ::
    "beacon_handle \<Rightarrow> u64 \<Rightarrow> 256 word option \<Rightarrow> handover_loop \<Rightarrow> handover_loop run" where
  "handover_step b utc answer s =
     bindR (current_epoch utc b) (\<lambda>epoch.
       if hl_curr_epoch s = epoch then Inr s
       else (let s1 = s\<lparr>hl_curr_epoch := epoch\<rparr> in
             (case answer of
                Some slots \<Rightarrow>
                  if unat slots < 2 ^ 64
                  then (let c = ucast slots in
                        Inr (if hl_current_handover s1 \<noteq> c
                             then s1\<lparr>hl_current_handover := c, hl_window_slots := c\<rparr> else s1))
                  else Inl ''handover slot is too large''
              | None \<Rightarrow> Inr s1)))"

subsection \<open>The clock in seconds\<close>

text \<open>\<open>clock_ok\<close>: the chain configuration is sane and the time is past genesis.\<close>

definition clock_ok :: "u64 \<Rightarrow> beacon_handle \<Rightarrow> bool" where
  "clock_ok utc b \<longleftrightarrow>
     bh_seconds_per_slot b \<noteq> 0 \<and> bh_slots_per_epoch b \<noteq> 0 \<and> bh_genesis_time_sec b \<le> utc"

definition slot_nat :: "u64 \<Rightarrow> beacon_handle \<Rightarrow> nat" where
  "slot_nat utc b = (unat utc - unat (bh_genesis_time_sec b)) div unat (bh_seconds_per_slot b)"

definition epoch_nat :: "u64 \<Rightarrow> beacon_handle \<Rightarrow> nat" where
  "epoch_nat utc b = slot_nat utc b div unat (bh_slots_per_epoch b)"

lemma current_slot_nat:
  assumes "clock_ok utc b"
  obtains s where "current_slot utc b = Inr s" and "unat s = slot_nat utc b"
  using assms that[of "(utc - bh_genesis_time_sec b) div bh_seconds_per_slot b"]
  by (simp add: clock_ok_def current_slot_def div_u64_def slot_nat_def unat_div unat_sub
      word_le_nat_alt)

lemma current_epoch_nat:
  assumes "clock_ok utc b"
  obtains e where "current_epoch utc b = Inr e" and "unat e = epoch_nat utc b"
proof -
  obtain s where s: "current_slot utc b = Inr s" "unat s = slot_nat utc b"
    using current_slot_nat[OF assms] .
  with assms show ?thesis
    using that[of "s div bh_slots_per_epoch b"]
    by (simp add: clock_ok_def current_epoch_def div_u64_def epoch_nat_def unat_div)
qed

lemma slot_nat_less_iff:
  assumes "clock_ok utc b"
  shows "slot_nat utc b < c \<longleftrightarrow> unat utc < unat (bh_genesis_time_sec b) + c * unat (bh_seconds_per_slot b)"
proof -
  have "0 < unat (bh_seconds_per_slot b)" using assms by (simp add: clock_ok_def unat_gt_0)
  moreover have "unat (bh_genesis_time_sec b) \<le> unat utc"
    using assms by (simp add: clock_ok_def word_le_nat_alt)
  ultimately show ?thesis
    by (auto simp: slot_nat_def div_less_iff_less_mult)
qed

end
