(* ===== verification/Lookahead_Props.thy ===== *)
theory Lookahead_Props
  imports Lookahead
begin

text \<open>
  What the schedule guarantees: the sequencing window of every operator in seconds, that two
  different operators never sequence at the same time, that a batch is flushed only when the
  operator may no longer sequence, that exactly the scheduled operator proposes, also while the
  view is still the one of the previous epoch, and that the loops keep their shared state in step
  with the contracts.
\<close>

subsection \<open>Handover times\<close>

text \<open>The end of the current operator's turn, in slots and in seconds.\<close>

definition cutoff_nat :: "u64 \<Rightarrow> lookahead_handle \<Rightarrow> nat" where
  "cutoff_nat utc h =
     Suc (epoch_nat utc (lh_beacon h)) * unat (bh_slots_per_epoch (lh_beacon h)) -
       unat (lh_handover_window_slots h)"

definition handover_start :: "u64 \<Rightarrow> lookahead_handle \<Rightarrow> nat" where
  "handover_start utc h =
     unat (bh_genesis_time_sec (lh_beacon h)) +
       cutoff_nat utc h * unat (bh_seconds_per_slot (lh_beacon h))"

definition handover_end :: "u64 \<Rightarrow> lookahead_handle \<Rightarrow> nat" where
  "handover_end utc h = handover_start utc h + unat (lh_handover_start_buffer_ms h) div 1000"

text \<open>The numbers of the current epoch do not wrap around.\<close>

definition timeline_ok :: "u64 \<Rightarrow> lookahead_handle \<Rightarrow> bool" where
  "timeline_ok utc h \<longleftrightarrow>
     clock_ok utc (lh_beacon h) \<and>
     unat (lh_handover_window_slots h) \<le>
       Suc (epoch_nat utc (lh_beacon h)) * unat (bh_slots_per_epoch (lh_beacon h)) \<and>
     Suc (epoch_nat utc (lh_beacon h)) * unat (bh_slots_per_epoch (lh_beacon h)) < 2 ^ 64 \<and>
     handover_end utc h < 2 ^ 64"

lemma maybe_refresh_frame [simp]:
  "lh_beacon (maybe_refresh now h) = lh_beacon h"
  "lh_handover_window_slots (maybe_refresh now h) = lh_handover_window_slots h"
  "lh_handover_start_buffer_ms (maybe_refresh now h) = lh_handover_start_buffer_ms h"
  "lh_preconfs_enabled (maybe_refresh now h) = lh_preconfs_enabled h"
  "lh_lookahead (maybe_refresh now h) = lh_lookahead h"
  by (simp_all add: maybe_refresh_def)

lemma cutoff_frame [simp]:
  "cutoff_slot e (maybe_refresh now h) = cutoff_slot e h"
  "cutoff_time e (maybe_refresh now h) = cutoff_time e h"
  by (simp_all add: cutoff_slot_def cutoff_time_def)

lemma cutoff_slot_nat:
  assumes "timeline_ok utc h" "unat e = epoch_nat utc (lh_beacon h)"
  shows "unat (cutoff_slot e h) = cutoff_nat utc h"
proof -
  let ?spe = "bh_slots_per_epoch (lh_beacon h)"
  have bound: "unat e * unat ?spe + unat ?spe < 2 ^ 64"
    using assms by (simp add: timeline_ok_def algebra_simps)
  then have "unat (e * ?spe) = unat e * unat ?spe" by (intro unat_times_exact) simp
  moreover from this bound have "unat (e * ?spe + ?spe) = unat e * unat ?spe + unat ?spe"
    by (subst unat_plus_exact) simp_all
  ultimately show ?thesis
    using assms
    by (simp add: cutoff_slot_def slot_epoch_start_def cutoff_nat_def timeline_ok_def unat_sub
        word_le_nat_alt algebra_simps)
qed

lemma cutoff_time_nat:
  assumes "timeline_ok utc h" "unat e = epoch_nat utc (lh_beacon h)"
  shows "unat (cutoff_time e h) = handover_end utc h"
proof -
  let ?b = "lh_beacon h"
  have cut: "unat (cutoff_slot e h) = cutoff_nat utc h" by (rule cutoff_slot_nat[OF assms])
  have bound: "unat (bh_genesis_time_sec ?b) + cutoff_nat utc h * unat (bh_seconds_per_slot ?b) +
      unat (lh_handover_start_buffer_ms h) div 1000 < 2 ^ 64"
    using assms by (simp add: timeline_ok_def handover_end_def handover_start_def)
  have "unat (cutoff_slot e h * bh_seconds_per_slot ?b) =
      cutoff_nat utc h * unat (bh_seconds_per_slot ?b)"
    using bound cut by (subst unat_times_exact) simp_all
  moreover from this have "unat (timestamp_of_slot ?b (cutoff_slot e h)) = handover_start utc h"
    using bound by (simp add: timestamp_of_slot_def handover_start_def unat_plus_exact)
  ultimately show ?thesis
    using bound
    by (simp add: cutoff_time_def handover_end_def handover_start_def unat_plus_exact unat_div)
qed

subsection \<open>Who sequences\<close>

text \<open>The reference: the turn of an operator in seconds.\<close>

definition in_turn :: "u64 \<Rightarrow> address \<Rightarrow> lookahead_handle \<Rightarrow> bool" where
  "in_turn utc operator h =
     (let (c, n) = operators_at (of_nat (epoch_nat utc (lh_beacon h))) (lh_last h)
      in if operator = c \<and> operator = n then True
         else if operator = c then unat utc < handover_start utc h
         else if operator = n then handover_end utc h < unat utc
         else False)"

lemma in_turn_unique:
  assumes "in_turn utc op1 h" "in_turn utc op2 h"
  shows "op1 = op2"
  using assms
  by (auto simp: in_turn_def handover_end_def Let_def split: prod.splits if_splits)

lemma can_sequence_eq:
  assumes "timeline_ok utc h" "lh_preconfs_enabled h"
  shows "\<exists>msg. can_sequence now utc operator h =
    Inr ((in_turn utc operator (maybe_refresh now h), msg), maybe_refresh now h)"
proof -
  let ?h = "maybe_refresh now h" and ?b = "lh_beacon h"
  have clock: "clock_ok utc ?b" using assms(1) by (simp add: timeline_ok_def)
  obtain e where e: "current_epoch utc ?b = Inr e" "unat e = epoch_nat utc ?b"
    using current_epoch_nat[OF clock] .
  obtain s where s: "current_slot utc ?b = Inr s" "unat s = slot_nat utc ?b"
    using current_slot_nat[OF clock] .
  have e_of: "of_nat (epoch_nat utc ?b) = e" by (simp flip: e(2))
  have before: "s < cutoff_slot e h \<longleftrightarrow> unat utc < handover_start utc h"
    using s(2) cutoff_slot_nat[OF assms(1) e(2)] slot_nat_less_iff[OF clock]
    by (simp add: word_less_nat_alt handover_start_def)
  have after: "cutoff_time e h < utc \<longleftrightarrow> handover_end utc h < unat utc"
    using cutoff_time_nat[OF assms(1) e(2)] by (simp add: word_less_nat_alt)
  obtain c n where cn: "operators_at e (lh_last ?h) = (c, n)" by fastforce
  have frame: "handover_start utc ?h = handover_start utc h" "handover_end utc ?h = handover_end utc h"
    by (simp_all add: handover_start_def handover_end_def cutoff_nat_def)
  show ?thesis
    using assms(2) e(1) s(1) before after cn
    by (auto simp: can_sequence_def in_turn_def e_of frame Let_def)
qed

text \<open>C17: Sequencing turns in seconds: with a sane slot clock \<open>can_sequence\<close> never panics, and it is
  true exactly for the operator that holds both turns, for the current operator before the start
  of the handover window, and for the next operator once the window has begun and the buffer is
  over.  In between nobody sequences.\<close>

theorem can_sequence_windows:
  assumes "timeline_ok utc h" "lh_preconfs_enabled h"
  shows "\<exists>r msg h'. can_sequence now utc operator h = Inr ((r, msg), h') \<and>
    h' = maybe_refresh now h \<and>
    (let (c, n) = operators_at (of_nat (epoch_nat utc (lh_beacon h))) (lh_last h') in
       (operator = c \<and> operator = n \<longrightarrow> r) \<and>
       (operator = c \<and> operator \<noteq> n \<longrightarrow> r = (unat utc < handover_start utc h)) \<and>
       (operator \<noteq> c \<and> operator = n \<longrightarrow> r = (handover_end utc h < unat utc)) \<and>
       (operator \<noteq> c \<and> operator \<noteq> n \<longrightarrow> \<not> r))"
proof -
  obtain msg where "can_sequence now utc operator h =
      Inr ((in_turn utc operator (maybe_refresh now h), msg), maybe_refresh now h)"
    using can_sequence_eq[OF assms] by blast
  then show ?thesis
    by (auto simp: in_turn_def handover_start_def handover_end_def cutoff_nat_def Let_def
        split: prod.splits)
qed

definition ex_beacon :: beacon_handle where
  "ex_beacon = beacon_new 32 1000 12"

definition ex_handle :: lookahead_handle where
  "ex_handle =
     lookahead_handle_new 0 \<lparr>la_curr = 7, la_next = 8, la_updated_epoch = 2\<rparr> True 8 6000 ex_beacon"

lemma ex_timeline: "timeline_ok 2000 ex_handle"
  by (simp add: timeline_ok_def ex_handle_def lookahead_handle_new_def ex_beacon_def beacon_new_def
      clock_ok_def epoch_nat_def slot_nat_def handover_end_def handover_start_def cutoff_nat_def)

theorem can_sequence_windows_witness:
  "(\<exists>msg. can_sequence 0 2000 7 ex_handle = Inr ((True, msg), ex_handle)) \<and>
   (\<exists>msg. can_sequence 0 2000 8 ex_handle = Inr ((False, msg), ex_handle))"
proof -
  have en: "lh_preconfs_enabled ex_handle" by (simp add: ex_handle_def lookahead_handle_new_def)
  have same: "maybe_refresh 0 ex_handle = ex_handle"
    by (simp add: maybe_refresh_def elapsed_def)
  have ops: "operators_at (of_nat (epoch_nat 2000 (lh_beacon ex_handle))) (lh_last ex_handle) = (7, 8)"
    by (simp add: operators_at_def ex_handle_def lookahead_handle_new_def ex_beacon_def
        beacon_new_def epoch_nat_def slot_nat_def)
  have times: "handover_start 2000 ex_handle = 2056" "handover_end 2000 ex_handle = 2062"
    by (simp_all add: handover_end_def handover_start_def cutoff_nat_def ex_handle_def
        lookahead_handle_new_def ex_beacon_def beacon_new_def epoch_nat_def slot_nat_def)
  have 7: "\<exists>msg. can_sequence 0 2000 7 ex_handle = Inr ((True, msg), ex_handle)"
    using can_sequence_windows[OF ex_timeline en, of 0 7] by (auto simp: same ops times)
  have 8: "\<exists>msg. can_sequence 0 2000 8 ex_handle = Inr ((False, msg), ex_handle)"
    using can_sequence_windows[OF ex_timeline en, of 0 8] by (auto simp: same ops times)
  show ?thesis using 7 8 by blast
qed

text \<open>C18: Two different operators never sequence at the same time: if they agree on the view, the
  chain configuration and the clock, at most one of two \<open>can_sequence\<close> answers is positive.\<close>

theorem one_sequencer_at_a_time:
  assumes "timeline_ok utc h1" "timeline_ok utc h2"
    and "lh_last (maybe_refresh now1 h1) = lh_last (maybe_refresh now2 h2)"
    and "lh_beacon h1 = lh_beacon h2" "lh_handover_window_slots h1 = lh_handover_window_slots h2"
    and "lh_handover_start_buffer_ms h1 = lh_handover_start_buffer_ms h2"
    and "can_sequence now1 utc op1 h1 = Inr ((True, m1), h1')"
    and "can_sequence now2 utc op2 h2 = Inr ((True, m2), h2')"
  shows "op1 = op2"
proof -
  have en: "lh_preconfs_enabled h1" "lh_preconfs_enabled h2"
    using assms(7,8) by (auto simp: can_sequence_def split: if_splits)
  have 1: "in_turn utc op1 (maybe_refresh now1 h1)"
    using can_sequence_eq[OF assms(1) en(1), of now1 op1] assms(7) by auto
  have 2: "in_turn utc op2 (maybe_refresh now2 h2)"
    using can_sequence_eq[OF assms(2) en(2), of now2 op2] assms(8) by auto
  have "in_turn utc op2 (maybe_refresh now2 h2) = in_turn utc op2 (maybe_refresh now1 h1)"
    using assms(3-6) by (simp add: in_turn_def handover_start_def handover_end_def cutoff_nat_def)
  with 1 2 show ?thesis using in_turn_unique by blast
qed

theorem one_sequencer_at_a_time_witness:
  "\<exists>m h'. can_sequence 0 2000 7 ex_handle = Inr ((True, m), h') \<and>
     (\<forall>op m2 h2. can_sequence 0 2000 op ex_handle = Inr ((True, m2), h2) \<longrightarrow> op = 7)"
proof -
  have "lh_preconfs_enabled ex_handle" by (simp add: ex_handle_def lookahead_handle_new_def)
  moreover have "in_turn 2000 7 (maybe_refresh 0 ex_handle)"
    by (simp add: in_turn_def operators_at_def maybe_refresh_def elapsed_def ex_handle_def
        lookahead_handle_new_def ex_beacon_def beacon_new_def epoch_nat_def slot_nat_def
        handover_start_def cutoff_nat_def)
  ultimately obtain m h' where r: "can_sequence 0 2000 7 ex_handle = Inr ((True, m), h')"
    using can_sequence_eq[OF ex_timeline, of 0 7] by auto
  with one_sequencer_at_a_time[OF ex_timeline ex_timeline refl refl refl refl _ r] show ?thesis
    by blast
qed

text \<open>The batch is flushed exactly when the turn ends: \<open>should_clear_proposal\<close> is true for the
  current operator of a fresh view who is not also the next one, from the start of the handover
  window on -- and then the operator can no longer sequence.\<close>

theorem clear_when_turn_ends:
  assumes "timeline_ok utc h" "lh_preconfs_enabled h"
    and "la_updated_epoch (lh_last (maybe_refresh now h)) \<noteq> 0"
  shows "\<exists>r msg msg' s h'. should_clear_proposal now utc operator h = Inr ((r, msg), h') \<and>
    can_sequence now utc operator h = Inr ((s, msg'), h') \<and>
    r = (la_updated_epoch (lh_last h') = of_nat (epoch_nat utc (lh_beacon h)) \<and>
         operator = la_curr (lh_last h') \<and> operator \<noteq> la_next (lh_last h') \<and> \<not> s)"
proof -
  let ?h = "maybe_refresh now h" and ?b = "lh_beacon h"
  have clock: "clock_ok utc ?b" using assms(1) by (simp add: timeline_ok_def)
  obtain e where e: "current_epoch utc ?b = Inr e" "unat e = epoch_nat utc ?b"
    using current_epoch_nat[OF clock] .
  obtain s where s: "current_slot utc ?b = Inr s" "unat s = slot_nat utc ?b"
    using current_slot_nat[OF clock] .
  have e_of: "of_nat (epoch_nat utc ?b) = e" by (simp flip: e(2))
  have before: "s < cutoff_slot e h \<longleftrightarrow> unat utc < handover_start utc h"
    using s(2) cutoff_slot_nat[OF assms(1) e(2)] slot_nat_less_iff[OF clock]
    by (simp add: word_less_nat_alt handover_start_def)
  obtain msg where seq: "can_sequence now utc operator h = Inr ((in_turn utc operator ?h, msg), ?h)"
    using can_sequence_eq[OF assms(1,2)] by blast
  have frame: "handover_start utc ?h = handover_start utc h"
    by (simp add: handover_start_def cutoff_nat_def)
  show ?thesis
    using assms(2,3) e(1) s(1) before
    by (auto simp: seq should_clear_proposal_def in_turn_def operators_at_def e_of frame Let_def)
qed

theorem clear_when_turn_ends_witness:
  "\<exists>m m' h'. should_clear_proposal 0 2000 7 ex_handle = Inr ((False, m), h') \<and>
     can_sequence 0 2000 7 ex_handle = Inr ((True, m'), h')"
proof -
  have pre: "lh_preconfs_enabled ex_handle"
    "la_updated_epoch (lh_last (maybe_refresh 0 ex_handle)) \<noteq> 0"
    by (simp_all add: ex_handle_def lookahead_handle_new_def maybe_refresh_def elapsed_def)
  have turn: "in_turn 2000 7 (maybe_refresh 0 ex_handle)"
    by (simp add: in_turn_def operators_at_def maybe_refresh_def elapsed_def ex_handle_def
        lookahead_handle_new_def ex_beacon_def beacon_new_def epoch_nat_def slot_nat_def
        handover_start_def cutoff_nat_def)
  from clear_when_turn_ends[OF ex_timeline pre, of 7]
    can_sequence_eq[OF ex_timeline pre(1), of 0 7] turn show ?thesis by auto
qed

subsection \<open>Who proposes\<close>

text \<open>\<open>schedule\<close> is the operator of each epoch according to the whitelist contract.  A view follows
  it if it names the operators of its own epoch and of the one after.\<close>

definition follows :: "(u64 \<Rightarrow> address) \<Rightarrow> lookahead \<Rightarrow> bool" where
  "follows schedule la \<longleftrightarrow>
     la_curr la = schedule (la_updated_epoch la) \<and> la_next la = schedule (la_updated_epoch la + 1)"

text \<open>Exactly the scheduled operator proposes, in the epoch of the view and, before the view is
  updated, also in the one after it.\<close>

theorem proposer_is_scheduled:
  assumes "clock_ok utc (lh_beacon h)" "lh_preconfs_enabled h"
    and "follows schedule (lh_last (maybe_refresh now h))"
    and "current_epoch utc (lh_beacon h) = Inr e"
    and "e = la_updated_epoch (lh_last (maybe_refresh now h)) \<or>
         e = la_updated_epoch (lh_last (maybe_refresh now h)) + 1"
  shows "\<exists>msg. can_propose now utc operator h =
    Inr ((operator = schedule e, msg), maybe_refresh now h)"
  using assms by (auto simp: can_propose_def follows_def Let_def)

theorem proposer_is_scheduled_witness:
  "\<exists>msg. can_propose 0 2400 8 ex_handle = Inr ((True, msg), ex_handle)"
proof -
  have same: "maybe_refresh 0 ex_handle = ex_handle"
    by (simp add: maybe_refresh_def elapsed_def)
  have pre: "clock_ok 2400 (lh_beacon ex_handle)" "lh_preconfs_enabled ex_handle"
    "follows (\<lambda>e. if e = 2 then 7 else 8) (lh_last (maybe_refresh 0 ex_handle))"
    "current_epoch 2400 (lh_beacon ex_handle) = Inr 3"
    "(3 :: u64) = la_updated_epoch (lh_last (maybe_refresh 0 ex_handle)) \<or>
     (3 :: u64) = la_updated_epoch (lh_last (maybe_refresh 0 ex_handle)) + 1"
    unfolding same
    by (simp_all add: ex_handle_def lookahead_handle_new_def ex_beacon_def beacon_new_def
        clock_ok_def follows_def current_epoch_def current_slot_def div_u64_def)
  from proposer_is_scheduled[OF pre, of 8] same show ?thesis by simp
qed

subsection \<open>The loops\<close>

text \<open>The environment of the update loop: the clock runs, and the whitelist answers with the
  operators of the current epoch and the next.\<close>

definition update_step ::
    "beacon_handle \<Rightarrow> u64 \<times> whitelist_answer \<times> whitelist_answer \<Rightarrow> lookahead \<Rightarrow> lookahead run" where
  "update_step b e la = lookahead_update b (fst e) (fst (snd e)) (snd (snd e)) la"

definition answers_follow ::
    "beacon_handle \<Rightarrow> (u64 \<Rightarrow> address) \<Rightarrow> u64 \<times> whitelist_answer \<times> whitelist_answer \<Rightarrow> lookahead \<Rightarrow> bool" where
  "answers_follow b schedule e la \<longleftrightarrow>
     clock_ok (fst e) b \<and>
     (\<exists>epoch. current_epoch (fst e) b = Inr epoch \<and>
        fst (snd e) = Operator (schedule epoch) \<and> snd (snd e) = Operator (schedule (epoch + 1)))"

lemma update_step_safe:
  assumes "follows schedule la" "answers_follow b schedule e la"
  shows "\<exists>la'. update_step b e la = Inr la' \<and> follows schedule la'"
  using assms
  by (auto simp: update_step_def answers_follow_def lookahead_update_def current_epoch_def
      current_slot_def div_u64_def rem_u64_def clock_ok_def follows_def)

interpretation schedule_loop:
  safe_system "update_step b" "answers_follow b schedule" "follows schedule" for b schedule
  by unfold_locales (rule update_step_safe)

text \<open>The update loop never panics while the whitelist answers, and its view follows the schedule
  of the contract after every iteration.\<close>

theorem update_loop_follows_schedule:
  assumes "follows schedule la" "legal_run (update_step b) (answers_follow b schedule) es la"
  shows "\<exists>la'. run_events (update_step b) es la = Inr la' \<and> follows schedule la'"
  using schedule_loop.run_safe[OF assms] .

theorem update_loop_follows_schedule_witness:
  "\<exists>la'. run_events (update_step ex_beacon) [(2404, Operator 8, Operator 9), (2500, Operator 8, Operator 9)]
      \<lparr>la_curr = 7, la_next = 8, la_updated_epoch = 2\<rparr> = Inr la' \<and>
    follows (\<lambda>e. if e = 2 then 7 else if e = 3 then 8 else 9) la'"
proof (rule update_loop_follows_schedule)
  show "follows (\<lambda>e. if e = 2 then 7 else if e = 3 then 8 else 9)
      \<lparr>la_curr = 7, la_next = 8, la_updated_epoch = 2\<rparr>"
    by (simp add: follows_def)
  show "legal_run (update_step ex_beacon)
      (answers_follow ex_beacon (\<lambda>e. if e = 2 then 7 else if e = 3 then 8 else 9))
      [(2404, Operator 8, Operator 9), (2500, Operator 8, Operator 9)]
      \<lparr>la_curr = 7, la_next = 8, la_updated_epoch = 2\<rparr>"
    by (auto simp: answers_follow_def ex_beacon_def beacon_new_def clock_ok_def current_epoch_def
        current_slot_def div_u64_def split: sum.splits)
qed

text \<open>Preconfirmations are enabled exactly while the wrapper's last answer was a router other
  than the zero address; a failing call disables them until the next answer.\<close>

theorem preconfs_enabled_iff_router:
  "rl_preconfs_enabled (fold router_step answers router_loop_new) \<longleftrightarrow>
     (\<exists>a. a \<noteq> 0 \<and> answers \<noteq> [] \<and> last answers = Some a)"
proof -
  have "rl_preconfs_enabled (fold router_step answers router_loop_new) =
      (rl_current_router (fold router_step answers router_loop_new) \<noteq> 0) \<and>
    rl_current_router (fold router_step answers router_loop_new) =
      (if answers = [] then 0 else case last answers of Some a \<Rightarrow> a | None \<Rightarrow> 0)"
    by (induction answers rule: rev_induct)
       (auto simp: router_step_def router_loop_new_def split: option.splits)
  then show ?thesis by (auto split: option.splits if_splits)
qed

text \<open>The slot clock inverts: \<open>slot_for_timestamp\<close> reads back the slot whose start
  \<open>timestamp_of_slot\<close> gives, for every slot but the first; for slot 0 it panics, since it insists
  on a time strictly after genesis.\<close>

theorem slot_timestamp_roundtrip:
  assumes "bh_seconds_per_slot b \<noteq> 0"
    and "unat (bh_genesis_time_sec b) + unat slot * unat (bh_seconds_per_slot b) < 2 ^ 64"
  shows "slot_for_timestamp b (timestamp_of_slot b slot) =
    (if slot = 0 then Inl ''assertion failed: timestamp > self.genesis_time_sec'' else Inr slot)"
proof -
  let ?g = "bh_genesis_time_sec b" and ?s = "bh_seconds_per_slot b"
  have prod: "unat (slot * ?s) = unat slot * unat ?s"
    using assms(2) by (intro unat_times_exact) simp
  have sum: "unat (?g + slot * ?s) = unat ?g + unat slot * unat ?s"
    using assms(2) prod by (subst unat_plus_exact) simp_all
  have pos: "0 < unat ?s" using assms(1) by (simp add: unat_gt_0)
  have "?g < ?g + slot * ?s \<longleftrightarrow> slot \<noteq> 0"
    using pos sum by (simp add: word_less_nat_alt unat_gt_0)
  moreover have "slot * ?s div ?s = slot"
    using prod pos by (intro word_unat_eq_iff[THEN iffD2]) (simp add: unat_div)
  ultimately show ?thesis
    using assms(1) by (simp add: slot_for_timestamp_def timestamp_of_slot_def div_u64_def)
qed

theorem slot_timestamp_roundtrip_witness:
  "slot_for_timestamp ex_beacon (timestamp_of_slot ex_beacon 5) = Inr 5"
  using slot_timestamp_roundtrip[of ex_beacon 5] by (simp add: ex_beacon_def beacon_new_def)

end
