(* ===== verification/Seq_Context.thy ===== *)
theory Seq_Context
  imports Sort_Data
begin

text \<open>
  The chain view of the sequencer, \<open>SequencerContext\<close> of \<open>crates/sequencer/src/context.rs\<close>, and
  the sequencer state of \<open>crates/sequencer/src/types.rs\<close>: recent L1 headers, the L2 headers since
  the last confirmed one, our own blocks that await confirmation.

  \<open>decode\<close> is \<open>anchorV3Call::abi_decode\<close>, of which the code keeps the anchor block id; \<open>now\<close> is
  the clock.  The two atomics that other threads read are fields.  An invariant, \<open>ctx_inv\<close>, holds
  after every sequence of blocks; with it the handlers panic only on a failed block verification
  and on blocks that are no Taiko blocks.
\<close>

datatype sequencer_state =
    Sync u64
  | Sorting sort_data

definition sequencer_state_default :: sequencer_state where
  "sequencer_state_default = Sync 0"

record seq_context =
  cx_coinbase :: address
  cx_l1_safe_lag :: u64
  cx_last_l1_receive :: instant
  cx_last_l2_receive :: instant
  cx_state :: sequencer_state
  cx_anchor :: "anchor_params option"
  cx_l2_headers :: "parent_params list"
  cx_l1_headers :: "(u64, header) btree"
  cx_to_verify :: "(u64, header) btree"
  cx_l2_origin :: u64
  cx_l1_number :: u64
  cx_parent_anchor_block_id :: u64

definition seq_context_new :: "instant \<Rightarrow> u64 \<Rightarrow> u64 \<Rightarrow> u64 \<Rightarrow> address \<Rightarrow> seq_context" where
  "seq_context_new now l1_safe_lag l2_origin l1_number coinbase =
     \<lparr>cx_coinbase = coinbase, cx_l1_safe_lag = l1_safe_lag, cx_last_l1_receive = now,
      cx_last_l2_receive = now, cx_state = sequencer_state_default, cx_anchor = None,
      cx_l2_headers = [], cx_l1_headers = [], cx_to_verify = [], cx_l2_origin = l2_origin,
      cx_l1_number = l1_number, cx_parent_anchor_block_id = 0\<rparr>"

definition new_l1_block :: "instant \<Rightarrow> header \<Rightarrow> seq_context \<Rightarrow> seq_context" where
  "new_l1_block now h cx =
     cx\<lparr>cx_l1_number := hd_number h,
        cx_l1_headers := bt_insert (hd_number h) h
          (bt_retain (\<lambda>n. hd_number h - cx_l1_safe_lag cx \<le> n) (cx_l1_headers cx)),
        cx_last_l1_receive := now\<rparr>"

text \<open>The closure's errors (\<open>eyre\<close>) are logged and dropped; what was done before them stays.\<close>

definition update_parent_block_id ::
    "(bytes \<Rightarrow> u64 option) \<Rightarrow> block \<Rightarrow> seq_context \<Rightarrow> seq_context run" where
  "update_parent_block_id decode b cx =
     (case as_transactions b of
        None \<Rightarrow> Inr cx
      | Some [] \<Rightarrow> Inr cx
      | Some ((from, tx) # _) \<Rightarrow>
          if from \<noteq> GOLDEN_TOUCH_ADDRESS then Inl ''assertion `left == right` failed''
          else bindR (from_header_and_anchor_nonce (blk_header b) (tx_nonce tx)) (\<lambda>pp.
                 (let cx1 = cx\<lparr>cx_l2_headers := cx_l2_headers cx @ [pp]\<rparr>
                  in case decode (tx_input tx) of
                       None \<Rightarrow> Inr cx1
                     | Some block_id \<Rightarrow> Inr (cx1\<lparr>cx_parent_anchor_block_id := block_id\<rparr>))))"

fun position :: "('a \<Rightarrow> bool) \<Rightarrow> 'a list \<Rightarrow> nat option" where
  "position P [] = None"
| "position P (x # xs) = (if P x then Some 0 else map_option Suc (position P xs))"

definition new_preconf_l2_block ::
    "(bytes \<Rightarrow> u64 option) \<Rightarrow> instant \<Rightarrow> block \<Rightarrow> seq_context \<Rightarrow> (bool \<times> seq_context) run" where
  "new_preconf_l2_block decode now b cx0 =
     (let h = blk_header b;
          cx = (if hd_beneficiary h = cx_coinbase cx0
                then cx0\<lparr>cx_to_verify := bt_insert (hd_number h) h (cx_to_verify cx0)\<rparr> else cx0)
      in if cx_l2_headers cx = []
         then bindR (update_parent_block_id decode b cx) (\<lambda>cx1. Inr (False, cx1))
         else
           (let last_seen = last (cx_l2_headers cx) in
            if pp_block_number last_seen + 1 = hd_number h \<and> pp_hash last_seen = hd_parent_hash h
            then bindR (update_parent_block_id decode b cx) (\<lambda>cx1.
                   Inr (False, cx1\<lparr>cx_last_l2_receive := now\<rparr>))
            else
              (case position (\<lambda>p. pp_block_number p = hd_number h) (cx_l2_headers cx) of
                 Some local \<Rightarrow>
                   if pp_hash (cx_l2_headers cx ! local) \<noteq> hd_hash h
                   then
                     (let cx1 = cx\<lparr>cx_l2_headers := take local (cx_l2_headers cx),
                                   cx_to_verify := bt_retain (\<lambda>bn. bn < hd_number h) (cx_to_verify cx)\<rparr>
                      in bindR (update_parent_block_id decode b cx1) (\<lambda>cx2.
                           Inr (True, cx2\<lparr>cx_last_l2_receive := now\<rparr>)))
                   else Inr (False, cx)
               | None \<Rightarrow>
                   if pp_block_number last_seen < hd_number h
                   then bindR (update_parent_block_id decode b (cx\<lparr>cx_last_l2_receive := now\<rparr>))
                          (\<lambda>cx1. Inr (False, cx1))
                   else Inr (False, cx\<lparr>cx_last_l2_receive := now\<rparr>))))"

text \<open>\<open>verify_and_log_block\<close> of \<open>crates/common/src/utils.rs\<close>: the alert of the other case goes to
  a web hook.\<close>

definition verify_and_log_block :: "header \<Rightarrow> header \<Rightarrow> bool \<Rightarrow> unit run" where
  "verify_and_log_block preconf_header new_header panic_on_error =
     (if hd_hash preconf_header \<noteq> hd_hash new_header
      then (if panic_on_error then Inl ''block verify mismatch'' else Inr ())
      else Inr ())"

definition new_origin_l2_block :: "header \<Rightarrow> seq_context \<Rightarrow> seq_context run" where
  "new_origin_l2_block h cx =
     bindR
       (case bt_get (cx_to_verify cx) (hd_number h) of
          Some preconf_header \<Rightarrow>
            bindR (verify_and_log_block preconf_header h True) (\<lambda>_.
              Inr (cx\<lparr>cx_to_verify := bt_remove (hd_number h) (cx_to_verify cx)\<rparr>))
        | None \<Rightarrow>
            Inr (if (case bt_first (cx_to_verify cx) of Some (bn, _) \<Rightarrow> bn < hd_number h | None \<Rightarrow> False)
                 then cx\<lparr>cx_to_verify := bt_retain (\<lambda>bn. hd_number h < bn) (cx_to_verify cx)\<rparr>
                 else cx))
       (\<lambda>cx1. Inr (cx1\<lparr>cx_l2_headers :=
                 dropWhile (\<lambda>p. pp_block_number p < hd_number h) (cx_l2_headers cx1)\<rparr>))"

definition safe_l1_header :: "seq_context \<Rightarrow> header option" where
  "safe_l1_header cx = map_option snd (bt_first (cx_l1_headers cx))"

definition l2_origin :: "seq_context \<Rightarrow> u64" where
  "l2_origin cx = cx_l2_origin cx"

definition l2_parent :: "seq_context \<Rightarrow> parent_params run" where
  "l2_parent cx =
     (if cx_l2_headers cx = [] then Inl ''l2 headers should never be empty''
      else Inr (last (cx_l2_headers cx)))"

subsection \<open>The invariant\<close>

text \<open>A Taiko block: full transactions, the first one is the anchor, and the gas fits 32 bits.\<close>

definition taiko_block :: "block \<Rightarrow> bool" where
  "taiko_block b \<longleftrightarrow>
     (\<exists>tx txs. as_transactions b = Some ((GOLDEN_TOUCH_ADDRESS, tx) # txs)) \<and>
     unat (hd_gas_used (blk_header b)) < 2 ^ 32 \<and> hd_number (blk_header b) \<noteq> 0"

definition parent_of :: "block \<Rightarrow> parent_params" where
  "parent_of b =
     \<lparr>pp_timestamp = hd_timestamp (blk_header b), pp_gas_used = ucast (hd_gas_used (blk_header b)),
      pp_block_number = hd_number (blk_header b), pp_hash = hd_hash (blk_header b),
      pp_anchor_nonce = tx_nonce (snd (hd (blk_txs b))),
      pp_beneficiary = hd_beneficiary (blk_header b)\<rparr>"

definition keyed_by_number :: "(u64, header) btree \<Rightarrow> bool" where
  "keyed_by_number m \<longleftrightarrow> bt_wf m \<and> (\<forall>(k, h) \<in> set m. hd_number h = k)"

definition ctx_inv :: "seq_context \<Rightarrow> bool" where
  "ctx_inv cx \<longleftrightarrow>
     keyed_by_number (cx_l1_headers cx) \<and> keyed_by_number (cx_to_verify cx) \<and>
     (\<forall>(k, h) \<in> set (cx_to_verify cx). hd_beneficiary h = cx_coinbase cx) \<and>
     sorted_wrt (<) (map pp_block_number (cx_l2_headers cx))"

lemma keyed_insert [wf_intros]: "keyed_by_number m \<Longrightarrow> keyed_by_number (bt_insert (hd_number h) h m)"
  using set_bt_insert[of "hd_number h" h m] by (auto simp: keyed_by_number_def intro: wf_intros)

lemma keyed_retain [wf_intros]: "keyed_by_number m \<Longrightarrow> keyed_by_number (bt_retain P m)"
  by (auto simp: keyed_by_number_def set_bt_retain intro: wf_intros)

lemma keyed_remove [wf_intros]: "keyed_by_number m \<Longrightarrow> keyed_by_number (bt_remove k m)"
  by (auto simp: keyed_by_number_def set_bt_remove intro: wf_intros)

text \<open>The anchor block id after a block: the one its anchor call names, if that can be decoded.\<close>

definition anchor_id_after :: "(bytes \<Rightarrow> u64 option) \<Rightarrow> block \<Rightarrow> seq_context \<Rightarrow> u64" where
  "anchor_id_after decode b cx =
     (case decode (tx_input (snd (hd (blk_txs b)))) of
        Some block_id \<Rightarrow> block_id | None \<Rightarrow> cx_parent_anchor_block_id cx)"

lemma update_parent_taiko:
  assumes "taiko_block b"
  shows "update_parent_block_id decode b cx =
    Inr (cx\<lparr>cx_l2_headers := cx_l2_headers cx @ [parent_of b],
            cx_parent_anchor_block_id := anchor_id_after decode b cx\<rparr>)"
proof -
  from assms obtain tx txs where tx: "as_transactions b = Some ((GOLDEN_TOUCH_ADDRESS, tx) # txs)"
    "unat (hd_gas_used (blk_header b)) < 2 ^ 32" by (auto simp: taiko_block_def)
  then have "snd (hd (blk_txs b)) = tx" by (auto simp: as_transactions_def split: if_splits)
  with tx show ?thesis
    by (cases "decode (tx_input tx)")
       (simp_all add: update_parent_block_id_def from_header_and_anchor_nonce_def parent_of_def
         anchor_id_after_def)
qed

lemma position_None: "position P xs = None \<longleftrightarrow> (\<forall>x \<in> set xs. \<not> P x)"
  by (induction xs) auto

lemma position_Some: "position P xs = Some i \<Longrightarrow> i < length xs \<and> P (xs ! i)"
  by (induction xs arbitrary: i) (auto split: if_splits)

lemma sorted_wrt_snoc: "sorted_wrt R (xs @ [x]) \<longleftrightarrow> sorted_wrt R xs \<and> (\<forall>y \<in> set xs. R y x)"
  by (auto simp: sorted_wrt_append)

lemma sorted_last_ge:
  fixes xs :: "'a::linorder list"
  shows "sorted_wrt (<) xs \<Longrightarrow> y \<in> set xs \<Longrightarrow> y \<le> last xs"
  by (induction xs rule: rev_induct) (auto simp: sorted_wrt_snoc less_imp_le)

lemma sorted_take_less:
  assumes "sorted_wrt (<) (xs :: 'a::linorder list)" "i < length xs" "y \<in> set (take i xs)"
  shows "y < xs ! i"
proof -
  from assms(3) obtain j where "j < i" "y = xs ! j" by (auto simp: in_set_conv_nth)
  with assms(1,2) show ?thesis by (auto simp: sorted_wrt_iff_nth_less)
qed

lemma new_l1_block_inv: "ctx_inv cx \<Longrightarrow> ctx_inv (new_l1_block now h cx)"
  by (auto simp: ctx_inv_def new_l1_block_def intro!: wf_intros)

text \<open>What a Taiko block does to the headers: it is appended -- after the headers from its number
  on are dropped if it replaces one of them -- unless it was seen before or is older than
  everything that is kept.\<close>

definition keep_before :: "u64 \<Rightarrow> parent_params list \<Rightarrow> parent_params list" where
  "keep_before n hs = takeWhile (\<lambda>p. pp_block_number p < n) hs"

lemma take_position_keep_before:
  assumes "sorted_wrt (<) (map pp_block_number hs)"
    and "position (\<lambda>p. pp_block_number p = n) hs = Some i"
  shows "take i hs = keep_before n hs"
  using assms
proof (induction hs arbitrary: i)
  case (Cons p hs)
  show ?case
  proof (cases "pp_block_number p = n")
    case True
    with Cons.prems show ?thesis by (simp add: keep_before_def)
  next
    case False
    with Cons.prems obtain j where j: "position (\<lambda>p. pp_block_number p = n) hs = Some j" "i = Suc j"
      by auto
    from position_Some[OF j(1)] have "pp_block_number p < n" using Cons.prems(1) by (auto dest!: nth_mem)
    with Cons.IH[OF _ j(1)] Cons.prems(1) j(2) show ?thesis by (simp add: keep_before_def)
  qed
qed simp

definition seen_before :: "block \<Rightarrow> seq_context \<Rightarrow> bool" where
  "seen_before b cx \<longleftrightarrow>
     (\<exists>p \<in> set (cx_l2_headers cx). pp_block_number p = hd_number (blk_header b) \<and>
        pp_hash p = hd_hash (blk_header b))"

definition replaces :: "block \<Rightarrow> seq_context \<Rightarrow> bool" where
  "replaces b cx \<longleftrightarrow>
     (\<exists>p \<in> set (cx_l2_headers cx). pp_block_number p = hd_number (blk_header b) \<and>
        pp_hash p \<noteq> hd_hash (blk_header b))"

definition older_than_all :: "block \<Rightarrow> seq_context \<Rightarrow> bool" where
  "older_than_all b cx \<longleftrightarrow>
     cx_l2_headers cx \<noteq> [] \<and>
     hd_number (blk_header b) \<notin> pp_block_number ` set (cx_l2_headers cx) \<and>
     hd_number (blk_header b) < pp_block_number (last (cx_l2_headers cx))"

definition headers_after :: "block \<Rightarrow> seq_context \<Rightarrow> parent_params list" where
  "headers_after b cx =
     (if seen_before b cx \<or> older_than_all b cx then cx_l2_headers cx
      else keep_before (hd_number (blk_header b)) (cx_l2_headers cx) @ [parent_of b])"

lemma distinct_numbers:
  assumes "sorted_wrt (<) (map pp_block_number hs)" "p \<in> set hs" "q \<in> set hs"
    "pp_block_number p = pp_block_number q"
  shows "p = q"
proof -
  have "distinct (map pp_block_number hs)"
    using assms(1) by (simp add: strict_sorted_iff)
  with assms(2-4) show ?thesis by (auto simp: distinct_map inj_on_def)
qed

lemma keep_before_all:
  assumes "\<forall>p \<in> set hs. pp_block_number p < n"
  shows "keep_before n hs = hs"
  using assms by (simp add: keep_before_def takeWhile_eq_all_conv)

lemma keep_before_less: "p \<in> set (keep_before n hs) \<Longrightarrow> p \<in> set hs \<and> pp_block_number p < n"
  by (auto simp: keep_before_def dest: set_takeWhileD)

lemma sorted_keep_before:
  "sorted_wrt (<) (map pp_block_number hs) \<Longrightarrow> sorted_wrt (<) (map pp_block_number (keep_before n hs))"
  by (induction hs) (auto simp: keep_before_def dest: set_takeWhileD)

lemma last_number:
  assumes "sorted_wrt (<) (map pp_block_number hs)" "p \<in> set hs"
  shows "pp_block_number p \<le> pp_block_number (last hs)"
proof -
  have "hs \<noteq> []" using assms(2) by auto
  then show ?thesis
    using sorted_last_ge[OF assms(1), of "pp_block_number p"] assms(2) by (auto simp: last_map)
qed

lemma word_succ_gt:
  fixes n :: "'a::len word"
  assumes "n + 1 \<noteq> 0"
  shows "n < n + 1"
proof -
  have "Suc (unat n) \<noteq> 2 ^ LENGTH('a)"
    using assms unat_eq_0[of "n + 1"] by (auto simp: unat_word_ariths)
  then have "Suc (unat n) < 2 ^ LENGTH('a)" using unsigned_less[of n, where ?'a = nat] by linarith
  then show ?thesis by (simp add: word_less_nat_alt unat_word_ariths)
qed

text \<open>The whole handler on Taiko blocks: the headers as above, the pending verifications, the
  answer.\<close>

definition to_verify_after :: "block \<Rightarrow> seq_context \<Rightarrow> (u64, header) btree" where
  "to_verify_after b cx =
     (let h = blk_header b;
          m = (if hd_beneficiary h = cx_coinbase cx then bt_insert (hd_number h) h (cx_to_verify cx)
               else cx_to_verify cx)
      in if replaces b cx then bt_retain (\<lambda>bn. bn < hd_number h) m else m)"

lemma new_preconf_taiko:
  assumes inv: "ctx_inv cx" and b: "taiko_block b"
  shows "\<exists>cx'. new_preconf_l2_block decode now b cx = Inr (replaces b cx, cx') \<and>
    cx_l2_headers cx' = headers_after b cx \<and> cx_to_verify cx' = to_verify_after b cx \<and>
    cx_l1_headers cx' = cx_l1_headers cx \<and> cx_coinbase cx' = cx_coinbase cx \<and>
    cx_anchor cx' = cx_anchor cx \<and> cx_state cx' = cx_state cx \<and>
    cx_l1_safe_lag cx' = cx_l1_safe_lag cx \<and> cx_l2_origin cx' = cx_l2_origin cx \<and>
    cx_last_l1_receive cx' = cx_last_l1_receive cx \<and>
    (cx_l2_headers cx' = cx_l2_headers cx \<or>
       cx_parent_anchor_block_id cx' = anchor_id_after decode b cx)"
proof -
  define h where "h = blk_header b"
  define hs where "hs = cx_l2_headers cx"
  define cx1 where "cx1 = (if hd_beneficiary h = cx_coinbase cx
                then cx\<lparr>cx_to_verify := bt_insert (hd_number h) h (cx_to_verify cx)\<rparr> else cx)"
  have cx1: "cx_l2_headers cx1 = hs" "cx_coinbase cx1 = cx_coinbase cx" "cx_l1_headers cx1 = cx_l1_headers cx"
    "cx_anchor cx1 = cx_anchor cx" "cx_state cx1 = cx_state cx" "cx_l1_safe_lag cx1 = cx_l1_safe_lag cx"
    "cx_l2_origin cx1 = cx_l2_origin cx" "cx_last_l1_receive cx1 = cx_last_l1_receive cx"
    "cx_parent_anchor_block_id cx1 = cx_parent_anchor_block_id cx"
    "\<not> replaces b cx \<Longrightarrow> cx_to_verify cx1 = to_verify_after b cx"
    "replaces b cx \<Longrightarrow> bt_retain (\<lambda>bn. bn < hd_number h) (cx_to_verify cx1) = to_verify_after b cx"
    by (simp_all add: cx1_def hs_def h_def to_verify_after_def Let_def)
  have sorted: "sorted_wrt (<) (map pp_block_number hs)" using inv by (simp add: ctx_inv_def hs_def)
  have anchor: "anchor_id_after decode b (cx1\<lparr>cx_l2_headers := x\<rparr>) = anchor_id_after decode b cx"
    "anchor_id_after decode b (cx1\<lparr>cx_l2_headers := x, cx_to_verify := y\<rparr>) = anchor_id_after decode b cx"
    "anchor_id_after decode b (cx1\<lparr>cx_last_l2_receive := z\<rparr>) = anchor_id_after decode b cx"
    "anchor_id_after decode b cx1 = anchor_id_after decode b cx" for x y z
    using cx1(9) by (simp_all add: anchor_id_after_def split: option.splits)
  have eq: "new_preconf_l2_block decode now b cx =
      (if hs = []
         then bindR (update_parent_block_id decode b cx1) (\<lambda>cx1. Inr (False, cx1))
         else if pp_block_number (last hs) + 1 = hd_number h \<and> pp_hash (last hs) = hd_parent_hash h
         then bindR (update_parent_block_id decode b cx1) (\<lambda>cx1. Inr (False, cx1\<lparr>cx_last_l2_receive := now\<rparr>))
         else
              (case position (\<lambda>p. pp_block_number p = hd_number h) hs of
                 Some local \<Rightarrow>
                   if pp_hash (hs ! local) \<noteq> hd_hash h
                   then bindR (update_parent_block_id decode b (cx1\<lparr>cx_l2_headers := take local hs,
                                   cx_to_verify := bt_retain (\<lambda>bn. bn < hd_number h) (cx_to_verify cx1)\<rparr>))
                          (\<lambda>cx2. Inr (True, cx2\<lparr>cx_last_l2_receive := now\<rparr>))
                   else Inr (False, cx1)
               | None \<Rightarrow>
                   if pp_block_number (last hs) < hd_number h
                   then bindR (update_parent_block_id decode b (cx1\<lparr>cx_last_l2_receive := now\<rparr>))
                          (\<lambda>cx1. Inr (False, cx1))
                   else Inr (False, cx1\<lparr>cx_last_l2_receive := now\<rparr>)))"
    by (simp only: new_preconf_l2_block_def Let_def h_def[symmetric] cx1_def[symmetric] cx1(1))
  have above: "\<forall>p \<in> set hs. pp_block_number p < hd_number h"
    if "pp_block_number (last hs) < hd_number h"
    using that last_number[OF sorted] by (auto intro: le_less_trans)
  have append: "headers_after b cx = hs @ [parent_of b] \<and> \<not> replaces b cx"
    if "\<forall>p \<in> set hs. pp_block_number p < hd_number h"
  proof -
    have "\<not> older_than_all b cx"
      using that last_in_set[of hs] less_asym unfolding older_than_all_def hs_def h_def by blast
    with that keep_before_all[of hs "hd_number h"] show ?thesis
      by (auto simp: headers_after_def seen_before_def replaces_def hs_def h_def)
  qed
  consider (empty) "hs = []"
    | (happy) "hs \<noteq> []" "pp_block_number (last hs) + 1 = hd_number h \<and> pp_hash (last hs) = hd_parent_hash h"
    | (reorg) i where "hs \<noteq> []" "\<not> (pp_block_number (last hs) + 1 = hd_number h \<and> pp_hash (last hs) = hd_parent_hash h)"
        "position (\<lambda>p. pp_block_number p = hd_number h) hs = Some i" "pp_hash (hs ! i) \<noteq> hd_hash h"
    | (seen) i where "hs \<noteq> []" "\<not> (pp_block_number (last hs) + 1 = hd_number h \<and> pp_hash (last hs) = hd_parent_hash h)"
        "position (\<lambda>p. pp_block_number p = hd_number h) hs = Some i" "pp_hash (hs ! i) = hd_hash h"
    | (missed) "hs \<noteq> []" "\<not> (pp_block_number (last hs) + 1 = hd_number h \<and> pp_hash (last hs) = hd_parent_hash h)"
        "position (\<lambda>p. pp_block_number p = hd_number h) hs = None" "pp_block_number (last hs) < hd_number h"
    | (older) "hs \<noteq> []" "\<not> (pp_block_number (last hs) + 1 = hd_number h \<and> pp_hash (last hs) = hd_parent_hash h)"
        "position (\<lambda>p. pp_block_number p = hd_number h) hs = None" "\<not> pp_block_number (last hs) < hd_number h"
    by (cases "position (\<lambda>p. pp_block_number p = hd_number h) hs") blast+
  then show ?thesis
  proof cases
    case empty
    then show ?thesis
      using append eq cx1 anchor update_parent_taiko[OF b, of decode cx1] by simp
  next
    case happy
    have "pp_block_number (last hs) + 1 \<noteq> 0" using happy(2) b by (auto simp: taiko_block_def h_def)
    from word_succ_gt[OF this] happy(2) have "pp_block_number (last hs) < hd_number h" by simp
    then show ?thesis
      using happy append[OF above] eq cx1 anchor update_parent_taiko[OF b, of decode cx1] by simp
  next
    case reorg
    note pos = position_Some[OF reorg(3)]
    then have "hs ! i \<in> set hs" "pp_block_number (hs ! i) = hd_number h" by auto
    then have "replaces b cx" using reorg(4) by (auto simp: replaces_def hs_def h_def)
    moreover have "\<not> seen_before b cx"
    proof
      assume "seen_before b cx"
      then obtain p where p: "p \<in> set hs" "pp_block_number p = hd_number h" "pp_hash p = hd_hash h"
        by (auto simp: seen_before_def hs_def h_def)
      with \<open>hs ! i \<in> set hs\<close> \<open>pp_block_number (hs ! i) = hd_number h\<close> reorg(4)
        distinct_numbers[OF sorted, of p "hs ! i"] show False by auto
    qed
    moreover have "\<not> older_than_all b cx"
      using \<open>hs ! i \<in> set hs\<close> \<open>pp_block_number (hs ! i) = hd_number h\<close>
      by (force simp: older_than_all_def hs_def h_def)
    ultimately have "headers_after b cx = take i hs @ [parent_of b]" "replaces b cx"
      using take_position_keep_before[OF sorted reorg(3)]
      by (simp_all add: headers_after_def hs_def h_def)
    then show ?thesis
      using reorg eq cx1 anchor update_parent_taiko[OF b, of decode
        "cx1\<lparr>cx_l2_headers := take i hs, cx_to_verify := to_verify_after b cx\<rparr>"] by auto
  next
    case seen
    note pos = position_Some[OF seen(3)]
    then have *: "hs ! i \<in> set hs" "pp_block_number (hs ! i) = hd_number h" by auto
    with seen(4) have "seen_before b cx" by (auto simp: seen_before_def hs_def h_def)
    moreover have "\<not> replaces b cx"
    proof
      assume "replaces b cx"
      then obtain p where "p \<in> set hs" "pp_block_number p = hd_number h" "pp_hash p \<noteq> hd_hash h"
        by (auto simp: replaces_def hs_def h_def)
      with * seen(4) distinct_numbers[OF sorted, of p "hs ! i"] show False by simp
    qed
    ultimately show ?thesis using seen eq cx1 by (auto simp: headers_after_def hs_def)
  next
    case missed
    then show ?thesis
      using append[OF above] eq cx1 anchor
        update_parent_taiko[OF b, of decode "cx1\<lparr>cx_last_l2_receive := now\<rparr>"] by auto
  next
    case older
    then have "hd_number h \<notin> pp_block_number ` set hs" by (auto simp: position_None)
    moreover from this have "pp_block_number (last hs) \<noteq> hd_number h"
      using last_in_set[OF older(1)] by (metis imageI)
    ultimately have "older_than_all b cx" "\<not> replaces b cx"
      using older(1,4) by (auto simp: older_than_all_def replaces_def hs_def h_def image_iff)
    then show ?thesis using older eq cx1 by (auto simp: headers_after_def hs_def)
  qed
qed

subsection \<open>Runs\<close>

lemma headers_after_sorted:
  "sorted_wrt (<) (map pp_block_number (cx_l2_headers cx)) \<Longrightarrow>
     sorted_wrt (<) (map pp_block_number (headers_after b cx))"
  by (auto simp: headers_after_def sorted_wrt_snoc parent_of_def sorted_keep_before dest: keep_before_less)

lemma headers_after_nonempty: "cx_l2_headers cx \<noteq> [] \<Longrightarrow> headers_after b cx \<noteq> []"
  by (simp add: headers_after_def)

lemma to_verify_after_ok:
  assumes "ctx_inv cx"
  shows "keyed_by_number (to_verify_after b cx)"
    and "\<forall>(k, h) \<in> set (to_verify_after b cx). hd_beneficiary h = cx_coinbase cx"
proof -
  show "keyed_by_number (to_verify_after b cx)"
    using assms by (auto simp: to_verify_after_def ctx_inv_def Let_def intro!: wf_intros)
  show "\<forall>(k, h) \<in> set (to_verify_after b cx). hd_beneficiary h = cx_coinbase cx"
    using assms set_bt_insert[of "hd_number (blk_header b)" "blk_header b" "cx_to_verify cx"]
    by (auto simp: to_verify_after_def ctx_inv_def Let_def set_bt_retain split: if_splits)
qed

text \<open>An origin block that confirms what we built, or that we did not build.\<close>

definition confirms :: "header \<Rightarrow> seq_context \<Rightarrow> bool" where
  "confirms h cx \<longleftrightarrow> (\<forall>p. bt_get (cx_to_verify cx) (hd_number h) = Some p \<longrightarrow> hd_hash p = hd_hash h)"

lemma new_origin_eq:
  "new_origin_l2_block h cx =
     (if confirms h cx
      then Inr (cx\<lparr>cx_to_verify :=
             (if bt_get (cx_to_verify cx) (hd_number h) \<noteq> None then bt_remove (hd_number h) (cx_to_verify cx)
              else if \<exists>bn p. bt_first (cx_to_verify cx) = Some (bn, p) \<and> bn < hd_number h
              then bt_retain (\<lambda>bn. hd_number h < bn) (cx_to_verify cx)
              else cx_to_verify cx),
           cx_l2_headers := dropWhile (\<lambda>p. pp_block_number p < hd_number h) (cx_l2_headers cx)\<rparr>)
      else Inl ''block verify mismatch'')"
proof (cases "bt_get (cx_to_verify cx) (hd_number h)")
  case None
  have "(case bt_first (cx_to_verify cx) of Some (bn, _) \<Rightarrow> bn < hd_number h | None \<Rightarrow> False) \<longleftrightarrow>
      (\<exists>bn p. bt_first (cx_to_verify cx) = Some (bn, p) \<and> bn < hd_number h)"
    by (auto split: option.splits simp del: bt_first_eq_None)
  with None show ?thesis
    by (cases cx) (simp only: new_origin_l2_block_def confirms_def option.case bindR_simps, auto)
next
  case (Some p)
  then show ?thesis by (simp add: new_origin_l2_block_def verify_and_log_block_def confirms_def)
qed

lemma sorted_dropWhile: "sorted_wrt R xs \<Longrightarrow> sorted_wrt R (dropWhile P xs)"
  by (metis sorted_wrt_append takeWhile_dropWhile_id)

lemma new_origin_inv:
  assumes "ctx_inv cx" "new_origin_l2_block h cx = Inr cx'"
  shows "ctx_inv cx'"
proof -
  have "sorted_wrt (<) (map pp_block_number (dropWhile P (cx_l2_headers cx)))" for P
    using assms(1) by (auto simp: ctx_inv_def sorted_wrt_map intro: sorted_dropWhile)
  with assms show ?thesis
    by (auto simp: new_origin_eq ctx_inv_def set_bt_retain set_bt_remove intro!: wf_intros split: if_splits)
qed

datatype ctx_event =
    L1Block instant header
  | L2Block instant block
  | OriginBlock header

fun ctx_step :: "(bytes \<Rightarrow> u64 option) \<Rightarrow> ctx_event \<Rightarrow> seq_context \<Rightarrow> seq_context run" where
  "ctx_step decode (L1Block now h) cx = Inr (new_l1_block now h cx)"
| "ctx_step decode (L2Block now b) cx = bindR (new_preconf_l2_block decode now b cx) (\<lambda>(_, cx'). Inr cx')"
| "ctx_step decode (OriginBlock h) cx = new_origin_l2_block h cx"

text \<open>What the node guarantees: preconfirmed blocks are Taiko blocks; confirmed blocks are not ahead
  of the last preconfirmed one and agree with ours.\<close>

fun ctx_legal :: "ctx_event \<Rightarrow> seq_context \<Rightarrow> bool" where
  "ctx_legal (L1Block now h) cx = True"
| "ctx_legal (L2Block now b) cx = taiko_block b"
| "ctx_legal (OriginBlock h) cx =
     (confirms h cx \<and> hd_number h \<le> pp_block_number (last (cx_l2_headers cx)))"

lemma ctx_step_safe:
  assumes "ctx_inv cx \<and> cx_l2_headers cx \<noteq> []" "ctx_legal e cx"
  shows "\<exists>cx'. ctx_step decode e cx = Inr cx' \<and> ctx_inv cx' \<and> cx_l2_headers cx' \<noteq> []"
proof (cases e)
  case (L1Block now h)
  with assms new_l1_block_inv[of cx now h] show ?thesis by (simp add: new_l1_block_def)
next
  case (L2Block now b)
  with assms have inv: "ctx_inv cx" and b: "taiko_block b" by simp_all
  from new_preconf_taiko[OF inv b, of decode now] obtain cx' where
    cx': "new_preconf_l2_block decode now b cx = Inr (replaces b cx, cx')"
    "cx_l2_headers cx' = headers_after b cx" "cx_to_verify cx' = to_verify_after b cx"
    "cx_l1_headers cx' = cx_l1_headers cx" "cx_coinbase cx' = cx_coinbase cx" by blast
  then have "ctx_inv cx'"
    using inv to_verify_after_ok[OF inv, of b] headers_after_sorted[of cx b] by (simp add: ctx_inv_def)
  with cx' assms headers_after_nonempty[of cx b] L2Block show ?thesis by simp
next
  case (OriginBlock h)
  with assms obtain cx' where cx': "new_origin_l2_block h cx = Inr cx'" by (simp add: new_origin_eq)
  from new_origin_inv[OF _ this] assms have "ctx_inv cx'" by simp
  moreover have "last (cx_l2_headers cx) \<in> set (cx_l2_headers cx)" using assms by simp
  then have "dropWhile (\<lambda>p. pp_block_number p < hd_number h) (cx_l2_headers cx) \<noteq> []"
    using assms(2) OriginBlock by (auto simp: not_less)
  ultimately show ?thesis
    using cx' OriginBlock assms(2) by (auto simp: new_origin_eq split: if_splits)
qed

interpretation chain_view: safe_system "ctx_step decode" ctx_legal
    "\<lambda>cx. ctx_inv cx \<and> cx_l2_headers cx \<noteq> []" for decode
  by unfold_locales (rule ctx_step_safe)

end
