(* ===== verification/Seq_Context_Props.thy ===== *)
theory Seq_Context_Props
  imports Seq_Context
begin

text \<open>
  What the chain view guarantees: it survives every stream of blocks that a node can send, keeps
  the L2 headers strictly increasing and never runs empty, reacts to each kind of L2 block as
  documented, checks our own blocks against the confirmed ones, and hands out an L1 header that is
  exactly as old as configured.
\<close>

subsection \<open>Fixtures\<close>

definition ex_header :: "u64 \<Rightarrow> b256 \<Rightarrow> b256 \<Rightarrow> address \<Rightarrow> header" where
  "ex_header n hash parent who =
     \<lparr>hd_number = n, hd_hash = hash, hd_parent_hash = parent, hd_state_root = 0,
      hd_beneficiary = who, hd_timestamp = 100 + n, hd_gas_used = 21000, hd_gas_limit = 30000000\<rparr>"

definition ex_block :: "u64 \<Rightarrow> b256 \<Rightarrow> b256 \<Rightarrow> address \<Rightarrow> block" where
  "ex_block n hash parent who =
     \<lparr>blk_header = ex_header n hash parent who, blk_full = True,
      blk_txs = [(GOLDEN_TOUCH_ADDRESS,
        \<lparr>tx_nonce = n, tx_max_fee_per_gas = 0, tx_priority_fee_or_price = 0, tx_hash = 0,
         tx_input = []\<rparr>)]\<rparr>"

definition ex_ctx :: seq_context where
  "ex_ctx = (seq_context_new 0 2 0 0 9)
     \<lparr>cx_l2_headers := [parent_of (ex_block 4 40 30 1), parent_of (ex_block 5 50 40 9)],
      cx_to_verify := [(5, ex_header 5 50 40 9)]\<rparr>"

lemma ex_ctx_inv: "ctx_inv ex_ctx \<and> cx_l2_headers ex_ctx \<noteq> []"
  by (simp add: ctx_inv_def ex_ctx_def seq_context_new_def keyed_by_number_def bt_wf_def
      parent_of_def ex_block_def ex_header_def)

lemma ex_block_taiko: "n \<noteq> 0 \<Longrightarrow> taiko_block (ex_block n hash parent who)"
  by (simp add: taiko_block_def ex_block_def ex_header_def as_transactions_def)

subsection \<open>Runs\<close>


definition ex_ctx_events :: "ctx_event list" where
  "ex_ctx_events =
     [L2Block 1 (ex_block 6 60 50 1), L1Block 2 (ex_header 100 1 0 0), L2Block 3 (ex_block 6 61 50 1),
      L2Block 4 (ex_block 7 70 61 9), OriginBlock (ex_header 5 50 40 9)]"

lemma ex_ctx_legal: "legal_run (ctx_step (\<lambda>_. Some 77)) ctx_legal ex_ctx_events ex_ctx"
  by (simp add: ex_ctx_events_def ex_block_taiko ex_ctx_def seq_context_new_def
      new_preconf_l2_block_def update_parent_block_id_def ex_block_def ex_header_def parent_of_def
      as_transactions_def from_header_and_anchor_nonce_def Let_def new_l1_block_def confirms_def
      bt_get_def bt_retain_def taiko_block_def new_origin_l2_block_def verify_and_log_block_def
      bt_remove_def)


text \<open>C20: What a preconfirmed block does: it becomes the parent, after the headers from its number on
  were dropped if it replaces one of them (the answer says so), unless it was seen before or is
  older than everything kept; our own blocks are remembered for verification, and a replacement
  forgets the pending verifications from its number on.\<close>

theorem preconf_block_branches:
  assumes "ctx_inv cx" "taiko_block b"
  shows "\<exists>cx'. new_preconf_l2_block decode now b cx = Inr (replaces b cx, cx') \<and>
    cx_l2_headers cx' =
      (if seen_before b cx \<or> older_than_all b cx then cx_l2_headers cx
       else keep_before (hd_number (blk_header b)) (cx_l2_headers cx) @ [parent_of b]) \<and>
    (\<forall>n. bt_get (cx_to_verify cx') n =
       (if replaces b cx \<and> hd_number (blk_header b) \<le> n then None
        else if hd_beneficiary (blk_header b) = cx_coinbase cx \<and> n = hd_number (blk_header b)
        then Some (blk_header b)
        else bt_get (cx_to_verify cx) n)) \<and>
    cx_l1_headers cx' = cx_l1_headers cx"
proof -
  have wf: "bt_wf (cx_to_verify cx)" using assms(1) by (simp add: ctx_inv_def keyed_by_number_def)
  have "bt_get (to_verify_after b cx) n =
       (if replaces b cx \<and> hd_number (blk_header b) \<le> n then None
        else if hd_beneficiary (blk_header b) = cx_coinbase cx \<and> n = hd_number (blk_header b)
        then Some (blk_header b)
        else bt_get (cx_to_verify cx) n)" for n
    using wf by (auto simp: to_verify_after_def Let_def bt.get_retain bt.get_insert bt_wf_insert)
  with new_preconf_taiko[OF assms, of decode now] show ?thesis
    unfolding headers_after_def by fastforce
qed

theorem preconf_block_branches_witness:
  "\<exists>cx'. new_preconf_l2_block (\<lambda>_. None) 1 (ex_block 5 51 40 1) ex_ctx = Inr (True, cx') \<and>
     cx_l2_headers cx' = [parent_of (ex_block 4 40 30 1), parent_of (ex_block 5 51 40 1)]"
proof -
  have "replaces (ex_block 5 51 40 1) ex_ctx" "\<not> seen_before (ex_block 5 51 40 1) ex_ctx"
    "\<not> older_than_all (ex_block 5 51 40 1) ex_ctx"
    "keep_before 5 (cx_l2_headers ex_ctx) = [parent_of (ex_block 4 40 30 1)]"
    "hd_number (blk_header (ex_block 5 51 40 1)) = 5"
    by (simp_all add: replaces_def seen_before_def older_than_all_def keep_before_def ex_ctx_def
        seq_context_new_def parent_of_def ex_block_def ex_header_def)
  with preconf_block_branches[OF conjunct1[OF ex_ctx_inv] ex_block_taiko[of 5 51 40 1],
      of "\<lambda>_. None" 1] show ?thesis by auto
qed

text \<open>A block of ours that replaces another block is never checked against the confirmed chain:
  the handler remembers it for verification and then drops every pending verification from its
  number on, its own included.\<close>

theorem own_reorg_block_unverified:
  assumes "ctx_inv cx" "taiko_block b" "replaces b cx"
    and "hd_beneficiary (blk_header b) = cx_coinbase cx"
    and "new_preconf_l2_block decode now b cx = Inr (r, cx')"
  shows "bt_get (cx_to_verify cx') (hd_number (blk_header b)) = None \<and>
    (\<forall>h. hd_number h = hd_number (blk_header b) \<longrightarrow> hd_hash h \<noteq> hd_hash (blk_header b) \<longrightarrow>
       (\<exists>cx''. new_origin_l2_block h cx' = Inr cx''))"
proof -
  have wf: "bt_wf (cx_to_verify cx)" using assms(1) by (simp add: ctx_inv_def keyed_by_number_def)
  from new_preconf_taiko[OF assms(1,2), of decode now] assms(5)
  have "cx_to_verify cx' = to_verify_after b cx" by auto
  with assms(3) have "bt_get (cx_to_verify cx') (hd_number (blk_header b)) = None"
    using wf by (auto simp: to_verify_after_def Let_def bt.get_retain bt_wf_insert)
  then show ?thesis by (auto simp: new_origin_eq confirms_def)
qed

theorem own_reorg_block_unverified_witness:
  "\<exists>r cx'. new_preconf_l2_block (\<lambda>_. None) 1 (ex_block 5 51 40 9) ex_ctx = Inr (r, cx') \<and>
     bt_get (cx_to_verify cx') 5 = None"
proof -
  obtain r cx' where run: "new_preconf_l2_block (\<lambda>_. None) 1 (ex_block 5 51 40 9) ex_ctx = Inr (r, cx')"
    using new_preconf_taiko[OF conjunct1[OF ex_ctx_inv] ex_block_taiko[of 5 51 40 9]] by force
  have pre: "replaces (ex_block 5 51 40 9) ex_ctx"
    "hd_beneficiary (blk_header (ex_block 5 51 40 9)) = cx_coinbase ex_ctx"
    "hd_number (blk_header (ex_block 5 51 40 9)) = 5"
    by (simp_all add: replaces_def ex_ctx_def seq_context_new_def parent_of_def ex_block_def
        ex_header_def)
  with own_reorg_block_unverified[OF conjunct1[OF ex_ctx_inv] ex_block_taiko[of 5 51 40 9] pre(1,2) run]
  show ?thesis using run by auto
qed

text \<open>A confirmed block is checked against ours: the handler panics exactly when a block of ours
  with that number awaits confirmation and has another hash.  Otherwise that block no longer
  awaits confirmation, and of the L2 headers exactly those below the confirmed number are
  dropped.\<close>

theorem origin_block_verified:
  assumes "ctx_inv cx"
  shows "(\<exists>m. new_origin_l2_block h cx = Inl m) =
      (\<exists>p. bt_get (cx_to_verify cx) (hd_number h) = Some p \<and> hd_hash p \<noteq> hd_hash h) \<and>
    (\<forall>cx'. new_origin_l2_block h cx = Inr cx' \<longrightarrow>
       bt_get (cx_to_verify cx') (hd_number h) = None \<and>
       cx_l2_headers cx' = filter (\<lambda>p. hd_number h \<le> pp_block_number p) (cx_l2_headers cx))"
proof -
  have wf: "bt_wf (cx_to_verify cx)" using assms(1) by (simp add: ctx_inv_def keyed_by_number_def)
  have "sorted_wrt (<) (map pp_block_number hs) \<Longrightarrow>
      dropWhile (\<lambda>p. pp_block_number p < n) hs = filter (\<lambda>p. n \<le> pp_block_number p) hs" for hs n
    by (induction hs) (auto simp: not_less intro!: filter_True[symmetric])
  from this[of "cx_l2_headers cx" "hd_number h"] assms
  have drop: "dropWhile (\<lambda>p. pp_block_number p < hd_number h) (cx_l2_headers cx) =
      filter (\<lambda>p. hd_number h \<le> pp_block_number p) (cx_l2_headers cx)"
    unfolding ctx_inv_def by blast
  show ?thesis
  proof (cases "confirms h cx")
    case False
    then show ?thesis by (auto simp: new_origin_eq confirms_def)
  next
    case True
    then show ?thesis
      unfolding new_origin_eq drop using wf
      by (auto simp: confirms_def bt.get_remove bt.get_retain)
  qed
qed

theorem origin_block_verified_witness:
  "(\<exists>m. new_origin_l2_block (ex_header 5 51 40 9) ex_ctx = Inl m)"
  using origin_block_verified[OF conjunct1[OF ex_ctx_inv], of "ex_header 5 51 40 9"]
  by (simp add: ex_ctx_def seq_context_new_def bt_get_def ex_header_def)

subsection \<open>The L1 header to anchor on\<close>

definition l1_numbers :: "seq_context \<Rightarrow> nat set" where
  "l1_numbers cx = (unat \<circ> fst) ` set (cx_l1_headers cx)"

lemma new_l1_block_numbers:
  assumes "unat (cx_l1_safe_lag cx) \<le> unat (hd_number h)"
  shows "l1_numbers (new_l1_block now h cx) =
    insert (unat (hd_number h))
      {n \<in> l1_numbers cx. unat (hd_number h) - unat (cx_l1_safe_lag cx) \<le> n}"
proof -
  have "unat (hd_number h - cx_l1_safe_lag cx) = unat (hd_number h) - unat (cx_l1_safe_lag cx)"
    using assms by (simp add: unat_sub word_le_nat_alt)
  moreover have "(unat \<circ> fst) ` set (bt_insert k v m) = insert (unat k) ((unat \<circ> fst) ` set m)"
    for k :: u64 and v and m :: "(u64, header) btree"
    using set_keys_bt_insert[of k v m] by (metis image_comp image_insert)
  ultimately show ?thesis
    by (auto simp: l1_numbers_def new_l1_block_def set_bt_retain word_le_nat_alt image_iff)
qed

lemma l1_chain_numbers:
  assumes "cx_l1_headers cx = []" "unat (cx_l1_safe_lag cx) \<le> n0"
    and "\<forall>i < length hs. unat (hd_number (hs ! i)) = n0 + i"
    and "hs \<noteq> []"
  shows "l1_numbers (fold (new_l1_block now) hs cx) =
      {max n0 (n0 + length hs - 1 - unat (cx_l1_safe_lag cx)) .. n0 + length hs - 1}"
    and "cx_l1_safe_lag (fold (new_l1_block now) hs cx) = cx_l1_safe_lag cx"
  using assms(3,4)
proof (induction hs rule: rev_induct)
  case (snoc h hs)
  {
    case 1
    have lag: "cx_l1_safe_lag (fold (new_l1_block now) hs cx) = cx_l1_safe_lag cx"
      using snoc.IH(2) 1 by (cases "hs = []") (auto simp: nth_append split: if_splits)
    have num: "unat (hd_number h) = n0 + length hs" using 1(1) by (auto simp: nth_append)
    have ih: "l1_numbers (fold (new_l1_block now) hs cx) =
        (if hs = [] then {}
         else {max n0 (n0 + length hs - 1 - unat (cx_l1_safe_lag cx)) .. n0 + length hs - 1})"
    proof (cases "hs = []")
      case True
      then show ?thesis using assms(1) by (simp add: l1_numbers_def)
    next
      case False
      have "\<forall>i < length hs. unat (hd_number (hs ! i)) = n0 + i"
        using 1(1) by (auto simp: nth_append split: if_splits)
      from snoc.IH(1)[OF this False] False show ?thesis by simp
    qed
    show ?case
      using new_l1_block_numbers[of "fold (new_l1_block now) hs cx" h now] num lag ih assms(2)
      by (cases "hs = []") auto
  next
    case 2
    then show ?case
      using snoc.IH(2) by (cases "hs = []") (auto simp: nth_append new_l1_block_def split: if_splits)
  }
qed simp_all

lemma new_l1_block_keyed:
  "keyed_by_number (cx_l1_headers cx) \<Longrightarrow> keyed_by_number (cx_l1_headers (new_l1_block now h cx))"
  by (simp add: new_l1_block_def keyed_insert keyed_retain)

lemma l1_inv_fold:
  "keyed_by_number (cx_l1_headers cx) \<Longrightarrow> keyed_by_number (cx_l1_headers (fold (new_l1_block now) hs cx))"
  by (induction hs arbitrary: cx) (auto intro: new_l1_block_keyed)

text \<open>The L1 header that a new anchor uses lags the L1 head by exactly the configured number of
  blocks (by less only while fewer have been seen), when L1 headers arrive one after the other.\<close>

theorem safe_l1_header_lag:
  assumes "cx_l1_headers cx = []" "unat (cx_l1_safe_lag cx) \<le> n0" "hs \<noteq> []"
    and "\<forall>i < length hs. unat (hd_number (hs ! i)) = n0 + i"
  shows "\<exists>h. safe_l1_header (fold (new_l1_block now) hs cx) = Some h \<and>
    unat (hd_number h) =
      (if unat (cx_l1_safe_lag cx) < length hs
       then unat (hd_number (last hs)) - unat (cx_l1_safe_lag cx) else n0)"
proof -
  let ?m = "cx_l1_headers (fold (new_l1_block now) hs cx)"
  have keyed: "keyed_by_number ?m"
    using l1_inv_fold[of cx now hs] assms(1) by (simp add: keyed_by_number_def)
  have nums: "(unat \<circ> fst) ` set ?m =
      {max n0 (n0 + length hs - 1 - unat (cx_l1_safe_lag cx)) .. n0 + length hs - 1}"
    using l1_chain_numbers(1)[OF assms(1,2,4,3)] by (simp add: l1_numbers_def)
  obtain l where len: "length hs = Suc l" using assms(3) by (cases hs) auto
  have lo: "max n0 (n0 + length hs - 1 - unat (cx_l1_safe_lag cx)) \<in> (unat \<circ> fst) ` set ?m"
    unfolding nums using len by auto
  then have "?m \<noteq> []" by auto
  then obtain k h es where m: "?m = (k, h) # es" by (cases ?m) auto
  have k: "hd_number h = k" "\<And>k'. k' \<in> fst ` set es \<Longrightarrow> k < k'"
    using keyed by (auto simp: m keyed_by_number_def bt_wf_def)
  have "unat k = max n0 (n0 + length hs - 1 - unat (cx_l1_safe_lag cx))"
  proof (rule antisym)
    show "unat k \<le> max n0 (n0 + length hs - 1 - unat (cx_l1_safe_lag cx))"
      using lo k(2) by (force simp: m word_less_nat_alt)
    have "unat k \<in> (unat \<circ> fst) ` set ?m" by (simp add: m)
    then show "max n0 (n0 + length hs - 1 - unat (cx_l1_safe_lag cx)) \<le> unat k" unfolding nums by simp
  qed
  moreover have "unat (hd_number (last hs)) = n0 + length hs - 1"
    using assms(3,4) len by (simp add: last_conv_nth)
  ultimately show ?thesis
    using k(1) len by (auto simp: safe_l1_header_def m bt_first_def)
qed

theorem safe_l1_header_lag_witness:
  "\<exists>h. safe_l1_header (fold (new_l1_block 0)
        [ex_header 100 1 0 0, ex_header 101 2 1 0, ex_header 102 3 2 0, ex_header 103 4 3 0]
        (seq_context_new 0 2 0 0 9)) = Some h \<and> unat (hd_number h) = 101"
proof -
  let ?hs = "[ex_header 100 1 0 0, ex_header 101 2 1 0, ex_header 102 3 2 0, ex_header 103 4 3 0]"
  have "\<forall>i < length ?hs. unat (hd_number (?hs ! i)) = 100 + i"
    by (auto simp: ex_header_def less_Suc_eq)
  with safe_l1_header_lag[of "seq_context_new 0 2 0 0 9" 100 ?hs 0] show ?thesis
    by (simp add: seq_context_new_def ex_header_def)
qed

end
