(* ===== verification/Batch_Data.thy ===== *)
theory Batch_Data
  imports Gw_Orders
begin

text \<open>
  What the sequencer hands to the proposer: \<open>crates/common/src/proposer.rs\<close> (batches, requests,
  the two process-wide atomics), \<open>BlockParams\<close> of \<open>crates/common/src/taiko/pacaya/mod.rs\<close>, and
  the parts of \<open>crates/common/src/config.rs\<close> that both read.
\<close>

subsection \<open>Batches\<close>

record block_params =
  bp_numTransactions :: u16
  bp_timeShift :: u8
  bp_signalSlots :: "b256 list"

record propose_batch_params =
  pb_anchor_block_id :: u64
  pb_start_block_num :: u64
  pb_end_block_num :: u64
  pb_last_timestamp :: u64
  pb_block_params :: "block_params list"
  pb_all_tx_list :: "order list"
  pb_compressed_est :: usize
  pb_coinbase :: address

definition propose_batch_params_default :: propose_batch_params where
  "propose_batch_params_default =
     \<lparr>pb_anchor_block_id = 0, pb_start_block_num = 0, pb_end_block_num = 0, pb_last_timestamp = 0,
      pb_block_params = [], pb_all_tx_list = [], pb_compressed_est = 0, pb_coinbase = 0\<rparr>"

datatype proposal_request =
    Batch propose_batch_params
  | Resync u64 u64

definition BLOBS_SAFE_SIZE :: usize where
  "BLOBS_SAFE_SIZE = 125000"

subsection \<open>Process-wide flags\<close>

text \<open>\<open>IS_PROPOSE_DELAYED\<close> and \<open>CURRENT_PROPOSALS\<close>; atomic addition and subtraction wrap.\<close>

record shared_flags =
  sh_propose_delayed :: bool
  sh_current_proposals :: usize

definition shared_flags_new :: shared_flags where
  "shared_flags_new = \<lparr>sh_propose_delayed = False, sh_current_proposals = 0\<rparr>"

definition set_propose_ok :: "shared_flags \<Rightarrow> shared_flags" where
  "set_propose_ok sh = sh\<lparr>sh_propose_delayed := False\<rparr>"

definition set_propose_delayed :: "shared_flags \<Rightarrow> shared_flags" where
  "set_propose_delayed sh = sh\<lparr>sh_propose_delayed := True\<rparr>"

definition is_propose_delayed :: "shared_flags \<Rightarrow> bool" where
  "is_propose_delayed sh = sh_propose_delayed sh"

definition add_pending :: "shared_flags \<Rightarrow> shared_flags" where
  "add_pending sh = sh\<lparr>sh_current_proposals := sh_current_proposals sh + 1\<rparr>"

definition add_n_pending :: "usize \<Rightarrow> shared_flags \<Rightarrow> shared_flags" where
  "add_n_pending n sh = sh\<lparr>sh_current_proposals := sh_current_proposals sh + n\<rparr>"

definition current_pending :: "shared_flags \<Rightarrow> usize" where
  "current_pending sh = sh_current_proposals sh"

definition remove_pending :: "shared_flags \<Rightarrow> shared_flags" where
  "remove_pending sh = sh\<lparr>sh_current_proposals := sh_current_proposals sh - 1\<rparr>"

subsection \<open>Configuration\<close>

record base_fee_config =
  bf_adjustment_quotient :: u8
  bf_sharing_pctg :: u8
  bf_gas_issuance_per_second :: u32
  bf_min_gas_excess :: u64
  bf_max_gas_issuance_per_block :: u32

record taiko_chain_params =
  cp_chain_id :: u64
  cp_base_fee_config :: base_fee_config
  cp_max_anchor_height_offset :: u64
  cp_max_anchor_timestamp_offset :: u64
  cp_block_max_gas_limit :: u128
  cp_bond_base :: b256
  cp_bond_per_block :: b256
  cp_max_blocks_per_batch :: usize

definition taiko_chain_params_new ::
    "u64 \<Rightarrow> base_fee_config \<Rightarrow> u64 \<Rightarrow> u64 \<Rightarrow> b256 \<Rightarrow> b256 \<Rightarrow> usize \<Rightarrow> taiko_chain_params" where
  "taiko_chain_params_new chain_id bf max_anchor_height_offset block_max_gas_limit bond_base
      bond_per_block max_blocks_per_batch =
     \<lparr>cp_chain_id = chain_id, cp_base_fee_config = bf,
      cp_max_anchor_height_offset = max_anchor_height_offset,
      cp_max_anchor_timestamp_offset = max_anchor_height_offset * 12,
      cp_block_max_gas_limit = ucast block_max_gas_limit,
      cp_bond_base = bond_base, cp_bond_per_block = bond_per_block,
      cp_max_blocks_per_batch = max_blocks_per_batch\<rparr>"

definition safe_anchor_height_offset :: "taiko_chain_params \<Rightarrow> u64" where
  "safe_anchor_height_offset cp = cp_max_anchor_height_offset cp - 2"

record sequencer_config =
  sc_target_block_time :: duration
  sc_coinbase_address :: address
  sc_operator_address :: address
  sc_l1_delay :: duration
  sc_l1_safe_lag :: u64
  sc_anchor_batch_lag :: u64
  sc_max_sims_per_loop :: usize
  sc_throttle_queue_target :: usize
  sc_batch_target_size :: usize
  sc_min_orders_before_seal :: u64
  sc_max_block_skips :: u64

end
