(* ===== verification/Anchor_Tx.thy ===== *)
theory Anchor_Tx
  imports Batch_Data
begin

text \<open>
  The block environment and the anchor transaction: \<open>get_difficulty\<close> and \<open>get_extra_data\<close> of
  \<open>crates/common/src/taiko/mod.rs\<close>, \<open>compute_next_base_fee\<close> and \<open>assemble_anchor_v3\<close> of
  \<open>crates/common/src/taiko/pacaya/anchor.rs\<close>, \<open>assemble_anchor\<close> and \<open>simulate_anchor\<close> of
  \<open>crates/sequencer/src/simulator.rs\<close>, and \<open>get_block_env_from_anchor\<close> of
  \<open>crates/sequencer/src/sequencer.rs\<close>.

  Parameters: \<open>keccak256\<close>, the ABI encoding of the \<open>anchorV3\<close> call, the signature of the golden
  touch key, and the answers of the L2 contract and of the simulator.
\<close>

text \<open>\<open>to_be_bytes\<close> of an \<open>n\<close>-byte integer.\<close>

definition be_bytes :: "nat \<Rightarrow> nat \<Rightarrow> bytes" where
  "be_bytes n v = map (\<lambda>i. of_nat (v div 256 ^ (n - 1 - i) mod 256)) [0..<n]"

definition from_be_bytes :: "bytes \<Rightarrow> nat" where
  "from_be_bytes bs = foldl (\<lambda>acc b. acc * 256 + unat b) 0 bs"

lemma length_be_bytes [simp]: "length (be_bytes n v) = n"
  by (simp add: be_bytes_def)

lemma be_bytes_Suc: "be_bytes (Suc n) v = be_bytes n (v div 256) @ [of_nat (v mod 256)]"
proof (rule nth_equalityI)
  fix i assume "i < length (be_bytes (Suc n) v)"
  then have "i < Suc n" by simp
  show "be_bytes (Suc n) v ! i = (be_bytes n (v div 256) @ [of_nat (v mod 256)]) ! i"
  proof (cases "i < n")
    case True
    then have "n - i = Suc (n - 1 - i)" by simp
    then show ?thesis using True
      by (simp add: be_bytes_def nth_append div_mult2_eq[symmetric] mult.commute)
  next
    case False
    with \<open>i < Suc n\<close> show ?thesis by (simp add: be_bytes_def nth_append)
  qed
qed simp

text \<open>Reading the bytes back.\<close>

lemma from_be_bytes_snoc: "from_be_bytes (bs @ [b]) = from_be_bytes bs * 256 + unat b"
  by (simp add: from_be_bytes_def)

lemma from_be_be_bytes: "v < 256 ^ n \<Longrightarrow> from_be_bytes (be_bytes n v) = v"
proof (induction n arbitrary: v)
  case 0
  then show ?case by (simp add: be_bytes_def from_be_bytes_def)
next
  case (Suc n)
  have "v div 256 < 256 ^ n" using Suc.prems by (simp add: div_less_iff_less_mult mult.commute)
  moreover have "unat (of_nat (v mod 256) :: u8) = v mod 256"
    by (simp add: unat_of_nat take_bit_eq_mod)
  ultimately show ?case
    using Suc.IH[of "v div 256"] by (simp add: be_bytes_Suc from_be_bytes_snoc)
qed

subsection \<open>Difficulty and extra data\<close>

definition ascii :: "string \<Rightarrow> bytes" where
  "ascii s = map (\<lambda>c. of_nat (of_char c)) s"

text \<open>\<open>(\"TAIKO_DIFFICULTY\", bn).abi_encode_params()\<close>: the offset of the string, the number, the
  string's length and its padded bytes.\<close>

definition abi_difficulty :: "u64 \<Rightarrow> bytes" where
  "abi_difficulty bn =
     be_bytes 32 64 @ be_bytes 32 (unat bn) @ be_bytes 32 16 @
     ascii ''TAIKO_DIFFICULTY'' @ replicate 16 0"

definition get_difficulty :: "(bytes \<Rightarrow> b256) \<Rightarrow> u64 \<Rightarrow> b256" where
  "get_difficulty keccak256 bn = keccak256 (abi_difficulty bn)"

definition get_extra_data :: "u8 \<Rightarrow> bytes" where
  "get_extra_data sharing_pct = be_bytes 32 (unat sharing_pct)"

subsection \<open>The block environment\<close>

record block_env =
  be_number :: b256
  be_coinbase :: address
  be_timestamp :: b256
  be_gas_limit :: b256
  be_basefee :: b256
  be_difficulty :: b256
  be_prevrandao :: "b256 option"
  be_blob_excess_gas_and_price :: "unit option"

definition get_block_env_from_anchor ::
    "(bytes \<Rightarrow> b256) \<Rightarrow> u64 \<Rightarrow> u128 \<Rightarrow> address \<Rightarrow> u64 \<Rightarrow> u128 \<Rightarrow> block_env" where
  "get_block_env_from_anchor keccak256 block_number max_gas_limit coinbase timestamp base_fee =
     (let gas_limit = max_gas_limit + ucast ANCHOR_GAS_LIMIT;
          difficulty = get_difficulty keccak256 block_number
      in \<lparr>be_number = ucast block_number, be_coinbase = coinbase, be_timestamp = ucast timestamp,
          be_gas_limit = ucast gas_limit, be_basefee = ucast base_fee, be_difficulty = difficulty,
          be_prevrandao = Some difficulty, be_blob_excess_gas_and_price = None\<rparr>)"

subsection \<open>The anchor transaction\<close>

record tx_eip1559 =
  te_chain_id :: u64
  te_nonce :: u64
  te_gas_limit :: u64
  te_max_fee_per_gas :: u128
  te_max_priority_fee_per_gas :: u128
  te_to :: address
  te_value :: b256
  te_input :: bytes

type_synonym abi_anchor = "u64 \<Rightarrow> b256 \<Rightarrow> u32 \<Rightarrow> base_fee_config \<Rightarrow> b256 list \<Rightarrow> bytes"

definition assemble_anchor_v3 ::
    "abi_anchor \<Rightarrow> (tx_eip1559 \<Rightarrow> tx_envelope option) \<Rightarrow> taiko_chain_params \<Rightarrow> address \<Rightarrow>
     parent_params \<Rightarrow> anchor_params \<Rightarrow> u128 \<Rightarrow> tx_envelope run" where
  "assemble_anchor_v3 abi sign_golden cp l2_contract parent anchor l2_base_fee =
     (let input = abi (ap_block_id anchor) (ap_state_root anchor) (pp_gas_used parent)
                    (cp_base_fee_config cp) [];
          tx = \<lparr>te_chain_id = cp_chain_id cp, te_nonce = pp_anchor_nonce parent + 1,
                te_gas_limit = ANCHOR_GAS_LIMIT, te_max_fee_per_gas = l2_base_fee,
                te_max_priority_fee_per_gas = 0, te_to = l2_contract, te_value = 0,
                te_input = input\<rparr>
      in (case sign_golden tx of
            None \<Rightarrow> Inl ''failed golden touch signature''
          | Some signed_tx \<Rightarrow> Inr signed_tx))"

text \<open>The two levels of failure: the outer sum is a panic, the inner one an error that the caller
  handles.  \<open>get_basefee\<close> is the contract call \<open>getBasefeeV2\<close>, a 256-bit value.\<close>

definition compute_next_base_fee ::
    "(u32 \<Rightarrow> u64 \<Rightarrow> base_fee_config \<Rightarrow> string + b256) \<Rightarrow> u64 \<Rightarrow> base_fee_config \<Rightarrow> parent_params \<Rightarrow>
     (string + u128) run" where
  "compute_next_base_fee get_basefee timestamp bf parent =
     (if timestamp < pp_timestamp parent
      then Inl ''assertion failed: timestamp >= parent.timestamp''
      else Inr (bindR (get_basefee (pp_gas_used parent) timestamp bf) (\<lambda>base_fee.
             if unat base_fee < 2 ^ 128 then Inr (ucast base_fee)
             else Inl ''out of range integral type conversion attempted'')))"

record anchor_io =
  aio_abi :: abi_anchor
  aio_sign :: "tx_eip1559 \<Rightarrow> tx_envelope option"
  aio_encoded_2718 :: "tx_envelope \<Rightarrow> bytes"
  aio_get_basefee :: "u32 \<Rightarrow> u64 \<Rightarrow> base_fee_config \<Rightarrow> string + b256"
  aio_simulate :: "bytes \<Rightarrow> block_env \<Rightarrow> bytes \<Rightarrow> string + execution_result"
  aio_keccak :: "bytes \<Rightarrow> b256"

definition assemble_anchor ::
    "anchor_io \<Rightarrow> taiko_chain_params \<Rightarrow> address \<Rightarrow> u64 \<Rightarrow> parent_params \<Rightarrow> anchor_params \<Rightarrow>
     (string + (order \<times> u128)) run" where
  "assemble_anchor io cp l2_contract timestamp parent anchor =
     bindR (compute_next_base_fee (aio_get_basefee io) timestamp (cp_base_fee_config cp) parent)
       (\<lambda>fee. case fee of
          Inl e \<Rightarrow> Inr (Inl e)
        | Inr l2_base_fee \<Rightarrow>
            bindR (assemble_anchor_v3 (aio_abi io) (aio_sign io) cp l2_contract parent anchor l2_base_fee)
              (\<lambda>tx. Inr (Inr (order_new_with_sender (aio_encoded_2718 io) tx GOLDEN_TOUCH_ADDRESS,
                              l2_base_fee))))"

definition simulate_anchor ::
    "anchor_io \<Rightarrow> order \<Rightarrow> block_env \<Rightarrow> bytes \<Rightarrow> string + execution_result" where
  "simulate_anchor io tx env extra_data = aio_simulate io (ord_raw tx) env extra_data"

end
