(* ===== verification/Rust_Str.thy ===== *)
theory Rust_Str
  imports Gw_Prelude
begin

text \<open>
  The string methods of the Rust standard library that the sources use, on ASCII strings:
  \<open>starts_with\<close>, \<open>find\<close> of a substring or of a character class, \<open>contains\<close>, \<open>split\<close> by a
  substring, and \<open>parse::<u64>\<close> / \<open>parse::<u128>\<close>.
\<close>

fun strip_prefix :: "string \<Rightarrow> string \<Rightarrow> string option" where
  "strip_prefix [] s = Some s"
| "strip_prefix (p # ps) [] = None"
| "strip_prefix (p # ps) (c # s) = (if p = c then strip_prefix ps s else None)"

definition starts_with :: "string \<Rightarrow> string \<Rightarrow> bool" where
  "starts_with p s \<longleftrightarrow> strip_prefix p s \<noteq> None"

text \<open>\<open>find_str pat s\<close> is the text before and after the first occurrence.\<close>

fun find_str :: "string \<Rightarrow> string \<Rightarrow> (string \<times> string) option" where
  "find_str pat [] = (if pat = [] then Some ([], []) else None)"
| "find_str pat (c # s) =
     (case strip_prefix pat (c # s) of
        Some rest \<Rightarrow> Some ([], rest)
      | None \<Rightarrow> map_option (\<lambda>(before, after). (c # before, after)) (find_str pat s))"

definition contains :: "string \<Rightarrow> string \<Rightarrow> bool" where
  "contains s pat \<longleftrightarrow> find_str pat s \<noteq> None"

lemma strip_prefix_Some: "strip_prefix p s = Some r \<longleftrightarrow> s = p @ r"
  by (induction p s rule: strip_prefix.induct) auto

lemma find_str_Some: "find_str pat s = Some (a, b) \<Longrightarrow> s = a @ pat @ b"
  by (induction pat s arbitrary: a b rule: find_str.induct)
     (auto simp: strip_prefix_Some split: option.splits if_splits)

lemma strip_prefix_append [simp]: "strip_prefix p (p @ r) = Some r"
  by (simp add: strip_prefix_Some)

lemma find_str_exists: "find_str pat (a @ pat @ b) \<noteq> None"
proof (induction a)
  case Nil
  show ?case
  proof (cases "pat @ b")
    case (Cons c s)
    with strip_prefix_append[of pat b] show ?thesis by simp
  qed simp
next
  case (Cons c a)
  then show ?case by (auto split: option.splits)
qed

lemma contains_iff: "contains s pat \<longleftrightarrow> (\<exists>a b. s = a @ pat @ b)"
  using find_str_Some find_str_exists unfolding contains_def by fastforce

lemma find_str_length: "find_str pat s = Some (a, b) \<Longrightarrow> length b + length pat \<le> length s"
  using find_str_Some by fastforce

subsection \<open>Splitting\<close>

text \<open>\<open>split\<close> by a non-empty pattern, and \<open>split_once\<close>, which is \<open>find_str\<close>.\<close>

function split_str :: "string \<Rightarrow> string \<Rightarrow> string list" where
  "split_str pat s =
     (if pat = [] then [s]
      else case find_str pat s of None \<Rightarrow> [s] | Some (a, b) \<Rightarrow> a # split_str pat b)"
  by auto
termination
proof (relation "measure (\<lambda>(pat, s). length s)", goal_cases)
  case (2 pat s x a b)
  from 2(2,3) have "length b + length pat \<le> length s" by (auto dest: find_str_length)
  moreover have "0 < length pat" using 2(1) by simp
  ultimately have "length b < length s" by linarith
  then show ?case by simp
qed simp

declare split_str.simps [simp del]

lemma strip_prefix_no_head:
  "pat \<noteq> [] \<Longrightarrow> hd pat \<notin> set s \<Longrightarrow> strip_prefix pat s = None"
  by (cases pat; cases s) auto

lemma find_str_no_head: "pat \<noteq> [] \<Longrightarrow> hd pat \<notin> set s \<Longrightarrow> find_str pat s = None"
  by (induction pat s rule: find_str.induct) (auto simp: strip_prefix_no_head)

text \<open>The first occurrence is found right after text that does not contain the pattern's first
  character.\<close>

lemma find_str_after:
  "pat \<noteq> [] \<Longrightarrow> hd pat \<notin> set a \<Longrightarrow> find_str pat (a @ pat @ b) = Some (a, b)"
proof (induction a)
  case Nil
  then obtain p ps where pat: "pat = p # ps" by (cases pat) auto
  have "strip_prefix pat (pat @ b) = Some b" by simp
  then show ?case by (simp add: pat)
next
  case (Cons c a)
  have "strip_prefix pat ((c # a) @ pat @ b) = None"
    using Cons.prems by (cases pat) auto
  with Cons show ?case by simp
qed

lemma find_str_skip:
  "pat \<noteq> [] \<Longrightarrow> hd pat \<notin> set a \<Longrightarrow>
     find_str pat (a @ s) = map_option (\<lambda>(x, y). (a @ x, y)) (find_str pat s)"
proof (induction a)
  case Nil
  show ?case by (cases "find_str pat s") auto
next
  case (Cons c a)
  have "strip_prefix pat (c # a @ s) = None" using Cons.prems by (cases pat) auto
  with Cons show ?case by (cases "find_str pat s") auto
qed

subsection \<open>Numbers\<close>

definition is_digit :: "char \<Rightarrow> bool" where
  "is_digit c \<longleftrightarrow> 48 \<le> (of_char c :: nat) \<and> (of_char c :: nat) \<le> 57"

definition digits_value :: "string \<Rightarrow> nat" where
  "digits_value s = foldl (\<lambda>acc c. acc * 10 + (of_char c - 48)) 0 s"

text \<open>\<open>parse\<close> of an unsigned integer: an optional plus sign and at least one digit.\<close>

definition parse_nat :: "string \<Rightarrow> nat option" where
  "parse_nat s =
     (let ds = (case strip_prefix ''+'' s of Some r \<Rightarrow> r | None \<Rightarrow> s)
      in if ds \<noteq> [] \<and> list_all is_digit ds then Some (digits_value ds) else None)"

definition parse_uint :: "string \<Rightarrow> 'a::len word option" where
  "parse_uint s =
     (case parse_nat s of
        Some n \<Rightarrow> if n < 2 ^ LENGTH('a) then Some (of_nat n) else None
      | None \<Rightarrow> None)"

text \<open>Decimal notation, as \<open>Display\<close> prints it.\<close>

fun decimal :: "nat \<Rightarrow> string" where
  "decimal n =
     (if n < 10 then [char_of (48 + n)] else decimal (n div 10) @ [char_of (48 + n mod 10)])"

declare decimal.simps [simp del]

lemma is_digit_char [simp]: "n < 10 \<Longrightarrow> is_digit (char_of (48 + n :: nat))"
  by (simp add: is_digit_def)

lemma decimal_digits: "list_all is_digit (decimal n)"
  by (induction n rule: decimal.induct) (auto simp: decimal.simps[of n for n])

lemma decimal_nonempty [simp]: "decimal n \<noteq> []"
  by (subst decimal.simps) simp

lemma digits_value_snoc: "digits_value (s @ [c]) = digits_value s * 10 + (of_char c - 48)"
  by (simp add: digits_value_def)

lemma digits_value_decimal: "digits_value (decimal n) = n"
proof (induction n rule: decimal.induct)
  case (1 n)
  show ?case
  proof (cases "n < 10")
    case True
    then show ?thesis by (simp add: decimal.simps[of n] digits_value_def)
  next
    case False
    with 1 show ?thesis by (simp add: decimal.simps[of n] digits_value_snoc)
  qed
qed

lemma not_digit_decimal: "\<not> is_digit c \<Longrightarrow> c \<notin> set (decimal n)"
  using decimal_digits by (auto simp: list_all_iff)

lemma parse_nat_decimal [simp]: "parse_nat (decimal n) = Some n"
proof -
  obtain d ds where d: "decimal n = d # ds" by (cases "decimal n") auto
  have "is_digit d" using decimal_digits[of n] by (simp add: d)
  then have "d \<noteq> CHR ''+''" by (auto simp: is_digit_def)
  then have "strip_prefix ''+'' (decimal n) = None" by (simp add: d)
  then show ?thesis using decimal_digits digits_value_decimal by (simp add: parse_nat_def)
qed

lemma parse_uint_decimal [simp]: "parse_uint (decimal (unat w)) = Some (w :: 'a::len word)"
  using unsigned_less[of w, where ?'a = nat] by (simp add: parse_uint_def)

end
