(* ===== verification/Seq_Machine.thy ===== *)
theory Seq_Machine
  imports Tx_Pool Seq_Context Lookahead Batch_Data Anchor_Tx Rust_Str
begin

text \<open>
  The sequencer, \<open>Sequencer\<close> of \<open>crates/sequencer/src/sequencer.rs\<close>: every iteration of \<open>run\<close> is
  \<open>tick\<close> (new blocks and transactions, simulation results, capabilities, anchor) followed by
  \<open>state_transition\<close>.

  The channels are queues; \<open>proposer_tx\<close> is the list of requests sent.  Each iteration has an
  input: one reading of each clock, how long the channels may be drained, and the answers of the
  services (node, contract, simulator, soft block endpoint).  The floating point throttle and the
  compressed size estimate are parameters, as is everything in \<open>anchor_io\<close>.  Metrics, logs and
  the HTTP details of the calls are left out.
\<close>

subsection \<open>Errors\<close>

datatype sequencer_error =
    RpcCall string
  | RpcOther string
  | SoftBlock u16 string
  | StatusError u16 string
  | ReqwestError string
  | SerdeJsonError string

fun is_nil_block :: "sequencer_error \<Rightarrow> bool" where
  "is_nil_block (RpcCall msg) = contains msg ''block is nil''"
| "is_nil_block _ = False"

subsection \<open>State\<close>

record sequencer_flags =
  fl_can_sequence :: bool
  fl_can_propose :: bool
  fl_proposing_delayed :: bool
  fl_l1_delayed :: bool
  fl_lookahead_sequence :: bool

definition sequencer_flags_default :: sequencer_flags where
  "sequencer_flags_default =
     \<lparr>fl_can_sequence = False, fl_can_propose = False, fl_proposing_delayed = False,
      fl_l1_delayed = False, fl_lookahead_sequence = False\<rparr>"

record timings =
  tm_last_anchor_error :: instant
  tm_last_status_check :: instant
  tm_last_tx_pool_check :: instant
  tm_start_produce_block :: instant

definition timings_new :: "instant \<Rightarrow> timings" where
  "timings_new now =
     \<lparr>tm_last_anchor_error = now, tm_last_status_check = now, tm_last_tx_pool_check = now,
      tm_start_produce_block = now\<rparr>"

definition ANCHOR_RETRY_INTERVAL :: duration where
  "ANCHOR_RETRY_INTERVAL = from_millis 500"

definition MAX_ANCHOR_ERRORS :: u64 where
  "MAX_ANCHOR_ERRORS = 20"

definition should_log_tx_pool :: "instant \<Rightarrow> timings \<Rightarrow> bool" where
  "should_log_tx_pool now tm \<longleftrightarrow> from_secs 30 < elapsed now (tm_last_tx_pool_check tm)"

definition can_retry_anchor :: "instant \<Rightarrow> timings \<Rightarrow> bool" where
  "can_retry_anchor now tm \<longleftrightarrow> ANCHOR_RETRY_INTERVAL < elapsed now (tm_last_anchor_error tm)"

definition should_check_status :: "instant \<Rightarrow> timings \<Rightarrow> bool" where
  "should_check_status now tm \<longleftrightarrow> from_secs 2 < elapsed now (tm_last_status_check tm)"

definition can_produce_block :: "instant \<Rightarrow> timings \<Rightarrow> bool" where
  "can_produce_block now tm \<longleftrightarrow> tm_start_produce_block tm < now"

record spine =
  sp_rpc_rx :: "order list"
  sp_mempool_rx :: "order list"
  sp_proposer_tx :: "proposal_request list"
  sp_l1_blocks_rx :: "header list"
  sp_l2_blocks_rx :: "block list"
  sp_origin_blocks_rx :: "header list"
  sp_sim_rx :: "(string + simulated_order) list"

definition spine_new :: spine where
  "spine_new = \<lparr>sp_rpc_rx = [], sp_mempool_rx = [], sp_proposer_tx = [], sp_l1_blocks_rx = [],
     sp_l2_blocks_rx = [], sp_origin_blocks_rx = [], sp_sim_rx = []\<rparr>"

record sequencer =
  sq_config :: sequencer_config
  sq_chain_config :: taiko_chain_params
  sq_l2_contract :: address
  sq_ctx :: seq_context
  sq_tx_pool :: tx_pool
  sq_spine :: spine
  sq_lookahead :: lookahead_handle
  sq_flags :: sequencer_flags
  sq_proposer_request :: "propose_batch_params option"
  sq_anchor_error_count :: u64
  sq_needs_status_check :: bool
  sq_timings :: timings
  sq_previous_skip_reason :: "string option"
  sq_shared :: shared_flags

definition sequencer_new ::
    "instant \<Rightarrow> sequencer_config \<Rightarrow> taiko_chain_params \<Rightarrow> address \<Rightarrow> lookahead_handle \<Rightarrow> u64 \<Rightarrow> u64 \<Rightarrow>
     shared_flags \<Rightarrow> sequencer" where
  "sequencer_new now config cp l2_contract la l2_origin0 l1_number shared =
     \<lparr>sq_config = config, sq_chain_config = cp, sq_l2_contract = l2_contract,
      sq_ctx = seq_context_new now (sc_l1_safe_lag config) l2_origin0 l1_number
                 (sc_coinbase_address config),
      sq_tx_pool = tx_pool_new, sq_spine = spine_new, sq_lookahead = la,
      sq_flags = sequencer_flags_default, sq_proposer_request = None, sq_anchor_error_count = 0,
      sq_needs_status_check = True, sq_timings = timings_new now, sq_previous_skip_reason = None,
      sq_shared = shared\<rparr>"

text \<open>The answer to \<open>seal_block\<close>.\<close>

record seal_block_response =
  sr_cumulative_builder_payment :: u128
  sr_cumulative_gas_used :: u64
  sr_built_block :: block

datatype channel = L1Rx | L2Rx | OriginRx | RpcRx | MempoolRx

text \<open>\<open>in_late c i\<close>: the time for draining channel \<open>c\<close> is over after its \<open>i\<close>-th item.\<close>

record loop_input =
  in_now :: instant
  in_utc :: u64
  in_late :: "channel \<Rightarrow> nat \<Rightarrow> bool"
  in_pool_nonce :: "address \<Rightarrow> u64 option"
  in_status :: "sequencer_error + u64"
  in_anchor_io :: anchor_io
  in_seal :: "state_id \<Rightarrow> sequencer_error + seal_block_response"
  in_gossip :: "block \<Rightarrow> bool \<Rightarrow> sequencer_error + unit"
  in_took :: duration

record seq_params =
  pr_est :: "usize \<Rightarrow> usize"
  pr_throttle :: "usize \<Rightarrow> usize \<Rightarrow> usize"
  pr_decode :: "bytes \<Rightarrow> u64 option"

subsection \<open>Receiving\<close>

text \<open>\<open>receive_for\<close>: items are handled in order until the channel is empty or the time is over.
  The remaining items stay in the channel.\<close>

fun receive_for ::
    "('a \<Rightarrow> 's \<Rightarrow> 's run) \<Rightarrow> (nat \<Rightarrow> bool) \<Rightarrow> nat \<Rightarrow> 'a list \<Rightarrow> 's \<Rightarrow> ('s \<times> 'a list) run" where
  "receive_for handler late i [] s = Inr (s, [])"
| "receive_for handler late i (x # xs) s =
     bindR (handler x s) (\<lambda>s'.
       if late i then Inr (s', xs) else receive_for handler late (Suc i) xs s')"

text \<open>The panic of \<open>recv_blocks\<close> on a reorg inside the pending batch.\<close>

definition on_l2_block ::
    "seq_params \<Rightarrow> instant \<Rightarrow> block \<Rightarrow> sequencer \<Rightarrow> sequencer run" where
  "on_l2_block pr now b s =
     bindR (new_preconf_l2_block (pr_decode pr) now b (sq_ctx s)) (\<lambda>(reorged, cx).
       if reorged \<and> (case sq_proposer_request s of
                        Some req \<Rightarrow> hd_number (blk_header b) \<le> pb_end_block_num req
                      | None \<Rightarrow> False)
       then Inl ''reorged block in batch, triggering resync''
       else Inr (s\<lparr>sq_ctx := cx\<rparr>))"

definition on_l1_block :: "instant \<Rightarrow> header \<Rightarrow> sequencer \<Rightarrow> sequencer run" where
  "on_l1_block now h s = Inr (s\<lparr>sq_ctx := new_l1_block now h (sq_ctx s)\<rparr>)"

definition on_origin_block :: "header \<Rightarrow> sequencer \<Rightarrow> sequencer run" where
  "on_origin_block h s =
     bindR (new_origin_l2_block h (sq_ctx s)) (\<lambda>cx. Inr (s\<lparr>sq_ctx := cx\<rparr>))"

definition recv_blocks :: "seq_params \<Rightarrow> loop_input \<Rightarrow> sequencer \<Rightarrow> sequencer run" where
  "recv_blocks pr inp s0 =
     bindR (receive_for (on_l1_block (in_now inp)) (in_late inp L1Rx) 0
              (sp_l1_blocks_rx (sq_spine s0)) s0) (\<lambda>(s, rest).
     (let s1 = s\<lparr>sq_spine := (sq_spine s)\<lparr>sp_l1_blocks_rx := rest\<rparr>\<rparr> in
     bindR (receive_for (on_l2_block pr (in_now inp)) (in_late inp L2Rx) 0
              (sp_l2_blocks_rx (sq_spine s1)) s1) (\<lambda>(s, rest).
     (let s2 = s\<lparr>sq_spine := (sq_spine s)\<lparr>sp_l2_blocks_rx := rest\<rparr>\<rparr> in
     bindR (receive_for on_origin_block (in_late inp OriginRx) 0
              (sp_origin_blocks_rx (sq_spine s2)) s2) (\<lambda>(s, rest).
     Inr (s\<lparr>sq_spine := (sq_spine s)\<lparr>sp_origin_blocks_rx := rest\<rparr>\<rparr>))))))"

definition handle_tx :: "duration \<Rightarrow> u64 \<Rightarrow> order \<Rightarrow> sequencer \<Rightarrow> sequencer run" where
  "handle_tx took parent_block tx s =
     bindR (case cx_state (sq_ctx s) of
              Sorting sd \<Rightarrow> bindR (handle_new_tx took tx sd) (\<lambda>sd'.
                              Inr (s\<lparr>sq_ctx := (sq_ctx s)\<lparr>cx_state := Sorting sd'\<rparr>\<rparr>))
            | Sync _ \<Rightarrow> Inr s) (\<lambda>s1.
     bindR (tp_put tx parent_block (sq_tx_pool s1)) (\<lambda>tp. Inr (s1\<lparr>sq_tx_pool := tp\<rparr>)))"

definition fetch_txs :: "loop_input \<Rightarrow> sequencer \<Rightarrow> sequencer run" where
  "fetch_txs inp s0 =
     bindR (l2_parent (sq_ctx s0)) (\<lambda>parent.
     bindR (receive_for (handle_tx (in_took inp) (pp_block_number parent)) (in_late inp RpcRx) 0
              (sp_rpc_rx (sq_spine s0)) s0) (\<lambda>(s, rest).
     (let s1 = s\<lparr>sq_spine := (sq_spine s)\<lparr>sp_rpc_rx := rest\<rparr>\<rparr> in
     bindR (receive_for (handle_tx (in_took inp) (pp_block_number parent)) (in_late inp MempoolRx) 0
              (sp_mempool_rx (sq_spine s1)) s1) (\<lambda>(s, rest).
     Inr (s\<lparr>sq_spine := (sq_spine s)\<lparr>sp_mempool_rx := rest\<rparr>\<rparr>)))))"

definition handle_sims :: "loop_input \<Rightarrow> sequencer \<Rightarrow> sequencer run" where
  "handle_sims inp s =
     (case sp_sim_rx (sq_spine s) of
        [] \<Rightarrow> Inr s
      | res # rest \<Rightarrow>
          (let s1 = s\<lparr>sq_spine := (sq_spine s)\<lparr>sp_sim_rx := rest\<rparr>\<rparr> in
           case res of
             Inl err \<Rightarrow> Inl (''failed sim: '' @ err)
           | Inr sim \<Rightarrow>
               (case cx_state (sq_ctx s1) of
                  Sync _ \<Rightarrow> Inr s1
                | Sorting sd \<Rightarrow> bindR (handle_sim (in_took inp) sim sd) (\<lambda>sd'.
                    Inr (s1\<lparr>sq_ctx := (sq_ctx s1)\<lparr>cx_state := Sorting sd'\<rparr>\<rparr>)))))"

definition is_ready :: "sequencer \<Rightarrow> bool" where
  "is_ready s \<longleftrightarrow>
     sc_l1_safe_lag (sq_config s) \<le> len64 (cx_l1_headers (sq_ctx s)) \<and> cx_l2_headers (sq_ctx s) \<noteq> []"

subsection \<open>Sending batches\<close>

definition send_batch_to_proposer :: "bool \<Rightarrow> sequencer \<Rightarrow> sequencer" where
  "send_batch_to_proposer state_check s =
     (case cx_state (sq_ctx s) of
        Sorting sd \<Rightarrow>
          if state_check
          then s\<lparr>sq_ctx := (sq_ctx s)\<lparr>cx_state := Sorting (set_should_seal sd)\<rparr>\<rparr>
          else (case sq_proposer_request s of
                  None \<Rightarrow> s
                | Some request \<Rightarrow>
                    s\<lparr>sq_proposer_request := None, sq_shared := add_pending (sq_shared s),
                      sq_spine := (sq_spine s)
                        \<lparr>sp_proposer_tx := sp_proposer_tx (sq_spine s) @ [Batch request]\<rparr>\<rparr>)
      | Sync _ \<Rightarrow>
          (case sq_proposer_request s of
             None \<Rightarrow> s
           | Some request \<Rightarrow>
               s\<lparr>sq_proposer_request := None, sq_shared := add_pending (sq_shared s),
                 sq_spine := (sq_spine s)
                   \<lparr>sp_proposer_tx := sp_proposer_tx (sq_spine s) @ [Batch request]\<rparr>\<rparr>))"

subsection \<open>Capabilities\<close>

definition check_can_sequence :: "instant \<Rightarrow> u64 \<Rightarrow> sequencer \<Rightarrow> sequencer run" where
  "check_can_sequence now utc s =
     (let sequence_start = fl_can_sequence (sq_flags s);
          operator = sc_operator_address (sq_config s);
          propose_delayed = is_propose_delayed (sq_shared s);
          l1_delayed = sc_l1_delay (sq_config s) < elapsed now (cx_last_l1_receive (sq_ctx s));
          (is_current, h1) = is_current_operator now operator (sq_lookahead s)
      in bindR (can_sequence now utc operator h1) (\<lambda>((can_seq, reason), h2).
           (let skip =
                  (if can_seq \<noteq> fl_lookahead_sequence (sq_flags s) then sq_previous_skip_reason s
                   else if is_current \<and> \<not> can_seq \<and> sq_previous_skip_reason s = None then Some reason
                   else if \<not> is_current then None
                   else sq_previous_skip_reason s);
                now_can = (\<not> propose_delayed \<and> \<not> l1_delayed \<and> can_seq)
            in Inr (s\<lparr>sq_lookahead := h2,
                      sq_previous_skip_reason := skip,
                      sq_flags := (sq_flags s)\<lparr>fl_proposing_delayed := propose_delayed,
                        fl_l1_delayed := l1_delayed, fl_lookahead_sequence := can_seq,
                        fl_can_sequence := now_can\<rparr>,
                      sq_needs_status_check :=
                        (if now_can \<and> \<not> sequence_start then True else sq_needs_status_check s)\<rparr>))))"

text \<open>\<open>unwrap_or\<close> evaluates its argument, the parent block, in any case.\<close>

definition check_resync :: "sequencer \<Rightarrow> sequencer run" where
  "check_resync s =
     (let origin = l2_origin (sq_ctx s) in
      bindR (l2_parent (sq_ctx s)) (\<lambda>parent.
        (let target = (case sq_proposer_request s of
                         Some p \<Rightarrow> pb_start_block_num p - 1
                       | None \<Rightarrow> pp_block_number parent)
         in Inr (if origin < target
                 then s\<lparr>sq_spine := (sq_spine s)
                          \<lparr>sp_proposer_tx := sp_proposer_tx (sq_spine s) @ [Resync origin target]\<rparr>\<rparr>
                 else s))))"

definition check_can_propose :: "instant \<Rightarrow> u64 \<Rightarrow> sequencer \<Rightarrow> sequencer run" where
  "check_can_propose now utc s =
     bindR (Lookahead.can_propose now utc (sc_operator_address (sq_config s)) (sq_lookahead s))
       (\<lambda>((can, reason), h).
         (let s1 = s\<lparr>sq_lookahead := h\<rparr> in
          if can = fl_can_propose (sq_flags s1) then Inr s1
          else bindR (if can then check_resync s1 else Inr s1) (\<lambda>s2.
                 Inr (s2\<lparr>sq_flags := (sq_flags s2)\<lparr>fl_can_propose := can\<rparr>\<rparr>))))"

definition check_time_shift :: "u64 \<Rightarrow> sequencer \<Rightarrow> bool" where
  "check_time_shift utc s =
     (case sq_proposer_request s of
        Some p \<Rightarrow> 230 < saturating_sub utc (pb_last_timestamp p)
      | None \<Rightarrow> False)"

subsection \<open>Anchors\<close>

definition update_anchor :: "u64 \<Rightarrow> header \<Rightarrow> sequencer \<Rightarrow> sequencer" where
  "update_anchor utc safe s =
     (let new = \<lparr>ap_block_id = hd_number safe, ap_state_root = hd_state_root safe,
                 ap_created_at = utc\<rparr>
      in send_batch_to_proposer True (s\<lparr>sq_ctx := (sq_ctx s)\<lparr>cx_anchor := Some new\<rparr>\<rparr>))"

definition pending_est :: "sequencer \<Rightarrow> usize" where
  "pending_est s = (case sq_proposer_request s of Some p \<Rightarrow> pb_compressed_est p | None \<Rightarrow> 0)"

definition maybe_refresh_anchor :: "u64 \<Rightarrow> sequencer \<Rightarrow> sequencer" where
  "maybe_refresh_anchor utc s =
     (case safe_l1_header (sq_ctx s) of
        None \<Rightarrow> s
      | Some safe \<Rightarrow>
          (case cx_anchor (sq_ctx s) of
             None \<Rightarrow> update_anchor utc safe s
           | Some ctx_anchor \<Rightarrow>
               if hd_number safe \<le> ap_block_id ctx_anchor then s
               else if sc_anchor_batch_lag (sq_config s) * 12 < utc - ap_created_at ctx_anchor
               then update_anchor utc safe s
               else if sc_batch_target_size (sq_config s) < pending_est s
               then update_anchor utc safe s
               else s))"

definition needs_anchor_refresh :: "anchor_params \<Rightarrow> sequencer \<Rightarrow> bool" where
  "needs_anchor_refresh ap s =
     (case cx_anchor (sq_ctx s) of Some a \<Rightarrow> ap_block_id a \<noteq> ap_block_id ap | None \<Rightarrow> True)"

text \<open>\<open>Duration::as_secs\<close> of the block time.\<close>

definition as_secs :: "duration \<Rightarrow> u64" where
  "as_secs d = of_nat (d div 1000000000)"

definition anchor_block ::
    "loop_input \<Rightarrow> sequencer \<Rightarrow> (string + (state_id \<times> block_info)) run" where
  "anchor_block inp s =
     (case cx_anchor (sq_ctx s) of
        None \<Rightarrow> Inr (Inl ''no anchor'')
      | Some anchor \<Rightarrow>
          bindR (l2_parent (sq_ctx s)) (\<lambda>parent.
            (let timestamp = in_utc inp + as_secs (sc_target_block_time (sq_config s)) in
             bindR (assemble_anchor (in_anchor_io inp) (sq_chain_config s) (sq_l2_contract s)
                      timestamp parent anchor) (\<lambda>assembled.
               case assembled of
                 Inl e \<Rightarrow> Inr (Inl e)
               | Inr (tx, l2_base_fee) \<Rightarrow>
                   (let block_number = pp_block_number parent + 1;
                        env = get_block_env_from_anchor (aio_keccak (in_anchor_io inp)) block_number
                                (cp_block_max_gas_limit (sq_chain_config s))
                                (sc_coinbase_address (sq_config s)) timestamp l2_base_fee;
                        bi = \<lparr>bi_anchor_params = anchor, bi_block_number = block_number,
                              bi_base_fee = l2_base_fee, bi_parent_hash = pp_hash parent\<rparr>;
                        extra_data = get_extra_data (bf_sharing_pctg (cp_base_fee_config (sq_chain_config s)))
                    in (case simulate_anchor (in_anchor_io inp) tx env extra_data of
                          Inr (Success st _ _) \<Rightarrow> Inr (Inr (st, bi))
                        | Inr _ \<Rightarrow> Inr (Inl ''failed simulate anchor'')
                        | Inl err \<Rightarrow> Inr (Inl (''failed simulate anchor, err='' @ err))))))))"

subsection \<open>Sealing\<close>

text \<open>The part of \<open>seal_block\<close> after the soft block is out: the pool, the chain view and the batch.\<close>

definition time_shift_of :: "block \<Rightarrow> propose_batch_params \<Rightarrow> u8 run" where
  "time_shift_of b request =
     (let d = saturating_sub (hd_timestamp (blk_header b)) (pb_last_timestamp request)
      in if unat d < 256 then Inr (ucast d) else Inl ''exceeed u8 time shift'')"

definition add_block ::
    "(usize \<Rightarrow> usize) \<Rightarrow> address \<Rightarrow> sort_data \<Rightarrow> block \<Rightarrow> propose_batch_params option \<Rightarrow>
     propose_batch_params run" where
  "add_block est coinbase sd b pending =
     (let block_number = hd_number (blk_header b);
          ap = bi_anchor_params (sd_block_info sd)
      in bindR
           (case pending of
              None \<Rightarrow> Inr (propose_batch_params_default
                \<lparr>pb_anchor_block_id := ap_block_id ap, pb_start_block_num := block_number,
                 pb_coinbase := coinbase\<rparr>, 0)
            | Some r \<Rightarrow>
                if pb_anchor_block_id r \<noteq> ap_block_id ap then Inl ''assertion failed: request.anchor_block_id == anchor_params.block_id''
                else bindR (time_shift_of b r) (\<lambda>ts. Inr (r, ts)))
           (\<lambda>(request, time_shift).
             (let r1 = request
                    \<lparr>pb_end_block_num := block_number,
                     pb_last_timestamp := hd_timestamp (blk_header b),
                     pb_block_params := pb_block_params request @
                       [\<lparr>bp_numTransactions = ucast (len64 (blk_txs b) - 1),
                         bp_timeShift = time_shift, bp_signalSlots = []\<rparr>]\<rparr>
              in if len64 (blk_txs b) \<noteq> len64 (sd_orders sd) + 1
                 then Inl ''mismatch in tx from block and sorting''
                 else Inr (r1\<lparr>pb_all_tx_list := pb_all_tx_list r1 @ sd_orders sd,
                              pb_compressed_est := pb_compressed_est r1 + est (sd_uncompressed_size sd)\<rparr>))))"

definition seal_block ::
    "seq_params \<Rightarrow> loop_input \<Rightarrow> sort_data \<Rightarrow> sequencer \<Rightarrow> (sequencer_error option \<times> sequencer) run" where
  "seal_block pr inp sd s =
     (case in_seal inp (sd_state_id sd) of
        Inl e \<Rightarrow> Inr (Some e, s)
      | Inr res \<Rightarrow>
          (let b = sr_built_block res in
           case in_gossip inp b False of
             Inl e \<Rightarrow> Inr (Some e, s)
           | Inr _ \<Rightarrow>
               (let s1 = s\<lparr>sq_tx_pool := update_new_block (sd_nonces sd) (sq_tx_pool s)\<rparr> in
                bindR (new_preconf_l2_block (pr_decode pr) (in_now inp) b (sq_ctx s1)) (\<lambda>(_, cx).
                  (let s2 = s1\<lparr>sq_ctx := cx\<rparr> in
                   bindR (add_block (pr_est pr) (sc_coinbase_address (sq_config s2)) sd b
                            (sq_proposer_request s2)) (\<lambda>request.
                     (let s3 = s2\<lparr>sq_proposer_request := Some request\<rparr> in
                      Inr (None,
                        if needs_anchor_refresh (bi_anchor_params (sd_block_info sd)) s3
                        then send_batch_to_proposer False s3 else s3))))))))"

subsection \<open>The loop\<close>

definition tick :: "seq_params \<Rightarrow> loop_input \<Rightarrow> sequencer \<Rightarrow> sequencer run" where
  "tick pr inp s0 =
     bindR (recv_blocks pr inp s0) (\<lambda>s1.
     bindR (fetch_txs inp s1) (\<lambda>s2.
     bindR (handle_sims inp s2) (\<lambda>s3.
     bindR (check_can_sequence (in_now inp) (in_utc inp) s3) (\<lambda>s4.
     bindR (check_can_propose (in_now inp) (in_utc inp) s4) (\<lambda>s5.
     bindR (if fl_can_sequence (sq_flags s5)
            then (let s6 = maybe_refresh_anchor (in_utc inp) s5 in
                  if should_log_tx_pool (in_now inp) (sq_timings s6)
                  then bindR (l2_parent (sq_ctx s6)) (\<lambda>parent.
                         Inr (s6\<lparr>sq_tx_pool := report_and_sanity_check (pp_block_number parent)
                                   (in_pool_nonce inp) (in_utc inp) (sq_tx_pool s6),
                                 sq_timings := (sq_timings s6)\<lparr>tm_last_tx_pool_check := in_now inp\<rparr>\<rparr>))
                  else Inr s6)
            else Inr s5) (\<lambda>s7.
     bindR (should_clear_proposal (in_now inp) (in_utc inp) (sc_operator_address (sq_config s7))
              (sq_lookahead s7)) (\<lambda>((clear, _), h).
     (let s8 = s7\<lparr>sq_lookahead := h\<rparr>;
          s9 = (if clear then send_batch_to_proposer True s8 else s8)
      in Inr (if check_time_shift (in_utc inp) s9 then send_batch_to_proposer True s9 else s9)))))))))"

text \<open>The branch of \<open>state_transition\<close> that starts a block.  The answer is the next state.\<close>

definition start_block ::
    "loop_input \<Rightarrow> usize \<Rightarrow> sequencer \<Rightarrow> (sequencer_state \<times> sequencer) run" where
  "start_block inp throttled_block_size s =
     bindR (anchor_block inp s) (\<lambda>anchored.
       case anchored of
         Inr (st, bi) \<Rightarrow>
           (let s1 = s\<lparr>sq_anchor_error_count := 0\<rparr> in
            bindR (tp_active_orders (bi_block_number bi) (bi_base_fee bi) (sq_tx_pool s1)) (\<lambda>(tp, active).
              (let sd = sort_data_new (in_now inp) bi st
                          (case active of Some ao \<Rightarrow> ao | None \<Rightarrow> ao_empty)
                          (cp_block_max_gas_limit (sq_chain_config s1))
                          (sc_target_block_time (sq_config s1)) throttled_block_size
                          (sc_min_orders_before_seal (sq_config s1))
                          (sc_max_block_skips (sq_config s1))
               in Inr (Sorting sd,
                    s1\<lparr>sq_tx_pool := tp,
                       sq_timings := (sq_timings s1)\<lparr>tm_start_produce_block :=
                         in_now inp + sc_target_block_time (sq_config s1)\<rparr>\<rparr>))))
       | Inl _ \<Rightarrow>
           (let s1 = s\<lparr>sq_timings := (sq_timings s)\<lparr>tm_last_anchor_error := in_now inp\<rparr>,
                       sq_anchor_error_count := sq_anchor_error_count s + 1\<rparr>
            in if MAX_ANCHOR_ERRORS < sq_anchor_error_count s1
               then Inl ''too many anchor errors, resetting''
               else Inr (sequencer_state_default, s1)))"

definition status_check ::
    "loop_input \<Rightarrow> sequencer \<Rightarrow> (bool \<times> sequencer) run" where
  "status_check inp s =
     (if sq_needs_status_check s \<and> should_check_status (in_now inp) (sq_timings s)
      then (let s1 = s\<lparr>sq_timings := (sq_timings s)\<lparr>tm_last_status_check := in_now inp\<rparr>\<rparr> in
            case in_status inp of
              Inr status_block \<Rightarrow>
                bindR (l2_parent (sq_ctx s1)) (\<lambda>parent.
                  if pp_block_number parent < status_block then Inr (False, s1)
                  else Inr (True, s1\<lparr>sq_needs_status_check := False\<rparr>))
            | Inl _ \<Rightarrow> Inr (False, s1))
      else Inr (True, s))"

definition transition_sync ::
    "seq_params \<Rightarrow> loop_input \<Rightarrow> u64 \<Rightarrow> sequencer \<Rightarrow> (sequencer_state \<times> sequencer) run" where
  "transition_sync pr inp last_l1 s =
     (case safe_l1_header (sq_ctx s) of
        None \<Rightarrow> Inr (Sync last_l1, s)
      | Some safe \<Rightarrow>
          if hd_number safe < cx_parent_anchor_block_id (sq_ctx s) then Inr (Sync (hd_number safe), s)
          else if \<not> fl_can_sequence (sq_flags s) then Inr (sequencer_state_default, s)
          else
            (let max_block_size = saturating_sub (sc_batch_target_size (sq_config s)) (pending_est s);
                 throttled = pr_throttle pr (current_pending (sq_shared s)) max_block_size
             in if max_block_size = 0 then Inr (sequencer_state_default, s)
                else if \<not> can_retry_anchor (in_now inp) (sq_timings s) then Inr (sequencer_state_default, s)
                else if \<not> can_produce_block (in_now inp) (sq_timings s) then Inr (sequencer_state_default, s)
                else bindR (status_check inp s) (\<lambda>(passed, s1).
                       if passed then start_block inp throttled s1
                       else Inr (sequencer_state_default, s1))))"

definition transition_seal ::
    "seq_params \<Rightarrow> loop_input \<Rightarrow> sort_data \<Rightarrow> sequencer \<Rightarrow> (sequencer_state \<times> sequencer) run" where
  "transition_seal pr inp sd s =
     bindR (seal_block pr inp sd s) (\<lambda>(err, s1).
       case err of
         None \<Rightarrow> Inr (sequencer_state_default,
                   s1\<lparr>sq_timings := (sq_timings s1)\<lparr>tm_last_tx_pool_check := in_now inp\<rparr>\<rparr>)
       | Some e \<Rightarrow>
           if (case e of SoftBlock _ _ \<Rightarrow> True | _ \<Rightarrow> is_nil_block e)
           then Inr (sequencer_state_default, s1\<lparr>sq_tx_pool := clear_nonces (sq_tx_pool s1)\<rparr>)
           else Inl ''failed seal block'')"

definition transition_discard :: "sort_data \<Rightarrow> sequencer \<Rightarrow> (sequencer_state \<times> sequencer) run" where
  "transition_discard sd s =
     (let s1 = s\<lparr>sq_tx_pool := clear_nonces (sq_tx_pool s)\<rparr>
      in Inr (sequencer_state_default,
           if needs_anchor_refresh (bi_anchor_params (sd_block_info sd)) s1
           then send_batch_to_proposer False s1 else s1))"

text \<open>The requests for simulations that \<open>maybe_sim_next_batch\<close> spawns are not used here: their
  answers arrive on \<open>sim_rx\<close>.\<close>

definition state_transition ::
    "seq_params \<Rightarrow> loop_input \<Rightarrow> sequencer_state \<Rightarrow> sequencer \<Rightarrow> (sequencer_state \<times> sequencer) run" where
  "state_transition pr inp st s =
     (case st of
        Sync last_l1 \<Rightarrow> transition_sync pr inp last_l1 s
      | Sorting sd \<Rightarrow>
          if should_discard sd then transition_discard sd s
          else if should_seal (in_now inp) sd then transition_seal pr inp sd s
          else bindR (maybe_sim_next_batch (pr_est pr) (sc_max_sims_per_loop (sq_config s))
                        (in_now inp) (in_took inp) sd) (\<lambda>(sd', _).
                 Inr (Sorting sd', s)))"

text \<open>\<open>std::mem::take\<close> leaves the default state behind while the transition runs.\<close>

definition loop_step :: "seq_params \<Rightarrow> loop_input \<Rightarrow> sequencer \<Rightarrow> sequencer run" where
  "loop_step pr inp s0 =
     bindR (tick pr inp s0) (\<lambda>s1.
     (let st = cx_state (sq_ctx s1);
          s2 = s1\<lparr>sq_ctx := (sq_ctx s1)\<lparr>cx_state := sequencer_state_default\<rparr>\<rparr>
      in bindR (state_transition pr inp st s2) (\<lambda>(st', s3).
           Inr (s3\<lparr>sq_ctx := (sq_ctx s3)\<lparr>cx_state := st'\<rparr>\<rparr>))))"

text \<open>Before the loop: only blocks are received until the sequencer is ready.\<close>

definition wait_ready :: "seq_params \<Rightarrow> loop_input \<Rightarrow> sequencer \<Rightarrow> sequencer run" where
  "wait_ready pr inp s = (if is_ready s then Inr s else recv_blocks pr inp s)"

end
