(* ===== verification/Seq_Inv.thy ===== *)
theory Seq_Inv
  imports Seq_Machine Sort_Loop
begin

text \<open>
  The invariant of the sequencer loop and its preservation by every operation.  It joins the
  invariants of the components with the bookkeeping of batches: \<open>hist\<close>, the history of all sealed
  blocks, is exactly the sequence of the batches that were sent followed by the pending one.

  An iteration keeps the invariant or stops with one of the panics that the code raises on
  purpose (\<open>deliberate\<close>).
\<close>

subsection \<open>Panics that are meant to happen\<close>

inductive deliberate :: "string \<Rightarrow> bool" where
  "deliberate ''reorged block in batch, triggering resync''"
| "deliberate ''block verify mismatch''"
| "deliberate ''l2 headers should never be empty''"
| "deliberate ''too many anchor errors, resetting''"
| "deliberate ''failed seal block''"
| "deliberate ''exceeed u8 time shift''"
| "deliberate ''mismatch in tx from block and sorting''"
| "deliberate ''assertion failed: request.anchor_block_id == anchor_params.block_id''"
| "deliberate ''assertion failed: timestamp >= parent.timestamp''"
| "deliberate ''failed golden touch signature''"
| "deliberate (''failed sim: '' @ err)"

lemmas deliberate_simps [simp] = deliberate.intros

abbreviation ok :: "('a \<Rightarrow> bool) \<Rightarrow> 'a run \<Rightarrow> bool" where
  "ok \<equiv> guarded deliberate"

subsection \<open>The block under construction\<close>

definition best_sound :: "sort_data \<Rightarrow> bool" where
  "best_sound sd \<longleftrightarrow> (\<forall>nb. sd_next_best sd = Some nb \<longrightarrow>
     vo_origin_state_id nb = sd_state_id sd \<and> vo_gas_used nb \<le> sd_gas_remaining sd)"

definition sd_ok :: "sort_data \<Rightarrow> bool" where
  "sd_ok sd \<longleftrightarrow>
     ao_wf (sd_active_orders sd) \<and> sorting_nonces_wf (sd_nonces sd) \<and> best_sound sd"

lemma sd_ok_new: "ao_wf ao \<Longrightarrow> sd_ok (sort_data_new now bi a ao g bt mbs mo ms)"
  by (simp add: sd_ok_def best_sound_def sort_data_new_def)

lemma sd_ok_same:
  assumes "sd_ok sd" "same_core sd sd'" "ao_wf (sd_active_orders sd')"
    "sorting_nonces_wf (sd_nonces sd')" "sd_next_best sd' = sd_next_best sd"
  shows "sd_ok sd'"
  using assms by (auto simp: sd_ok_def best_sound_def same_core_def)

lemma sd_ok_seal_flag [simp]: "sd_ok (set_should_seal sd) \<longleftrightarrow> sd_ok sd"
  by (simp add: sd_ok_def best_sound_def set_should_seal_def)

lemma handle_new_tx_sd_ok: "sd_ok sd \<Longrightarrow> ok sd_ok (handle_new_tx took o1 sd)"
  using handle_new_tx_ok[of sd took o1] sd_ok_same[of sd] by (auto simp: sd_ok_def)

lemma best_after_sound:
  assumes "best_sound sd" "same_core sd sd'" "sd_next_best sd' = best_after sd v"
    and "vo_origin_state_id v = sd_state_id sd"
  shows "best_sound sd'"
  using assms by (auto simp: best_sound_def same_core_def best_after_def not_less
      split: option.splits if_splits)

lemma handle_sim_sd_ok:
  assumes "sd_ok sd"
  shows "ok sd_ok (handle_sim took sim sd)"
proof (cases "so_origin_state_id sim = sd_state_id sd")
  case False
  from handle_sim_stale[OF this, of took] assms show ?thesis
    by (auto simp: sd_ok_def best_sound_def)
next
  case True
  have wf: "ao_wf (sd_active_orders sd)" "sorting_nonces_wf (sd_nonces sd)" "best_sound sd"
    using assms by (simp_all add: sd_ok_def)
  from handle_sim_ok[OF wf(1,2) True, of took] obtain sd' where
    sd': "handle_sim took sim sd = Inr sd'" "same_core sd sd'" "ao_wf (sd_active_orders sd')"
      "sorting_nonces_wf (sd_nonces sd')"
      "sd_next_best sd' = (case candidate sim of Some v \<Rightarrow> best_after sd v | None \<Rightarrow> sd_next_best sd)"
    by blast
  have "best_sound sd'"
  proof (cases "candidate sim")
    case None
    with sd'(5) have "sd_next_best sd' = sd_next_best sd" by simp
    with wf(3) sd'(2) show ?thesis by (simp add: best_sound_def same_core_def)
  next
    case (Some v)
    with sd'(5) have "sd_next_best sd' = best_after sd v" by simp
    from best_after_sound[OF wf(3) sd'(2) this] candidate_parts[OF Some] True show ?thesis by simp
  qed
  with sd' show ?thesis by (simp add: sd_ok_def)
qed

lemma apply_best_sd_ok:
  assumes "ao_wf (sd_active_orders sd)" "sorting_nonces_wf (sd_nonces sd)" "sd_next_best sd = None"
    and "vo_origin_state_id nb = sd_state_id sd" "vo_gas_used nb \<le> sd_gas_remaining sd"
  shows "\<exists>sd'. apply_best est nb sd = Inr sd' \<and> sd_ok sd' \<and> sd_next_best sd' = None"
  using assms by (auto simp: apply_best_def sd_is_valid_def Let_def sd_ok_def best_sound_def)

lemma maybe_apply_next_sd_ok:
  assumes "sd_ok sd"
  shows "\<exists>sd'. maybe_apply_next est now sd = Inr sd' \<and> sd_ok sd' \<and> sd_next_best sd' = None"
proof (cases "sd_next_best sd")
  case None
  with assms show ?thesis by (auto simp: maybe_apply_next_def sd_ok_def best_sound_def)
next
  case (Some nb)
  with assms have "vo_origin_state_id nb = sd_state_id sd" "vo_gas_used nb \<le> sd_gas_remaining sd"
    by (auto simp: sd_ok_def best_sound_def)
  then obtain sd' where "apply_best est nb (sd\<lparr>sd_next_best := None\<rparr>) = Inr sd'" "sd_ok sd'"
      "sd_next_best sd' = None"
    using apply_best_sd_ok[of "sd\<lparr>sd_next_best := None\<rparr>" nb est] assms by (auto simp: sd_ok_def)
  with Some show ?thesis by (auto simp: maybe_apply_next_def sd_ok_def best_sound_def)
qed

lemma get_next_best_wf:
  assumes "ao_wf ao" "get_next_best mx sn f ao = (txs, ao')"
  shows "ao_wf ao'"
  using assms take_ready_wf[of "ao_tx_lists ao" "unat mx" sn f]
    take_ready_senders[of "unat mx" sn f "ao_tx_lists ao"]
  by (auto simp: ao_wf_def get_next_best_def Let_def split: prod.splits)

lemma maybe_sim_next_batch_sd_ok:
  assumes "sd_ok sd"
  shows "ok (\<lambda>(sd', sent). sd_ok sd') (maybe_sim_next_batch est mx now took sd)"
proof (cases "0 < sd_in_flight_sims sd \<or> should_seal now sd")
  case True
  with assms show ?thesis
    by (auto simp: maybe_sim_next_batch_def maybe_sim_next_batch_core_def sd_ok_def best_sound_def)
next
  case False
  from maybe_apply_next_sd_ok[OF assms] obtain sd1 where
    sd1: "maybe_apply_next est now sd = Inr sd1" "sd_ok sd1" "sd_next_best sd1 = None" by blast
  obtain txs ao where ready: "get_next_best mx (sd_nonces sd1) (bi_base_fee (sd_block_info sd1))
      (sd_active_orders sd1) = (txs, ao)" by fastforce
  have "ao_wf ao" using get_next_best_wf[OF _ ready] sd1(2) by (simp add: sd_ok_def)
  with False sd1 ready show ?thesis
    by (auto simp: maybe_sim_next_batch_def maybe_sim_next_batch_core_def sd_ok_def best_sound_def
        Let_def)
qed

fun state_ok :: "sequencer_state \<Rightarrow> bool" where
  "state_ok (Sync _) = True"
| "state_ok (Sorting sd) = sd_ok sd"

subsection \<open>Batches and history\<close>

type_synonym sealed = "(block \<times> sort_data) list"

definition block_ts :: "block \<times> sort_data \<Rightarrow> u64" where
  "block_ts x = hd_timestamp (blk_header (fst x))"

fun shifts :: "sealed \<Rightarrow> nat list" where
  "shifts (x # y # xs) = (unat (block_ts y) - unat (block_ts x)) # shifts (y # xs)"
| "shifts _ = []"

text \<open>A batch describes a segment of the history.\<close>

definition represents :: "(usize \<Rightarrow> usize) \<Rightarrow> address \<Rightarrow> propose_batch_params \<Rightarrow> sealed \<Rightarrow> bool" where
  "represents est coinbase r seg \<longleftrightarrow>
     seg \<noteq> [] \<and>
     pb_start_block_num r = hd_number (blk_header (fst (hd seg))) \<and>
     pb_end_block_num r = hd_number (blk_header (fst (last seg))) \<and>
     pb_last_timestamp r = block_ts (last seg) \<and>
     pb_coinbase r = coinbase \<and>
     (\<forall>x \<in> set seg. ap_block_id (bi_anchor_params (sd_block_info (snd x))) = pb_anchor_block_id r) \<and>
     pb_all_tx_list r = concat (map (sd_orders \<circ> snd) seg) \<and>
     map bp_numTransactions (pb_block_params r) =
       map (\<lambda>x. of_nat (length (sd_orders (snd x)))) seg \<and>
     map (unat \<circ> bp_timeShift) (pb_block_params r) = 0 # shifts seg \<and>
     pb_compressed_est r = (\<Sum>x\<leftarrow>seg. est (sd_uncompressed_size (snd x)))"

lemma shifts_snoc: "seg \<noteq> [] \<Longrightarrow> shifts (seg @ [x]) = shifts seg @ [unat (block_ts x) - unat (block_ts (last seg))]"
  by (induction seg rule: shifts.induct) auto

lemma ucast_len64: "(ucast (len64 ys) :: u16) = of_nat (length ys)"
proof -
  have "length ys mod 2 ^ 64 mod 2 ^ 16 = length ys mod 2 ^ 16"
    by (rule mod_mod_cancel) simp
  then show ?thesis
    by (simp add: len64_def unsigned_of_nat take_bit_eq_mod word_of_nat_eq_iff)
qed

lemma add_block_first:
  assumes "add_block est coinbase sd b None = Inr r"
  shows "represents est coinbase r [(b, sd)]"
  using assms
  by (auto simp: add_block_def represents_def propose_batch_params_default_def block_ts_def Let_def
      ucast_len64 split: if_splits)

lemma add_block_next:
  assumes "represents est coinbase r seg" "add_block est cb sd b (Some r) = Inr r'"
  shows "represents est coinbase r' (seg @ [(b, sd)])"
proof -
  from assms(2) obtain ts where ts: "time_shift_of b r = Inr ts"
    "pb_anchor_block_id r = ap_block_id (bi_anchor_params (sd_block_info sd))"
    "len64 (blk_txs b) = len64 (sd_orders sd) + 1"
    "r' = r\<lparr>pb_end_block_num := hd_number (blk_header b),
            pb_last_timestamp := hd_timestamp (blk_header b),
            pb_block_params := pb_block_params r @ [\<lparr>bp_numTransactions = ucast (len64 (blk_txs b) - 1),
              bp_timeShift = ts, bp_signalSlots = []\<rparr>],
            pb_all_tx_list := pb_all_tx_list r @ sd_orders sd,
            pb_compressed_est := pb_compressed_est r + est (sd_uncompressed_size sd)\<rparr>"
    by (auto simp: add_block_def bindR_eq_Inr Let_def split: if_splits)
  have "unat ts = unat (hd_timestamp (blk_header b)) - unat (pb_last_timestamp r)"
    using ts(1)
    by (auto simp: time_shift_of_def Let_def unat_saturating_sub unsigned_ucast_eq take_bit_eq_mod split: if_splits)
  with assms(1) ts(2-4) show ?thesis
    by (auto simp: represents_def shifts_snoc block_ts_def ucast_len64)
qed

definition batches_of :: "sequencer \<Rightarrow> propose_batch_params list" where
  "batches_of s =
     concat (map (\<lambda>q. case q of Batch r \<Rightarrow> [r] | Resync _ _ \<Rightarrow> []) (sp_proposer_tx (sq_spine s))) @
     (case sq_proposer_request s of Some r \<Rightarrow> [r] | None \<Rightarrow> [])"

definition history_ok :: "(usize \<Rightarrow> usize) \<Rightarrow> sealed \<Rightarrow> sequencer \<Rightarrow> bool" where
  "history_ok est hist s \<longleftrightarrow>
     (\<exists>segs. concat segs = hist \<and>
        list_all2 (represents est (sc_coinbase_address (sq_config s))) (batches_of s) segs)"

lemma batches_of_send [simp]: "batches_of (send_batch_to_proposer check s) = batches_of s"
  by (auto simp: batches_of_def send_batch_to_proposer_def split: sequencer_state.splits option.splits)

lemma history_add_block:
  assumes hist: "history_ok est hist s"
    and add: "add_block est (sc_coinbase_address (sq_config s)) sd b (sq_proposer_request s) = Inr r"
    and s': "sq_proposer_request s' = Some r" "sq_config s' = sq_config s"
      "sp_proposer_tx (sq_spine s') = sp_proposer_tx (sq_spine s)"
  shows "history_ok est (hist @ [(b, sd)]) s'"
proof -
  let ?R = "represents est (sc_coinbase_address (sq_config s))"
  define sent where "sent = concat (map (\<lambda>q. case q of Batch r \<Rightarrow> [r] | Resync _ _ \<Rightarrow> [])
      (sp_proposer_tx (sq_spine s)))"
  from hist obtain segs where segs: "concat segs = hist" "list_all2 ?R (batches_of s) segs"
    by (auto simp: history_ok_def)
  have b': "batches_of s' = sent @ [r]" using s' by (simp add: batches_of_def sent_def)
  show ?thesis
  proof (cases "sq_proposer_request s")
    case None
    with add have "?R r [(b, sd)]" by (simp add: add_block_first)
    moreover have "list_all2 ?R sent segs" using segs(2) None by (simp add: batches_of_def sent_def)
    ultimately have "list_all2 ?R (batches_of s') (segs @ [[(b, sd)]])"
      unfolding b' by (simp add: list_all2_appendI)
    with segs(1) s'(2) show ?thesis
      unfolding history_ok_def by (intro exI[of _ "segs @ [[(b, sd)]]"]) simp
  next
    case (Some r0)
    with segs(2) have "list_all2 ?R (sent @ [r0]) segs" by (simp add: batches_of_def sent_def)
    then obtain segs0 seg where seg: "segs = segs0 @ [seg]" "list_all2 ?R sent segs0" "?R r0 seg"
      by (auto simp: list_all2_append1 list_all2_Cons1)
    have "?R r (seg @ [(b, sd)])" using add_block_next[OF seg(3)] add Some by simp
    with seg(2) have "list_all2 ?R (batches_of s') (segs0 @ [seg @ [(b, sd)]])"
      unfolding b' by (simp add: list_all2_appendI)
    with segs(1) seg(1) s'(2) show ?thesis
      unfolding history_ok_def by (intro exI[of _ "segs0 @ [seg @ [(b, sd)]]"]) simp
  qed
qed

subsection \<open>The invariant of the loop\<close>

definition beacon_sane :: "lookahead_handle \<Rightarrow> bool" where
  "beacon_sane h \<longleftrightarrow> bh_seconds_per_slot (lh_beacon h) \<noteq> 0 \<and> bh_slots_per_epoch (lh_beacon h) \<noteq> 0"

definition seq_inv :: "(usize \<Rightarrow> usize) \<Rightarrow> sealed \<Rightarrow> sequencer \<Rightarrow> bool" where
  "seq_inv est hist s \<longleftrightarrow>
     ctx_inv (sq_ctx s) \<and> state_ok (cx_state (sq_ctx s)) \<and>
     pool_wf (sq_tx_pool s) \<and> pool_synced (sq_tx_pool s) \<and>
     (\<forall>b \<in> set (sp_l2_blocks_rx (sq_spine s)). taiko_block b) \<and>
     beacon_sane (sq_lookahead s) \<and> history_ok est hist s"

lemma seq_inv_parts:
  assumes "seq_inv est hist s"
  shows "ctx_inv (sq_ctx s)" "state_ok (cx_state (sq_ctx s))" "pool_wf (sq_tx_pool s)"
    "pool_synced (sq_tx_pool s)" "\<forall>b \<in> set (sp_l2_blocks_rx (sq_spine s)). taiko_block b"
    "beacon_sane (sq_lookahead s)" "history_ok est hist s"
  using assms by (simp_all add: seq_inv_def)

lemma history_frame:
  assumes "history_ok est hist s" "sq_config s' = sq_config s" "batches_of s' = batches_of s"
  shows "history_ok est hist s'"
  using assms by (simp add: history_ok_def)

lemma batches_of_frame:
  assumes "sq_proposer_request s' = sq_proposer_request s"
    and "sp_proposer_tx (sq_spine s') = sp_proposer_tx (sq_spine s)"
  shows "batches_of s' = batches_of s"
  using assms by (simp add: batches_of_def)

text \<open>An operation that leaves batches, pool and queues alone only has to keep the chain view.\<close>

lemma seq_inv_ctx:
  assumes "seq_inv est hist s" "ctx_inv cx" "state_ok (cx_state cx)"
  shows "seq_inv est hist (s\<lparr>sq_ctx := cx\<rparr>)"
  using assms history_frame[of est hist s "s\<lparr>sq_ctx := cx\<rparr>"] batches_of_frame[of "s\<lparr>sq_ctx := cx\<rparr>" s]
  by (simp add: seq_inv_def)

lemma seq_inv_pool:
  assumes "seq_inv est hist s" "pool_wf tp" "pool_synced tp"
  shows "seq_inv est hist (s\<lparr>sq_tx_pool := tp\<rparr>)"
  using assms history_frame[of est hist s "s\<lparr>sq_tx_pool := tp\<rparr>"]
    batches_of_frame[of "s\<lparr>sq_tx_pool := tp\<rparr>" s]
  by (simp add: seq_inv_def)

lemma seq_inv_other:
  assumes "seq_inv est hist s" "sq_ctx s' = sq_ctx s" "sq_tx_pool s' = sq_tx_pool s"
    "sq_spine s' = sq_spine s" "sq_config s' = sq_config s"
    "lh_beacon (sq_lookahead s') = lh_beacon (sq_lookahead s)"
    "sq_proposer_request s' = sq_proposer_request s"
  shows "seq_inv est hist s'"
  using assms history_frame[of est hist s s'] batches_of_frame[of s' s]
  by (simp add: seq_inv_def beacon_sane_def)

lemma seq_inv_queue:
  assumes "seq_inv est hist s" "sp_proposer_tx sp = sp_proposer_tx (sq_spine s)"
    and "set (sp_l2_blocks_rx sp) \<subseteq> set (sp_l2_blocks_rx (sq_spine s))"
  shows "seq_inv est hist (s\<lparr>sq_spine := sp\<rparr>)"
  using assms history_frame[of est hist s "s\<lparr>sq_spine := sp\<rparr>"] batches_of_frame[of "s\<lparr>sq_spine := sp\<rparr>" s]
  by (auto simp: seq_inv_def)

lemma ctx_inv_state [simp]: "ctx_inv (cx\<lparr>cx_state := st\<rparr>) \<longleftrightarrow> ctx_inv cx"
  by (simp add: ctx_inv_def)

lemma ctx_inv_anchor [simp]: "ctx_inv (cx\<lparr>cx_anchor := a\<rparr>) \<longleftrightarrow> ctx_inv cx"
  by (simp add: ctx_inv_def)

lemma seq_inv_state:
  "seq_inv est hist s \<Longrightarrow> state_ok st \<Longrightarrow>
     seq_inv est hist (s\<lparr>sq_ctx := (sq_ctx s)\<lparr>cx_state := st\<rparr>\<rparr>)"
  by (rule seq_inv_ctx) (simp_all add: seq_inv_parts(1))

lemma seq_inv_send [wf_intros]:
  assumes "seq_inv est hist s"
  shows "seq_inv est hist (send_batch_to_proposer check s)"
proof -
  have "sq_config (send_batch_to_proposer check s) = sq_config s"
    by (auto simp: send_batch_to_proposer_def split: sequencer_state.splits option.splits)
  from history_frame[OF seq_inv_parts(7)[OF assms] this batches_of_send] assms show ?thesis
    by (auto simp: seq_inv_def send_batch_to_proposer_def split: sequencer_state.splits option.splits)
qed

lemma receive_for_ok:
  assumes "\<And>x s. x \<in> set q \<Longrightarrow> P s \<Longrightarrow> ok P (handler x s)" and "P s"
  shows "ok (\<lambda>(s', rest). P s' \<and> set rest \<subseteq> set q) (receive_for handler late i q s)"
  using assms
proof (induction handler late i q s rule: receive_for.induct)
  case (2 handler late i x xs s)
  have "ok P (handler x s)" using "2.prems" by simp
  then show ?case
    unfolding receive_for.simps
  proof (rule guarded_bind)
    fix s' assume s': "P s'"
    have "ok (\<lambda>(s'', rest). P s'' \<and> set rest \<subseteq> set xs) (receive_for handler late (Suc i) xs s')"
      if "\<not> late i"
      by (rule "2.IH"[OF that]) (use "2.prems"(1) s' in auto)
    with s' show "ok (\<lambda>(s', rest). P s' \<and> set rest \<subseteq> set (x # xs))
        (if late i then Inr (s', xs) else receive_for handler late (Suc i) xs s')"
      by (auto elim!: guarded_mono)
  qed
qed simp

lemma on_l1_block_ok: "seq_inv est hist s \<Longrightarrow> ok (seq_inv est hist) (on_l1_block now h s)"
  using new_l1_block_inv[of "sq_ctx s" now h]
  by (simp add: on_l1_block_def seq_inv_ctx seq_inv_parts new_l1_block_def)

lemma on_l2_block_ok:
  assumes inv: "seq_inv est hist s" and b: "taiko_block b"
  shows "ok (seq_inv est hist) (on_l2_block pr now b s)"
proof -
  note P = seq_inv_parts[OF inv]
  from new_preconf_taiko[OF P(1) b, of "pr_decode pr" now] obtain cx where
    cx: "new_preconf_l2_block (pr_decode pr) now b (sq_ctx s) = Inr (replaces b (sq_ctx s), cx)"
    "cx_l2_headers cx = headers_after b (sq_ctx s)" "cx_to_verify cx = to_verify_after b (sq_ctx s)"
    "cx_l1_headers cx = cx_l1_headers (sq_ctx s)" "cx_coinbase cx = cx_coinbase (sq_ctx s)"
    "cx_state cx = cx_state (sq_ctx s)" by blast
  then have "ctx_inv cx"
    using P(1) to_verify_after_ok[OF P(1), of b] headers_after_sorted[of "sq_ctx s" b]
    by (simp add: ctx_inv_def)
  with inv P(2) cx show ?thesis by (simp add: on_l2_block_def seq_inv_ctx)
qed

lemma new_origin_state:
  "new_origin_l2_block h cx = Inr cx' \<Longrightarrow> cx_state cx' = cx_state cx"
  by (auto simp: new_origin_eq split: if_splits)

lemma on_origin_block_ok:
  assumes inv: "seq_inv est hist s"
  shows "ok (seq_inv est hist) (on_origin_block h s)"
proof (cases "new_origin_l2_block h (sq_ctx s)")
  case (Inl m)
  then have "m = ''block verify mismatch''" by (auto simp: new_origin_eq split: if_splits)
  with Inl show ?thesis by (simp add: on_origin_block_def)
next
  case (Inr cx)
  with new_origin_inv[OF seq_inv_parts(1)[OF inv] Inr] new_origin_state[OF Inr] inv show ?thesis
    by (simp add: on_origin_block_def seq_inv_ctx seq_inv_parts)
qed

lemma recv_blocks_ok:
  assumes inv: "seq_inv est hist s0"
  shows "ok (seq_inv est hist) (recv_blocks pr inp s0)"
  unfolding recv_blocks_def Let_def
proof (rule guarded_bind)
  show "ok (\<lambda>(s', rest). seq_inv est hist s' \<and> set rest \<subseteq> set (sp_l1_blocks_rx (sq_spine s0)))
      (receive_for (on_l1_block (in_now inp)) (in_late inp L1Rx) 0 (sp_l1_blocks_rx (sq_spine s0)) s0)"
    by (rule receive_for_ok) (simp_all add: on_l1_block_ok inv)
next
  fix x :: "sequencer \<times> header list"
  assume x: "case x of (s', rest) \<Rightarrow> seq_inv est hist s' \<and> set rest \<subseteq> set (sp_l1_blocks_rx (sq_spine s0))"
  obtain s rest where xs: "x = (s, rest)" by (cases x)
  define s1 where "s1 = s\<lparr>sq_spine := (sq_spine s)\<lparr>sp_l1_blocks_rx := rest\<rparr>\<rparr>"
  have inv1: "seq_inv est hist s1" using x xs by (simp add: s1_def seq_inv_queue)
  show "ok (seq_inv est hist) (case x of (s, rest) \<Rightarrow>
      bindR (receive_for (on_l2_block pr (in_now inp)) (in_late inp L2Rx) 0
         (sp_l2_blocks_rx (sq_spine (s\<lparr>sq_spine := (sq_spine s)\<lparr>sp_l1_blocks_rx := rest\<rparr>\<rparr>)))
         (s\<lparr>sq_spine := (sq_spine s)\<lparr>sp_l1_blocks_rx := rest\<rparr>\<rparr>))
       (\<lambda>(s, rest). bindR (receive_for on_origin_block (in_late inp OriginRx) 0
          (sp_origin_blocks_rx (sq_spine (s\<lparr>sq_spine := (sq_spine s)\<lparr>sp_l2_blocks_rx := rest\<rparr>\<rparr>)))
          (s\<lparr>sq_spine := (sq_spine s)\<lparr>sp_l2_blocks_rx := rest\<rparr>\<rparr>))
         (\<lambda>(s, rest). Inr (s\<lparr>sq_spine := (sq_spine s)\<lparr>sp_origin_blocks_rx := rest\<rparr>\<rparr>))))"
    unfolding xs prod.case s1_def[symmetric]
  proof (rule guarded_bind)
    show "ok (\<lambda>(s', rest). seq_inv est hist s' \<and> set rest \<subseteq> set (sp_l2_blocks_rx (sq_spine s1)))
      (receive_for (on_l2_block pr (in_now inp)) (in_late inp L2Rx) 0 (sp_l2_blocks_rx (sq_spine s1)) s1)"
      by (rule receive_for_ok) (use seq_inv_parts(5)[OF inv1] inv1 in \<open>auto intro: on_l2_block_ok\<close>)
  next
    fix y :: "sequencer \<times> block list"
    assume y: "case y of (s', rest) \<Rightarrow> seq_inv est hist s' \<and> set rest \<subseteq> set (sp_l2_blocks_rx (sq_spine s1))"
    obtain s rest where ys: "y = (s, rest)" by (cases y)
    define s2 where "s2 = s\<lparr>sq_spine := (sq_spine s)\<lparr>sp_l2_blocks_rx := rest\<rparr>\<rparr>"
    show "ok (seq_inv est hist) (case y of (s, rest) \<Rightarrow>
        bindR (receive_for on_origin_block (in_late inp OriginRx) 0
          (sp_origin_blocks_rx (sq_spine (s\<lparr>sq_spine := (sq_spine s)\<lparr>sp_l2_blocks_rx := rest\<rparr>\<rparr>)))
          (s\<lparr>sq_spine := (sq_spine s)\<lparr>sp_l2_blocks_rx := rest\<rparr>\<rparr>))
         (\<lambda>(s, rest). Inr (s\<lparr>sq_spine := (sq_spine s)\<lparr>sp_origin_blocks_rx := rest\<rparr>\<rparr>)))"
      unfolding ys prod.case s2_def[symmetric]
    proof (rule guarded_bind)
      have "seq_inv est hist s2"
      proof -
        have "history_ok est hist s2"
          using y ys history_frame[OF seq_inv_parts(7)[of est hist s], of s2]
            batches_of_frame[of s2 s] by (simp add: s2_def)
        moreover have "\<forall>b \<in> set rest. taiko_block b"
          using y ys seq_inv_parts(5)[OF inv1] by auto
        ultimately show ?thesis using y ys by (simp add: s2_def seq_inv_def)
      qed
      then show "ok (\<lambda>(s', rest). seq_inv est hist s' \<and> set rest \<subseteq> set (sp_origin_blocks_rx (sq_spine s2)))
          (receive_for on_origin_block (in_late inp OriginRx) 0 (sp_origin_blocks_rx (sq_spine s2)) s2)"
        by (intro receive_for_ok) (simp_all add: on_origin_block_ok)
    qed (auto simp: seq_inv_queue)
  qed
qed

lemma handle_tx_ok:
  assumes inv: "seq_inv est hist s"
  shows "ok (seq_inv est hist) (handle_tx took parent tx s)"
  unfolding handle_tx_def
proof (rule guarded_bind)
  show "ok (seq_inv est hist) (case cx_state (sq_ctx s) of
      Sorting sd \<Rightarrow> bindR (handle_new_tx took tx sd) (\<lambda>sd'.
        Inr (s\<lparr>sq_ctx := (sq_ctx s)\<lparr>cx_state := Sorting sd'\<rparr>\<rparr>))
    | Sync _ \<Rightarrow> Inr s)"
  proof (cases "cx_state (sq_ctx s)")
    case (Sorting sd)
    then have "ok sd_ok (handle_new_tx took tx sd)"
      using seq_inv_parts(2)[OF inv] handle_new_tx_sd_ok by simp
    with Sorting inv show ?thesis by (auto elim!: guarded_bind simp: seq_inv_state)
  qed (simp add: inv)
next
  fix s1 assume inv1: "seq_inv est hist s1"
  from tp_put_ok[OF seq_inv_parts(3,4)[OF inv1], of tx parent] inv1
  show "ok (seq_inv est hist) (bindR (tp_put tx parent (sq_tx_pool s1)) (\<lambda>tp. Inr (s1\<lparr>sq_tx_pool := tp\<rparr>)))"
    by (auto simp: seq_inv_pool)
qed

lemma l2_parent_ok: "ok (\<lambda>_. True) (l2_parent cx)"
  by (simp add: l2_parent_def)

lemma fetch_txs_ok:
  assumes inv: "seq_inv est hist s0"
  shows "ok (seq_inv est hist) (fetch_txs inp s0)"
  unfolding fetch_txs_def Let_def
proof (rule guarded_bind[OF l2_parent_ok])
  fix parent
  show "ok (seq_inv est hist)
     (bindR (receive_for (handle_tx (in_took inp) (pp_block_number parent)) (in_late inp RpcRx) 0
              (sp_rpc_rx (sq_spine s0)) s0) (\<lambda>(s, rest).
     bindR (receive_for (handle_tx (in_took inp) (pp_block_number parent)) (in_late inp MempoolRx) 0
              (sp_mempool_rx (sq_spine (s\<lparr>sq_spine := (sq_spine s)\<lparr>sp_rpc_rx := rest\<rparr>\<rparr>)))
              (s\<lparr>sq_spine := (sq_spine s)\<lparr>sp_rpc_rx := rest\<rparr>\<rparr>)) (\<lambda>(s, rest).
     Inr (s\<lparr>sq_spine := (sq_spine s)\<lparr>sp_mempool_rx := rest\<rparr>\<rparr>))))"
  proof (rule guarded_bind)
    show "ok (\<lambda>(s', rest). seq_inv est hist s' \<and> set rest \<subseteq> set (sp_rpc_rx (sq_spine s0)))
      (receive_for (handle_tx (in_took inp) (pp_block_number parent)) (in_late inp RpcRx) 0
              (sp_rpc_rx (sq_spine s0)) s0)"
      by (rule receive_for_ok) (simp_all add: handle_tx_ok inv)
  next
    fix x :: "sequencer \<times> order list"
    assume x: "case x of (s', rest) \<Rightarrow> seq_inv est hist s' \<and> set rest \<subseteq> set (sp_rpc_rx (sq_spine s0))"
    obtain s rest where xs: "x = (s, rest)" by (cases x)
    define s1 where "s1 = s\<lparr>sq_spine := (sq_spine s)\<lparr>sp_rpc_rx := rest\<rparr>\<rparr>"
    have inv1: "seq_inv est hist s1" using x xs by (simp add: s1_def seq_inv_queue)
    show "ok (seq_inv est hist) (case x of (s, rest) \<Rightarrow>
      bindR (receive_for (handle_tx (in_took inp) (pp_block_number parent)) (in_late inp MempoolRx) 0
              (sp_mempool_rx (sq_spine (s\<lparr>sq_spine := (sq_spine s)\<lparr>sp_rpc_rx := rest\<rparr>\<rparr>)))
              (s\<lparr>sq_spine := (sq_spine s)\<lparr>sp_rpc_rx := rest\<rparr>\<rparr>)) (\<lambda>(s, rest).
        Inr (s\<lparr>sq_spine := (sq_spine s)\<lparr>sp_mempool_rx := rest\<rparr>\<rparr>)))"
      unfolding xs prod.case s1_def[symmetric]
    proof (rule guarded_bind)
      show "ok (\<lambda>(s', rest). seq_inv est hist s' \<and> set rest \<subseteq> set (sp_mempool_rx (sq_spine s1)))
        (receive_for (handle_tx (in_took inp) (pp_block_number parent)) (in_late inp MempoolRx) 0
          (sp_mempool_rx (sq_spine s1)) s1)"
        by (rule receive_for_ok) (simp_all add: handle_tx_ok inv1)
    qed (auto simp: seq_inv_queue)
  qed
qed

lemma handle_sims_ok:
  assumes inv: "seq_inv est hist s"
  shows "ok (seq_inv est hist) (handle_sims inp s)"
proof (cases "sp_sim_rx (sq_spine s)")
  case Nil
  with inv show ?thesis by (simp add: handle_sims_def)
next
  case (Cons res rest)
  define s1 where "s1 = s\<lparr>sq_spine := (sq_spine s)\<lparr>sp_sim_rx := rest\<rparr>\<rparr>"
  have inv1: "seq_inv est hist s1" using inv by (simp add: s1_def seq_inv_queue)
  have ctx: "sq_ctx s1 = sq_ctx s" by (simp add: s1_def)
  show ?thesis
  proof (cases res)
    case (Inl err)
    with Cons show ?thesis using deliberate_simps(11)[of err] by (simp add: handle_sims_def)
  next
    case (Inr sim)
    show ?thesis
    proof (cases "cx_state (sq_ctx s)")
      case (Sync l)
      with Cons Inr inv1 show ?thesis by (simp add: handle_sims_def s1_def[symmetric])
    next
      case (Sorting sd)
      then have "ok sd_ok (handle_sim (in_took inp) sim sd)"
        using seq_inv_parts(2)[OF inv1] ctx handle_sim_sd_ok by simp
      then have "ok (seq_inv est hist) (bindR (handle_sim (in_took inp) sim sd) (\<lambda>sd'.
          Inr (s1\<lparr>sq_ctx := (sq_ctx s1)\<lparr>cx_state := Sorting sd'\<rparr>\<rparr>)))"
        by (rule guarded_bind) (simp add: seq_inv_state[OF inv1])
      with Sorting Cons Inr ctx show ?thesis
        by (simp add: handle_sims_def s1_def[symmetric])
    qed
  qed
qed

lemma maybe_refresh_beacon [simp]: "lh_beacon (maybe_refresh now h) = lh_beacon h"
  by (simp add: maybe_refresh_def)

lemma current_epoch_sane: "beacon_sane h \<Longrightarrow> \<exists>e s. current_epoch utc (lh_beacon h) = Inr e \<and> current_slot utc (lh_beacon h) = Inr s"
  by (simp add: beacon_sane_def current_epoch_def current_slot_def div_u64_def)

lemma can_sequence_runs:
  assumes "beacon_sane h"
  shows "\<exists>r h'. can_sequence now utc op h = Inr (r, h') \<and> lh_beacon h' = lh_beacon h"
proof -
  from current_epoch_sane[OF assms, of utc] obtain e s where
    "current_epoch utc (lh_beacon h) = Inr e" "current_slot utc (lh_beacon h) = Inr s" by blast
  then show ?thesis by (auto simp: can_sequence_def Let_def split: prod.splits)
qed

lemma can_propose_runs:
  assumes "beacon_sane h"
  shows "\<exists>r h'. can_propose now utc op h = Inr (r, h') \<and> lh_beacon h' = lh_beacon h"
  using current_epoch_sane[OF assms, of utc] by (auto simp: can_propose_def Let_def)

lemma should_clear_runs:
  assumes "beacon_sane h"
  shows "\<exists>r h'. should_clear_proposal now utc op h = Inr (r, h') \<and> lh_beacon h' = lh_beacon h"
  using current_epoch_sane[OF assms, of utc] by (auto simp: should_clear_proposal_def Let_def)

lemma is_current_beacon: "is_current_operator now op h = (c, h') \<Longrightarrow> lh_beacon h' = lh_beacon h"
  by (auto simp: is_current_operator_def Let_def)

lemma check_can_sequence_ok:
  assumes inv: "seq_inv est hist s"
  shows "ok (seq_inv est hist) (check_can_sequence now utc s)"
proof -
  obtain c h1 where h1: "is_current_operator now (sc_operator_address (sq_config s)) (sq_lookahead s) = (c, h1)"
    by fastforce
  have "beacon_sane h1"
    using seq_inv_parts(6)[OF inv] is_current_beacon[OF h1] by (simp add: beacon_sane_def)
  from can_sequence_runs[OF this] obtain r h2 where
    h2: "can_sequence now utc (sc_operator_address (sq_config s)) h1 = Inr (r, h2)"
      "lh_beacon h2 = lh_beacon (sq_lookahead s)"
    using is_current_beacon[OF h1] by metis
  obtain can_seq reason where r: "r = (can_seq, reason)" by (cases r)
  show ?thesis
    unfolding check_can_sequence_def Let_def h1 prod.case h2(1) bindR_simps r guarded_simps
    by (rule seq_inv_other[OF inv]) (simp_all add: h2(2))
qed

lemma check_resync_ok:
  assumes inv: "seq_inv est hist s"
  shows "ok (seq_inv est hist) (check_resync s)"
proof -
  have "batches_of (s\<lparr>sq_spine := (sq_spine s)
      \<lparr>sp_proposer_tx := sp_proposer_tx (sq_spine s) @ [Resync a b]\<rparr>\<rparr>) = batches_of s" for a b
    by (simp add: batches_of_def)
  with history_frame[OF seq_inv_parts(7)[OF inv]] inv show ?thesis
    by (simp add: check_resync_def l2_parent_def Let_def seq_inv_def)
qed

lemma check_can_propose_ok:
  assumes inv: "seq_inv est hist s"
  shows "ok (seq_inv est hist) (check_can_propose now utc s)"
proof -
  from can_propose_runs[OF seq_inv_parts(6)[OF inv]] obtain r h where
    h: "can_propose now utc (sc_operator_address (sq_config s)) (sq_lookahead s) = Inr (r, h)"
      "lh_beacon h = lh_beacon (sq_lookahead s)" by metis
  obtain can reason where r: "r = (can, reason)" by (cases r)
  have inv1: "seq_inv est hist (s\<lparr>sq_lookahead := h\<rparr>)"
    by (rule seq_inv_other[OF inv]) (simp_all add: h(2))
  have fin: "seq_inv est hist s2 \<Longrightarrow> ok (seq_inv est hist) (Inr (s2\<lparr>sq_flags := f\<rparr>))" for s2 f
    by (simp add: seq_inv_other[of est hist s2])
  show ?thesis
  proof (cases "can = fl_can_propose (sq_flags s)")
    case True
    with h(1) r inv1 show ?thesis by (simp add: check_can_propose_def)
  next
    case False
    have "ok (seq_inv est hist)
        (if can then check_resync (s\<lparr>sq_lookahead := h\<rparr>) else Inr (s\<lparr>sq_lookahead := h\<rparr>))"
      using check_resync_ok[OF inv1] inv1 by simp
    from guarded_bind[OF this fin] False h(1) r show ?thesis
      by (simp add: check_can_propose_def Let_def)
  qed
qed

lemma update_anchor_ok: "seq_inv est hist s \<Longrightarrow> seq_inv est hist (update_anchor utc safe s)"
  by (simp add: update_anchor_def seq_inv_send seq_inv_ctx seq_inv_parts)

lemma maybe_refresh_anchor_ok: "seq_inv est hist s \<Longrightarrow> seq_inv est hist (maybe_refresh_anchor utc s)"
  by (auto simp: maybe_refresh_anchor_def update_anchor_ok split: option.splits)

lemma tick_ok:
  assumes inv: "seq_inv est hist s0"
  shows "ok (seq_inv est hist) (tick pr inp s0)"
  unfolding tick_def Let_def
proof (rule guarded_bind[OF recv_blocks_ok[OF inv]], rule guarded_bind[OF fetch_txs_ok], assumption,
    rule guarded_bind[OF handle_sims_ok], assumption, rule guarded_bind[OF check_can_sequence_ok],
    assumption, rule guarded_bind[OF check_can_propose_ok], assumption, rule guarded_bind)
  fix s5 assume inv5: "seq_inv est hist s5"
  have inv6: "seq_inv est hist (maybe_refresh_anchor (in_utc inp) s5)"
    using maybe_refresh_anchor_ok[OF inv5] .
  have pool: "seq_inv est hist (s6\<lparr>sq_tx_pool := report_and_sanity_check a b c (sq_tx_pool s6),
      sq_timings := t\<rparr>)" if "seq_inv est hist s6" for s6 a b c t
  proof -
    have "seq_inv est hist (s6\<lparr>sq_tx_pool := report_and_sanity_check a b c (sq_tx_pool s6)\<rparr>)"
      by (rule seq_inv_pool[OF that]) (simp_all add: sanity_check_ok seq_inv_parts[OF that])
    then show ?thesis by (rule seq_inv_other) simp_all
  qed
  show "ok (seq_inv est hist) (if fl_can_sequence (sq_flags s5)
            then if should_log_tx_pool (in_now inp) (sq_timings (maybe_refresh_anchor (in_utc inp) s5))
                  then bindR (l2_parent (sq_ctx (maybe_refresh_anchor (in_utc inp) s5))) (\<lambda>parent.
                         Inr ((maybe_refresh_anchor (in_utc inp) s5)
                            \<lparr>sq_tx_pool := report_and_sanity_check (pp_block_number parent)
                                   (in_pool_nonce inp) (in_utc inp)
                                   (sq_tx_pool (maybe_refresh_anchor (in_utc inp) s5)),
                             sq_timings := (sq_timings (maybe_refresh_anchor (in_utc inp) s5))
                               \<lparr>tm_last_tx_pool_check := in_now inp\<rparr>\<rparr>))
                  else Inr (maybe_refresh_anchor (in_utc inp) s5)
            else Inr s5)"
    using inv5 inv6 by (auto intro!: guarded_bind[OF l2_parent_ok] simp: pool[OF inv6])
next
  fix s7 assume inv7: "seq_inv est hist s7"
  from should_clear_runs[OF seq_inv_parts(6)[OF inv7]] obtain r h where
    h: "should_clear_proposal (in_now inp) (in_utc inp) (sc_operator_address (sq_config s7))
          (sq_lookahead s7) = Inr (r, h)" "lh_beacon h = lh_beacon (sq_lookahead s7)" by metis
  obtain clear reason where r: "r = (clear, reason)" by (cases r)
  have "seq_inv est hist (s7\<lparr>sq_lookahead := h\<rparr>)"
    by (rule seq_inv_other[OF inv7]) (simp_all add: h(2))
  then show "ok (seq_inv est hist)
     (bindR (should_clear_proposal (in_now inp) (in_utc inp) (sc_operator_address (sq_config s7))
              (sq_lookahead s7)) (\<lambda>((clear, _), h).
       Inr (if check_time_shift (in_utc inp)
                 (if clear then send_batch_to_proposer True (s7\<lparr>sq_lookahead := h\<rparr>)
                  else s7\<lparr>sq_lookahead := h\<rparr>)
            then send_batch_to_proposer True
                 (if clear then send_batch_to_proposer True (s7\<lparr>sq_lookahead := h\<rparr>)
                  else s7\<lparr>sq_lookahead := h\<rparr>)
            else (if clear then send_batch_to_proposer True (s7\<lparr>sq_lookahead := h\<rparr>)
                  else s7\<lparr>sq_lookahead := h\<rparr>))))"
    unfolding h(1) r by (simp add: seq_inv_send)
qed

subsection \<open>Transitions\<close>

text \<open>What the environment guarantees of an input: the simulator seals Taiko blocks.\<close>

definition input_ok :: "loop_input \<Rightarrow> bool" where
  "input_ok inp \<longleftrightarrow> (\<forall>st res. in_seal inp st = Inr res \<longrightarrow> taiko_block (sr_built_block res))"

text \<open>The block that a transition from \<open>st\<close> seals and gossips, if any.\<close>

definition sealed_by :: "loop_input \<Rightarrow> sequencer_state \<Rightarrow> sealed" where
  "sealed_by inp st =
     (case st of
        Sync _ \<Rightarrow> []
      | Sorting sd \<Rightarrow>
          if should_discard sd \<or> \<not> should_seal (in_now inp) sd then []
          else (case in_seal inp (sd_state_id sd) of
                  Inl _ \<Rightarrow> []
                | Inr res \<Rightarrow> (case in_gossip inp (sr_built_block res) False of
                    Inl _ \<Rightarrow> [] | Inr _ \<Rightarrow> [(sr_built_block res, sd)])))"

abbreviation next_ok :: "(usize \<Rightarrow> usize) \<Rightarrow> sealed \<Rightarrow> sequencer_state \<times> sequencer \<Rightarrow> bool" where
  "next_ok est hist \<equiv> \<lambda>(st, s). state_ok st \<and> seq_inv est hist s"

lemma anchor_block_ok: "ok (\<lambda>_. True) (anchor_block inp s)"
proof -
  have fee: "ok (\<lambda>_. True) (compute_next_base_fee gb ts bf parent)" for gb ts bf parent
    by (simp add: compute_next_base_fee_def)
  have tx: "ok (\<lambda>_. True) (assemble_anchor_v3 abi sign cp c parent anchor f)"
    for abi sign cp c parent anchor f
    by (auto simp: assemble_anchor_v3_def Let_def split: option.splits)
  have "ok (\<lambda>_. True) (assemble_anchor io cp c ts parent anchor)" for io cp c ts parent anchor
    unfolding assemble_anchor_def
    by (rule guarded_bind[OF fee]) (auto intro!: guarded_bind[OF tx] split: sum.splits)
  then show ?thesis
    unfolding anchor_block_def
    by (auto simp: Let_def split: option.splits sum.splits execution_result.splits
        intro!: guarded_bind[OF l2_parent_ok] guarded_bind[where P = "\<lambda>_. True"])
qed

lemma snapshot_default_wf:
  assumes "pool_wf tp"
  shows "\<exists>tp' r. tp_active_orders bn f tp = Inr (tp', r) \<and>
    (tp' = tp \<or> tp' = clear_nonces tp) \<and> ao_wf (case r of Some ao \<Rightarrow> ao | None \<Rightarrow> ao_empty)"
  using tp_active_orders_cases[OF assms, of bn f] by (metis snapshot_or_default_def)

lemma start_block_ok:
  assumes inv: "seq_inv est hist s"
  shows "ok (next_ok est hist) (start_block inp throttled s)"
  unfolding start_block_def
proof (rule guarded_bind[OF anchor_block_ok])
  fix anchored :: "string + (state_id \<times> block_info)"
  show "ok (next_ok est hist) (case anchored of
      Inr (st, bi) \<Rightarrow>
         let s1 = s\<lparr>sq_anchor_error_count := 0\<rparr> in
         bindR (tp_active_orders (bi_block_number bi) (bi_base_fee bi) (sq_tx_pool s1)) (\<lambda>(tp, active).
           let sd = sort_data_new (in_now inp) bi st
                       (case active of Some ao \<Rightarrow> ao | None \<Rightarrow> ao_empty)
                       (cp_block_max_gas_limit (sq_chain_config s1))
                       (sc_target_block_time (sq_config s1)) throttled
                       (sc_min_orders_before_seal (sq_config s1)) (sc_max_block_skips (sq_config s1))
           in Inr (Sorting sd, s1\<lparr>sq_tx_pool := tp,
                 sq_timings := (sq_timings s1)\<lparr>tm_start_produce_block :=
                   in_now inp + sc_target_block_time (sq_config s1)\<rparr>\<rparr>))
    | Inl _ \<Rightarrow>
         let s1 = s\<lparr>sq_timings := (sq_timings s)\<lparr>tm_last_anchor_error := in_now inp\<rparr>,
                    sq_anchor_error_count := sq_anchor_error_count s + 1\<rparr>
         in if MAX_ANCHOR_ERRORS < sq_anchor_error_count s1
            then Inl ''too many anchor errors, resetting''
            else Inr (sequencer_state_default, s1))"
  proof (cases anchored)
    case (Inl e)
    have "seq_inv est hist (s\<lparr>sq_timings := t, sq_anchor_error_count := c\<rparr>)" for t c
      by (rule seq_inv_other[OF inv]) simp_all
    with Inl show ?thesis by (simp add: Let_def sequencer_state_default_def)
  next
    case (Inr x)
    obtain st bi where x: "x = (st, bi)" by (cases x)
    obtain tp r where tp: "tp_active_orders (bi_block_number bi) (bi_base_fee bi) (sq_tx_pool s) = Inr (tp, r)"
      "tp = sq_tx_pool s \<or> tp = clear_nonces (sq_tx_pool s)"
      "ao_wf (case r of Some ao \<Rightarrow> ao | None \<Rightarrow> ao_empty)"
      using snapshot_default_wf[OF seq_inv_parts(3)[OF inv]] by blast
    have "seq_inv est hist (s\<lparr>sq_tx_pool := tp\<rparr>)"
      by (rule seq_inv_pool[OF inv]) (use tp(2) seq_inv_parts[OF inv] clear_nonces_ok in auto)
    then have "seq_inv est hist (s\<lparr>sq_anchor_error_count := c, sq_tx_pool := tp, sq_timings := t\<rparr>)" for c t
      by (rule seq_inv_other) simp_all
    with Inr x tp(1,3) show ?thesis by (simp add: Let_def sd_ok_new)
  qed
qed

lemma status_check_ok:
  assumes inv: "seq_inv est hist s"
  shows "ok (\<lambda>(_, s'). seq_inv est hist s') (status_check inp s)"
proof -
  have 1: "seq_inv est hist (s\<lparr>sq_timings := t\<rparr>)" for t
    by (rule seq_inv_other[OF inv]) simp_all
  have 2: "seq_inv est hist (s\<lparr>sq_timings := t, sq_needs_status_check := n\<rparr>)" for t n
    by (rule seq_inv_other[OF inv]) simp_all
  show ?thesis
    using inv 1 2
    by (auto simp: status_check_def Let_def split: sum.splits intro!: guarded_bind[OF l2_parent_ok])
qed

lemma transition_sync_ok:
  assumes inv: "seq_inv est hist s"
  shows "ok (next_ok est hist) (transition_sync pr inp l s)"
proof -
  have "ok (next_ok est hist) (bindR (status_check inp s) (\<lambda>(passed, s1).
      if passed then start_block inp throttled s1 else Inr (sequencer_state_default, s1)))" for throttled
    by (rule guarded_bind[OF status_check_ok[OF inv]])
       (auto simp: sequencer_state_default_def start_block_ok)
  with inv show ?thesis
    by (auto simp: transition_sync_def Let_def sequencer_state_default_def split: option.splits)
qed

lemma transition_discard_ok:
  "seq_inv est hist s \<Longrightarrow> ok (next_ok est hist) (transition_discard sd s)"
  using clear_nonces_ok[of "sq_tx_pool s"]
  by (simp add: transition_discard_def Let_def sequencer_state_default_def seq_inv_send seq_inv_pool
      seq_inv_parts)

lemma add_block_ok: "ok (\<lambda>_. True) (add_block est cb sd b pending)"
proof -
  have "ok (\<lambda>_. True) (time_shift_of b r)" for r by (simp add: time_shift_of_def Let_def)
  then show ?thesis
    by (auto simp: add_block_def Let_def split: option.splits intro!: guarded_bind[where P = "\<lambda>_. True"])
qed

text \<open>The history grows by the sealed block.\<close>

lemma seal_block_ok:
  assumes inv: "seq_inv (pr_est pr) hist s" and sd: "sd_ok sd"
    and inp: "input_ok inp" and seal: "\<not> should_discard sd" "should_seal (in_now inp) sd"
    and st: "cx_state (sq_ctx s) = sequencer_state_default"
  shows "ok (\<lambda>(err, s'). seq_inv (pr_est pr) (hist @ sealed_by inp (Sorting sd)) s' \<and>
      (err \<noteq> None \<longrightarrow> sealed_by inp (Sorting sd) = [] \<and> s' = s)) (seal_block pr inp sd s)"
proof (cases "in_seal inp (sd_state_id sd)")
  case (Inl e)
  with inv show ?thesis by (simp add: seal_block_def sealed_by_def)
next
  case (Inr res)
  define b where "b = sr_built_block res"
  have b: "taiko_block b" using inp Inr by (auto simp: input_ok_def b_def)
  show ?thesis
  proof (cases "in_gossip inp b False")
    case (Inl e)
    with Inr inv show ?thesis by (simp add: seal_block_def sealed_by_def b_def[symmetric])
  next
    case gossip: (Inr u)
    have new: "sealed_by inp (Sorting sd) = [(b, sd)]"
      using Inr gossip seal by (simp add: sealed_by_def b_def[symmetric])
    define s1 where "s1 = s\<lparr>sq_tx_pool := update_new_block (sd_nonces sd) (sq_tx_pool s)\<rparr>"
    have wf: "hm_wf (sn_nonces (srt_state (sd_nonces sd)))" "hm_wf (sn_nonces (srt_sorting (sd_nonces sd)))"
      using sd by (simp_all add: sd_ok_def sorting_nonces_wf_def)
    have inv1: "seq_inv (pr_est pr) hist s1"
      unfolding s1_def
      by (rule seq_inv_pool[OF inv])
         (use update_new_block_ok[OF seq_inv_parts(3,4)[OF inv] wf] in simp_all)
    have "ok (seq_inv (pr_est pr) hist) (on_l2_block pr (in_now inp) b s1)" by (rule on_l2_block_ok[OF inv1 b])
    from new_preconf_taiko[OF seq_inv_parts(1)[OF inv1] b, of "pr_decode pr" "in_now inp"] obtain r cx where
      cx: "new_preconf_l2_block (pr_decode pr) (in_now inp) b (sq_ctx s1) = Inr (r, cx)"
      "cx_l2_headers cx = headers_after b (sq_ctx s1)" "cx_to_verify cx = to_verify_after b (sq_ctx s1)"
      "cx_l1_headers cx = cx_l1_headers (sq_ctx s1)" "cx_coinbase cx = cx_coinbase (sq_ctx s1)"
      "cx_state cx = cx_state (sq_ctx s1)" by blast
    then have "ctx_inv cx"
      using seq_inv_parts(1)[OF inv1] to_verify_after_ok[OF seq_inv_parts(1)[OF inv1], of b]
        headers_after_sorted[of "sq_ctx s1" b] by (simp add: ctx_inv_def)
    moreover define s2 where "s2 = s1\<lparr>sq_ctx := cx\<rparr>"
    ultimately have inv2: "seq_inv (pr_est pr) hist s2"
      using seq_inv_ctx[OF inv1, of cx] cx(6) seq_inv_parts(2)[OF inv1] by simp
    show ?thesis
    proof (cases "add_block (pr_est pr) (sc_coinbase_address (sq_config s2)) sd b (sq_proposer_request s2)")
      case (Inl m)
      then have "deliberate m"
        using add_block_ok[of "pr_est pr" "sc_coinbase_address (sq_config s2)" sd b "sq_proposer_request s2"]
        by simp
      moreover have "add_block (pr_est pr) (sc_coinbase_address (sq_config s1)) sd b
          (sq_proposer_request s1) = Inl m" using Inl by (simp add: s2_def)
      ultimately show ?thesis using \<open>in_seal inp (sd_state_id sd) = Inr res\<close> gossip cx(1)
        by (simp add: seal_block_def b_def[symmetric] s1_def[symmetric] s2_def[symmetric] Let_def)
    next
      case (Inr request)
      define s3 where "s3 = s2\<lparr>sq_proposer_request := Some request\<rparr>"
      have "history_ok (pr_est pr) (hist @ [(b, sd)]) s3"
        using history_add_block[OF seq_inv_parts(7)[OF inv2] Inr] by (simp add: s3_def)
      with inv2 have inv3: "seq_inv (pr_est pr) (hist @ [(b, sd)]) s3"
        by (simp add: seq_inv_def s3_def)
      have "seal_block pr inp sd s = Inr (None,
          if needs_anchor_refresh (bi_anchor_params (sd_block_info sd)) s3
          then send_batch_to_proposer False s3 else s3)"
        using \<open>in_seal inp (sd_state_id sd) = Inr res\<close> gossip cx(1) Inr
        by (simp add: seal_block_def b_def s1_def s2_def s3_def Let_def)
      with inv3 show ?thesis by (simp add: new seq_inv_send)
    qed
  qed
qed

lemma transition_seal_ok:
  assumes inv: "seq_inv (pr_est pr) hist s" and sd: "sd_ok sd"
    and inp: "input_ok inp" and seal: "\<not> should_discard sd" "should_seal (in_now inp) sd"
    and st: "cx_state (sq_ctx s) = sequencer_state_default"
  shows "ok (next_ok (pr_est pr) (hist @ sealed_by inp (Sorting sd))) (transition_seal pr inp sd s)"
  unfolding transition_seal_def
proof (rule guarded_bind[OF seal_block_ok[OF assms]])
  fix x :: "sequencer_error option \<times> sequencer"
  assume x: "case x of (err, s') \<Rightarrow> seq_inv (pr_est pr) (hist @ sealed_by inp (Sorting sd)) s' \<and>
      (err \<noteq> None \<longrightarrow> sealed_by inp (Sorting sd) = [] \<and> s' = s)"
  obtain err s' where xs: "x = (err, s')" by (cases x)
  have inv': "seq_inv (pr_est pr) (hist @ sealed_by inp (Sorting sd)) s'" using x xs by simp
  have 1: "seq_inv (pr_est pr) (hist @ sealed_by inp (Sorting sd)) (s'\<lparr>sq_timings := t\<rparr>)" for t
    by (rule seq_inv_other[OF inv']) simp_all
  have 2: "seq_inv (pr_est pr) (hist @ sealed_by inp (Sorting sd))
      (s'\<lparr>sq_tx_pool := clear_nonces (sq_tx_pool s')\<rparr>)"
    by (rule seq_inv_pool[OF inv']) (use clear_nonces_ok seq_inv_parts[OF inv'] in auto)
  show "ok (next_ok (pr_est pr) (hist @ sealed_by inp (Sorting sd)))
     (case x of (err, s1) \<Rightarrow> (case err of
         None \<Rightarrow> Inr (sequencer_state_default,
                   s1\<lparr>sq_timings := (sq_timings s1)\<lparr>tm_last_tx_pool_check := in_now inp\<rparr>\<rparr>)
       | Some e \<Rightarrow>
           if (case e of SoftBlock _ _ \<Rightarrow> True | _ \<Rightarrow> is_nil_block e)
           then Inr (sequencer_state_default, s1\<lparr>sq_tx_pool := clear_nonces (sq_tx_pool s1)\<rparr>)
           else Inl ''failed seal block''))"
    unfolding xs prod.case
    using 1 2 by (cases err) (auto simp: sequencer_state_default_def)
qed

lemma state_transition_ok:
  assumes inv: "seq_inv (pr_est pr) hist s" and st: "state_ok st" and inp: "input_ok inp"
    and default: "cx_state (sq_ctx s) = sequencer_state_default"
  shows "ok (next_ok (pr_est pr) (hist @ sealed_by inp st)) (state_transition pr inp st s)"
proof (cases st)
  case (Sync l)
  with transition_sync_ok[OF inv, of pr inp l] show ?thesis
    by (simp add: state_transition_def sealed_by_def)
next
  case (Sorting sd)
  consider (discard) "should_discard sd" | (seal) "\<not> should_discard sd" "should_seal (in_now inp) sd"
    | (sort) "\<not> should_discard sd" "\<not> should_seal (in_now inp) sd" by blast
  then show ?thesis
  proof cases
    case discard
    with Sorting transition_discard_ok[OF inv, of sd] show ?thesis
      by (simp add: state_transition_def sealed_by_def)
  next
    case seal
    with Sorting st transition_seal_ok[OF inv _ inp seal default] show ?thesis
      by (simp add: state_transition_def)
  next
    case sort
    have "ok (\<lambda>(sd', sent). sd_ok sd') (maybe_sim_next_batch (pr_est pr)
        (sc_max_sims_per_loop (sq_config s)) (in_now inp) (in_took inp) sd)"
      using st Sorting maybe_sim_next_batch_sd_ok by simp
    then have "ok (next_ok (pr_est pr) hist) (bindR (maybe_sim_next_batch (pr_est pr)
        (sc_max_sims_per_loop (sq_config s)) (in_now inp) (in_took inp) sd)
        (\<lambda>(sd', _). Inr (Sorting sd', s)))"
      by (rule guarded_bind) (auto simp: inv)
    with sort Sorting show ?thesis by (simp add: state_transition_def sealed_by_def)
  qed
qed

subsection \<open>Iterations\<close>

text \<open>The block that an iteration seals: the transition starts from the state that \<open>tick\<close> leaves.\<close>

definition sealed_in :: "seq_params \<Rightarrow> loop_input \<Rightarrow> sequencer \<Rightarrow> sealed" where
  "sealed_in pr inp s =
     (case tick pr inp s of Inl _ \<Rightarrow> [] | Inr s1 \<Rightarrow> sealed_by inp (cx_state (sq_ctx s1)))"

lemma loop_step_ok:
  assumes inv: "seq_inv (pr_est pr) hist s" and inp: "input_ok inp"
  shows "ok (seq_inv (pr_est pr) (hist @ sealed_in pr inp s)) (loop_step pr inp s)"
proof (cases "tick pr inp s")
  case (Inl m)
  with tick_ok[OF inv, of pr inp] show ?thesis by (simp add: loop_step_def)
next
  case (Inr s1)
  with tick_ok[OF inv, of pr inp] have inv1: "seq_inv (pr_est pr) hist s1" by simp
  define st where "st = cx_state (sq_ctx s1)"
  define s2 where "s2 = s1\<lparr>sq_ctx := (sq_ctx s1)\<lparr>cx_state := sequencer_state_default\<rparr>\<rparr>"
  have inv2: "seq_inv (pr_est pr) hist s2"
    unfolding s2_def by (rule seq_inv_state[OF inv1]) (simp add: sequencer_state_default_def)
  have "state_ok st" "cx_state (sq_ctx s2) = sequencer_state_default"
    using seq_inv_parts(2)[OF inv1] by (simp_all add: st_def s2_def)
  from state_transition_ok[OF inv2 this(1) inp this(2)]
  have "ok (next_ok (pr_est pr) (hist @ sealed_by inp st)) (state_transition pr inp st s2)" .
  then have "ok (seq_inv (pr_est pr) (hist @ sealed_by inp st))
      (bindR (state_transition pr inp st s2) (\<lambda>(st', s3).
        Inr (s3\<lparr>sq_ctx := (sq_ctx s3)\<lparr>cx_state := st'\<rparr>\<rparr>)))"
    by (rule guarded_bind) (auto simp: seq_inv_state)
  with Inr show ?thesis by (simp add: loop_step_def sealed_in_def st_def s2_def)
qed

text \<open>The system: the sequencer, the history of sealed blocks (a ghost variable), and two kinds of
  events.  \<open>Arrive\<close> is everything that other threads do between two iterations: they append to the
  channels and change the shared schedule, flags and atomics.\<close>

record seq_sys =
  ys_seq :: sequencer
  ys_hist :: sealed

record arrivals =
  ar_l1 :: "header list"
  ar_l2 :: "block list"
  ar_origin :: "header list"
  ar_rpc :: "order list"
  ar_mempool :: "order list"
  ar_sims :: "(string + simulated_order) list"
  ar_lookahead :: lookahead
  ar_preconfs_enabled :: bool
  ar_window :: u64
  ar_shared :: shared_flags
  ar_l2_origin :: u64

datatype seq_event = Arrive arrivals | Iterate loop_input

definition arrive :: "arrivals \<Rightarrow> sequencer \<Rightarrow> sequencer" where
  "arrive ar s =
     s\<lparr>sq_spine := (sq_spine s)
         \<lparr>sp_l1_blocks_rx := sp_l1_blocks_rx (sq_spine s) @ ar_l1 ar,
          sp_l2_blocks_rx := sp_l2_blocks_rx (sq_spine s) @ ar_l2 ar,
          sp_origin_blocks_rx := sp_origin_blocks_rx (sq_spine s) @ ar_origin ar,
          sp_rpc_rx := sp_rpc_rx (sq_spine s) @ ar_rpc ar,
          sp_mempool_rx := sp_mempool_rx (sq_spine s) @ ar_mempool ar,
          sp_sim_rx := sp_sim_rx (sq_spine s) @ ar_sims ar\<rparr>,
       sq_lookahead := (sq_lookahead s)
         \<lparr>lh_lookahead := ar_lookahead ar, lh_preconfs_enabled := ar_preconfs_enabled ar,
          lh_handover_window_slots := ar_window ar\<rparr>,
       sq_shared := ar_shared ar,
       sq_ctx := (sq_ctx s)\<lparr>cx_l2_origin := ar_l2_origin ar\<rparr>\<rparr>"

fun seq_step :: "seq_params \<Rightarrow> seq_event \<Rightarrow> seq_sys \<Rightarrow> seq_sys run" where
  "seq_step pr (Arrive ar) y = Inr (y\<lparr>ys_seq := arrive ar (ys_seq y)\<rparr>)"
| "seq_step pr (Iterate inp) y =
     bindR (loop_step pr inp (ys_seq y)) (\<lambda>s.
       Inr \<lparr>ys_seq = s, ys_hist = ys_hist y @ sealed_in pr inp (ys_seq y)\<rparr>)"

fun seq_legal :: "seq_event \<Rightarrow> seq_sys \<Rightarrow> bool" where
  "seq_legal (Arrive ar) y = (\<forall>b \<in> set (ar_l2 ar). taiko_block b)"
| "seq_legal (Iterate inp) y = input_ok inp"

definition sys_inv :: "seq_params \<Rightarrow> seq_sys \<Rightarrow> bool" where
  "sys_inv pr y \<longleftrightarrow> seq_inv (pr_est pr) (ys_hist y) (ys_seq y)"

lemma ctx_inv_origin [simp]: "ctx_inv (cx\<lparr>cx_l2_origin := n\<rparr>) \<longleftrightarrow> ctx_inv cx"
  by (simp add: ctx_inv_def)

lemma arrive_ok:
  assumes inv: "seq_inv est hist s" and "\<forall>b \<in> set (ar_l2 ar). taiko_block b"
  shows "seq_inv est hist (arrive ar s)"
proof -
  have "history_ok est hist (arrive ar s)"
    by (rule history_frame[OF seq_inv_parts(7)[OF inv]]) (simp_all add: arrive_def batches_of_def)
  with assms show ?thesis by (auto simp: seq_inv_def beacon_sane_def arrive_def)
qed

lemma seq_step_guarded:
  assumes "sys_inv pr y" "seq_legal e y"
  shows "ok (sys_inv pr) (seq_step pr e y)"
proof (cases e)
  case (Arrive ar)
  with assms arrive_ok[of "pr_est pr" "ys_hist y" "ys_seq y" ar] show ?thesis by (simp add: sys_inv_def)
next
  case (Iterate inp)
  then have "ok (seq_inv (pr_est pr) (ys_hist y @ sealed_in pr inp (ys_seq y)))
      (loop_step pr inp (ys_seq y))"
    using assms loop_step_ok[of pr "ys_hist y" "ys_seq y" inp] by (simp add: sys_inv_def)
  then have "ok (sys_inv pr) (bindR (loop_step pr inp (ys_seq y)) (\<lambda>s.
       Inr \<lparr>ys_seq = s, ys_hist = ys_hist y @ sealed_in pr inp (ys_seq y)\<rparr>))"
    by (rule guarded_bind) (simp add: sys_inv_def)
  with Iterate show ?thesis by simp
qed

interpretation gateway: guarded_system "seq_step pr" seq_legal "sys_inv pr" deliberate for pr
  by unfold_locales (rule seq_step_guarded)

definition seq_sys_new :: "sequencer \<Rightarrow> seq_sys" where
  "seq_sys_new s = \<lparr>ys_seq = s, ys_hist = []\<rparr>"

lemma sys_inv_new:
  assumes "beacon_sane h"
  shows "sys_inv pr (seq_sys_new (sequencer_new now config cp c h l2o l1n sh))"
  using assms pool_new_ok
  by (simp add: sys_inv_def seq_sys_new_def seq_inv_def sequencer_new_def seq_context_new_def
      ctx_inv_def keyed_by_number_def sequencer_state_default_def spine_new_def history_ok_def
      batches_of_def)

end
