(* ===== verification/Seq_Fixtures.thy ===== *)
theory Seq_Fixtures
  imports Seq_Inv
begin

text \<open>
  A concrete gateway for the witnesses of the sequencer properties: operator 7 is scheduled, one L1
  header and one L2 block arrive, the first iteration anchors a block, the second seals it.
\<close>

definition fx_beacon :: beacon_handle where
  "fx_beacon = beacon_new 32 1000 12"

definition fx_lookahead :: lookahead_handle where
  "fx_lookahead =
     lookahead_handle_new 0 \<lparr>la_curr = 7, la_next = 7, la_updated_epoch = 2\<rparr> True 8 6000 fx_beacon"

definition fx_config :: sequencer_config where
  "fx_config =
     \<lparr>sc_target_block_time = from_secs 2, sc_coinbase_address = 9, sc_operator_address = 7,
      sc_l1_delay = from_secs 100, sc_l1_safe_lag = 1, sc_anchor_batch_lag = 8,
      sc_max_sims_per_loop = 4, sc_throttle_queue_target = 2, sc_batch_target_size = 375000,
      sc_min_orders_before_seal = 0, sc_max_block_skips = 2\<rparr>"

definition fx_chain :: taiko_chain_params where
  "fx_chain = taiko_chain_params_new 167
     \<lparr>bf_adjustment_quotient = 8, bf_sharing_pctg = 75, bf_gas_issuance_per_second = 5000000,
      bf_min_gas_excess = 1340000000, bf_max_gas_issuance_per_block = 600000000\<rparr>
     64 240000000 0 0 768"

definition fx_seq :: sequencer where
  "fx_seq = sequencer_new 0 fx_config fx_chain 1 fx_lookahead 0 0 shared_flags_new"

definition fx_header :: "u64 \<Rightarrow> b256 \<Rightarrow> b256 \<Rightarrow> address \<Rightarrow> u64 \<Rightarrow> header" where
  "fx_header n hash parent who ts =
     \<lparr>hd_number = n, hd_hash = hash, hd_parent_hash = parent, hd_state_root = 0,
      hd_beneficiary = who, hd_timestamp = ts, hd_gas_used = 21000, hd_gas_limit = 30000000\<rparr>"

definition fx_anchor_tx :: tx_envelope where
  "fx_anchor_tx = \<lparr>tx_nonce = 1, tx_max_fee_per_gas = 10, tx_priority_fee_or_price = 0,
     tx_hash = 0, tx_input = []\<rparr>"

definition fx_block :: "u64 \<Rightarrow> b256 \<Rightarrow> b256 \<Rightarrow> address \<Rightarrow> u64 \<Rightarrow> block" where
  "fx_block n hash parent who ts =
     \<lparr>blk_header = fx_header n hash parent who ts, blk_full = True,
      blk_txs = [(GOLDEN_TOUCH_ADDRESS, fx_anchor_tx)]\<rparr>"

definition fx_io :: anchor_io where
  "fx_io = \<lparr>aio_abi = (\<lambda>_ _ _ _ _. []), aio_sign = (\<lambda>_. Some fx_anchor_tx),
     aio_encoded_2718 = (\<lambda>_. []), aio_get_basefee = (\<lambda>_ _ _. Inr 10),
     aio_simulate = (\<lambda>_ _ _. Inr (Success (StateId 1) 21000 0)), aio_keccak = (\<lambda>_. 0)\<rparr>"

text \<open>An iteration at \<open>now\<close> nanoseconds and \<open>utc\<close> seconds whose seal answers \<open>b\<close>.\<close>

definition fx_input :: "instant \<Rightarrow> u64 \<Rightarrow> block \<Rightarrow> sequencer_error option \<Rightarrow> loop_input" where
  "fx_input now utc b gossip_error =
     \<lparr>in_now = now, in_utc = utc, in_late = (\<lambda>_ _. False), in_pool_nonce = (\<lambda>_. None),
      in_status = Inr 0, in_anchor_io = fx_io,
      in_seal = (\<lambda>_. Inr \<lparr>sr_cumulative_builder_payment = 0, sr_cumulative_gas_used = 0,
                        sr_built_block = b\<rparr>),
      in_gossip = (\<lambda>_ _. case gossip_error of None \<Rightarrow> Inr () | Some e \<Rightarrow> Inl e), in_took = 0\<rparr>"

definition fx_arrivals :: "header list \<Rightarrow> block list \<Rightarrow> arrivals" where
  "fx_arrivals l1 l2 =
     \<lparr>ar_l1 = l1, ar_l2 = l2, ar_origin = [], ar_rpc = [], ar_mempool = [], ar_sims = [],
      ar_lookahead = \<lparr>la_curr = 7, la_next = 7, la_updated_epoch = 2\<rparr>, ar_preconfs_enabled = True,
      ar_window = 8, ar_shared = shared_flags_new, ar_l2_origin = 0\<rparr>"

definition fx_params :: seq_params where
  "fx_params = \<lparr>pr_est = (\<lambda>n. n), pr_throttle = (\<lambda>_ n. n), pr_decode = (\<lambda>_. Some 77)\<rparr>"

definition fx_arrive :: seq_event where
  "fx_arrive = Arrive (fx_arrivals [fx_header 100 1 0 0 1900] [fx_block 5 50 40 1 1950])"

definition fx_events :: "seq_event list" where
  "fx_events =
     [fx_arrive,
      Iterate (fx_input 1000000000 2000 (fx_block 6 60 50 9 2002) None),
      Iterate (fx_input 4000000000 2003 (fx_block 6 60 50 9 2002) None)]"

definition fx_start :: seq_sys where
  "fx_start = seq_sys_new fx_seq"

lemma fx_sane: "beacon_sane fx_lookahead"
  by (simp add: beacon_sane_def fx_lookahead_def lookahead_handle_new_def fx_beacon_def beacon_new_def)

lemma fx_taiko: "n \<noteq> 0 \<Longrightarrow> taiko_block (fx_block n hash parent who ts)"
  by (simp add: taiko_block_def fx_block_def fx_header_def as_transactions_def)

lemma legal_run_always: "(\<And>e s. e \<in> set es \<Longrightarrow> legal e s) \<Longrightarrow> legal_run step legal es s"
  by (induction es arbitrary: s) (auto split: sum.splits)

lemma fx_legal: "legal_run (seq_step fx_params) seq_legal fx_events fx_start"
  by (rule legal_run_always)
     (auto simp: fx_events_def fx_arrive_def fx_arrivals_def input_ok_def fx_input_def fx_taiko)

lemmas fx_data =
  fx_beacon_def fx_lookahead_def fx_config_def fx_chain_def fx_seq_def fx_header_def
  fx_anchor_tx_def fx_block_def fx_io_def fx_input_def fx_arrivals_def fx_params_def
  fx_arrive_def beacon_new_def lookahead_handle_new_def taiko_chain_params_new_def
  sequencer_new_def seq_context_new_def shared_flags_new_def spine_new_def
  sequencer_flags_default_def timings_new_def tx_pool_new_def state_nonces_new_def
  sequencer_state_default_def propose_batch_params_default_def

lemmas fx_ops =
  loop_step_def tick_def recv_blocks_def on_l1_block_def on_l2_block_def on_origin_block_def
  fetch_txs_def handle_tx_def handle_sims_def check_can_sequence_def check_can_propose_def
  check_resync_def check_time_shift_def maybe_refresh_anchor_def update_anchor_def
  send_batch_to_proposer_def pending_est_def needs_anchor_refresh_def state_transition_def
  transition_sync_def transition_seal_def transition_discard_def start_block_def status_check_def
  anchor_block_def seal_block_def add_block_def time_shift_of_def arrive_def
  should_log_tx_pool_def can_retry_anchor_def can_produce_block_def should_check_status_def
  ANCHOR_RETRY_INTERVAL_def MAX_ANCHOR_ERRORS_def as_secs_def
  new_l1_block_def new_preconf_l2_block_def update_parent_block_id_def as_transactions_def
  from_header_and_anchor_nonce_def safe_l1_header_def l2_parent_def l2_origin_def
  bt_retain_def bt_first_def bt_get_def is_current_operator_def can_sequence_def can_propose_def
  should_clear_proposal_def maybe_refresh_def operators_at_def current_epoch_def current_slot_def
  div_u64_def cutoff_slot_def cutoff_time_def slot_epoch_start_def timestamp_of_slot_def
  is_propose_delayed_def current_pending_def add_pending_def elapsed_def from_secs_def
  from_millis_def saturating_sub_def assemble_anchor_def assemble_anchor_v3_def
  compute_next_base_fee_def simulate_anchor_def order_new_with_sender_def
  tp_active_orders_def get_active_for_nonces_def active_orders_new_def is_valid_block_def
  sn_clear_def ao_empty_def sort_data_new_def sorting_nonces_new_def set_should_seal_def
  should_discard_def should_seal_def is_past_target_seal_def is_past_max_skip_def
  is_enough_orders_def update_new_block_def merge_nonces.simps all_merged_def valid_block_def
  sealed_in_def sealed_by_def len64_def Let_def

lemma fx_run:
  "\<exists>y. run_events (seq_step fx_params) fx_events fx_start = Inr y \<and>
     map (\<lambda>x. hd_number (blk_header (fst x))) (ys_hist y) = [6] \<and>
     sq_proposer_request (ys_seq y) \<noteq> None"
  by (simp add: fx_events_def fx_start_def seq_sys_new_def fx_ops fx_data)

end
