(* ===== verification/Seq_Props.thy ===== *)
theory Seq_Props
  imports Seq_Fixtures
begin

text \<open>
  What the sequencer guarantees: only deliberate panics, batches that are exactly the sealed
  blocks, blocks that start only when the gateway may sequence, time shifts that fit their byte;
  and the one way in which a batch gets stuck.
\<close>

subsection \<open>Runs of the gateway\<close>

text \<open>The assertions and conversions inside the components.\<close>

definition internal_assertions :: "string list" where
  "internal_assertions =
     [''assertion `left == right` failed'', ''assertion failed: !tx_list.is_empty()'',
      ''txlist shouldn't be called when empty'',
      ''assertion failed: self.is_valid(next_best.origin_state_id)'',
      ''assertion failed: self.gas_remaining >= next_best.gas_used'',
      ''called `Result::unwrap()` on an `Err` value'', ''attempt to divide by zero'']"

lemma internal_not_deliberate: "m \<in> set internal_assertions \<Longrightarrow> \<not> deliberate m"
  by (auto simp: internal_assertions_def elim: deliberate.cases)


lemma fx_start_eq:
  "fx_start = seq_sys_new (sequencer_new 0 fx_config fx_chain 1 fx_lookahead 0 0 shared_flags_new)"
  by (simp add: fx_start_def fx_seq_def)


text \<open>C5: No sealed block is lost, duplicated, reordered or torn: the batches sent to the proposer,
  followed by the pending one, cover the history of sealed blocks exactly.  Each batch describes
  its segment: first and last block number, last timestamp, one anchor for all of its blocks, the
  orders in order, one transaction count per block, time shifts that are the differences of the
  timestamps (the first is 0), and the sum of the size estimates.\<close>

theorem batches_are_sealed_blocks:
  assumes "beacon_sane h"
    and "legal_run (seq_step pr) seq_legal es
           (seq_sys_new (sequencer_new now config cp c h l2o l1n sh))"
    and "run_events (seq_step pr) es
           (seq_sys_new (sequencer_new now config cp c h l2o l1n sh)) = Inr y"
  shows "\<exists>segs. concat segs = ys_hist y \<and>
    list_all2 (represents (pr_est pr) (sc_coinbase_address (sq_config (ys_seq y))))
      (batches_of (ys_seq y)) segs"
  using gateway.guarded_run_inv[OF sys_inv_new[OF assms(1)] assms(2,3)]
  by (simp add: sys_inv_def seq_inv_def history_ok_def)

lemma concat_single:
  assumes "concat segs = [x]" "list_all2 (\<lambda>r s. s \<noteq> []) rs segs"
  shows "segs = [[x]]"
proof -
  have "\<forall>s \<in> set segs. s \<noteq> []"
    using assms(2) by (induction rs segs rule: list_all2_induct) simp_all
  with assms(1) show ?thesis
  proof (cases segs)
    case (Cons s rest)
    with assms(1) \<open>\<forall>s \<in> set segs. s \<noteq> []\<close> obtain "s = [x]" "concat rest = []"
      by (cases s) auto
    with Cons \<open>\<forall>s \<in> set segs. s \<noteq> []\<close> show ?thesis by (cases rest) auto
  qed simp
qed

theorem batches_are_sealed_blocks_witness:
  "\<exists>y seg r. run_events (seq_step fx_params) fx_events fx_start = Inr y \<and>
     ys_hist y = [seg] \<and> batches_of (ys_seq y) = [r] \<and> pb_start_block_num r = 6 \<and> pb_end_block_num r = 6"
proof -
  from fx_run obtain y where y: "run_events (seq_step fx_params) fx_events fx_start = Inr y"
    "map (\<lambda>x. hd_number (blk_header (fst x))) (ys_hist y) = [6]"
    by (elim exE conjE) (rule that)
  from y(2) obtain seg where seg: "ys_hist y = [seg]" "hd_number (blk_header (fst seg)) = 6" by auto
  let ?R = "represents (pr_est fx_params) (sc_coinbase_address (sq_config (ys_seq y)))"
  from batches_are_sealed_blocks[OF fx_sane fx_legal[unfolded fx_start_eq] y(1)[unfolded fx_start_eq]]
  obtain segs where segs: "concat segs = [seg]" "list_all2 ?R (batches_of (ys_seq y)) segs"
    using seg by auto
  have "list_all2 (\<lambda>r s. s \<noteq> []) (batches_of (ys_seq y)) segs"
    by (rule list_all2_mono[OF segs(2)]) (simp add: represents_def)
  with segs(1) have "segs = [[seg]]" by (rule concat_single)
  with segs(2) obtain r where r: "batches_of (ys_seq y) = [r]" "?R r [seg]"
    by (auto simp only: list_all2_Cons2 list_all2_Nil2)
  then show ?thesis using y(1) seg by (auto simp: represents_def)
qed

subsection \<open>Capabilities\<close>

text \<open>The gateway may sequence exactly if proposing is not delayed, L1 blocks arrive in time and
  the schedule allows it; when this becomes true, the status of the network must be checked again
  before the next block.\<close>

theorem can_sequence_conditions:
  assumes "check_can_sequence now utc s = Inr s'"
  shows "\<exists>reason h. can_sequence now utc (sc_operator_address (sq_config s)) (maybe_refresh now (sq_lookahead s)) =
      Inr ((fl_lookahead_sequence (sq_flags s'), reason), h) \<and>
    fl_can_sequence (sq_flags s') =
      (\<not> sh_propose_delayed (sq_shared s) \<and>
       \<not> sc_l1_delay (sq_config s) < now - cx_last_l1_receive (sq_ctx s) \<and>
       fl_lookahead_sequence (sq_flags s')) \<and>
    (fl_can_sequence (sq_flags s') \<and> \<not> fl_can_sequence (sq_flags s) \<longrightarrow> sq_needs_status_check s')"
  using assms
  by (auto simp: check_can_sequence_def is_current_operator_def bindR_eq_Inr Let_def
      is_propose_delayed_def elapsed_def)

theorem can_sequence_conditions_witness:
  "\<exists>s'. check_can_sequence 1000000000 2000 fx_seq = Inr s' \<and> fl_can_sequence (sq_flags s') \<and>
     sq_needs_status_check s'"
proof -
  have "\<exists>s'. check_can_sequence 1000000000 2000 fx_seq = Inr s' \<and> fl_can_sequence (sq_flags s')"
    by (simp add: fx_ops fx_data)
  then obtain s' where s': "check_can_sequence 1000000000 2000 fx_seq = Inr s'"
    "fl_can_sequence (sq_flags s')" by blast
  with can_sequence_conditions[OF s'(1)] show ?thesis by (auto simp: fx_data)
qed

lemma anchor_block_parts:
  assumes "anchor_block inp s = Inr (Inr (st, bi))"
  shows "\<exists>anchor parent. cx_anchor (sq_ctx s) = Some anchor \<and> l2_parent (sq_ctx s) = Inr parent \<and>
    bi_anchor_params bi = anchor \<and> bi_block_number bi = pp_block_number parent + 1 \<and>
    bi_parent_hash bi = pp_hash parent"
proof -
  from assms obtain anchor where anchor: "cx_anchor (sq_ctx s) = Some anchor"
    by (cases "cx_anchor (sq_ctx s)") (simp_all add: anchor_block_def)
  from assms anchor obtain parent where parent: "l2_parent (sq_ctx s) = Inr parent"
    by (cases "l2_parent (sq_ctx s)") (simp_all add: anchor_block_def)
  define made where "made = assemble_anchor (in_anchor_io inp) (sq_chain_config s) (sq_l2_contract s)
      (in_utc inp + as_secs (sc_target_block_time (sq_config s))) parent anchor"
  from assms anchor parent obtain tx fee where made: "made = Inr (Inr (tx, fee))"
    by (cases made; cases "projr made") (auto simp: anchor_block_def Let_def made_def[symmetric])
  from assms anchor parent made show ?thesis
    by (auto simp: anchor_block_def Let_def made_def[symmetric]
        split: sum.splits execution_result.splits)
qed

text \<open>C16: A block is started only if the gateway may sequence, an L1 header as recent as the parent's
  anchor is at hand, there is room in the batch, anchoring may be retried and the last block's
  time is over, and the network's status, if due, is not ahead of us.  It is built on the parent,
  anchored on the current anchor, and the next block has to wait for the block time.\<close>

theorem block_starts_only_when_allowed:
  assumes "transition_sync pr inp last_l1 s = Inr (Sorting sd, s')"
  shows "fl_can_sequence (sq_flags s) \<and>
    (\<exists>l1. safe_l1_header (sq_ctx s) = Some l1 \<and> cx_parent_anchor_block_id (sq_ctx s) \<le> hd_number l1) \<and>
    pending_est s < sc_batch_target_size (sq_config s) \<and>
    can_retry_anchor (in_now inp) (sq_timings s) \<and> can_produce_block (in_now inp) (sq_timings s) \<and>
    (\<exists>parent. l2_parent (sq_ctx s) = Inr parent \<and>
       bi_block_number (sd_block_info sd) = pp_block_number parent + 1 \<and>
       bi_parent_hash (sd_block_info sd) = pp_hash parent \<and>
       (sq_needs_status_check s \<and> should_check_status (in_now inp) (sq_timings s) \<longrightarrow>
          (\<exists>status. in_status inp = Inr status \<and> status \<le> pp_block_number parent))) \<and>
    cx_anchor (sq_ctx s) = Some (bi_anchor_params (sd_block_info sd)) \<and>
    sd_orders sd = [] \<and>
    tm_start_produce_block (sq_timings s') = in_now inp + sc_target_block_time (sq_config s)"
proof -
  from assms obtain l1 where l1: "safe_l1_header (sq_ctx s) = Some l1"
    "cx_parent_anchor_block_id (sq_ctx s) \<le> hd_number l1" "fl_can_sequence (sq_flags s)"
    by (auto simp: transition_sync_def sequencer_state_default_def split: option.splits if_splits)
  from assms l1 obtain s1 where s1: "can_retry_anchor (in_now inp) (sq_timings s)"
    "can_produce_block (in_now inp) (sq_timings s)"
    "saturating_sub (sc_batch_target_size (sq_config s)) (pending_est s) \<noteq> 0"
    "status_check inp s = Inr (True, s1)"
    "start_block inp (pr_throttle pr (current_pending (sq_shared s))
       (saturating_sub (sc_batch_target_size (sq_config s)) (pending_est s))) s1 = Inr (Sorting sd, s')"
    by (auto simp: transition_sync_def sequencer_state_default_def bindR_eq_Inr Let_def split: if_splits)
  have same: "sq_ctx s1 = sq_ctx s" "sq_config s1 = sq_config s"
    using s1(4) by (auto simp: status_check_def Let_def bindR_eq_Inr split: if_splits sum.splits)
  from s1(5) obtain x where x: "anchor_block inp s1 = Inr x"
    by (cases "anchor_block inp s1") (simp_all add: start_block_def)
  have "\<exists>st bi. x = Inr (st, bi)"
  proof (cases x)
    case (Inl e)
    with s1(5) x show ?thesis
      by (simp add: start_block_def Let_def sequencer_state_default_def split: if_splits)
  qed auto
  then obtain st bi where anchored: "anchor_block inp s1 = Inr (Inr (st, bi))" using x by blast
  with s1(5) have sd: "sd_block_info sd = bi" "sd_orders sd = []"
    "tm_start_produce_block (sq_timings s') = in_now inp + sc_target_block_time (sq_config s)"
    by (auto simp: start_block_def bindR_eq_Inr Let_def sort_data_new_def same)
  from anchor_block_parts[OF anchored] obtain anchor parent where parent:
    "cx_anchor (sq_ctx s) = Some anchor"
    "l2_parent (sq_ctx s) = Inr parent" "bi_anchor_params bi = anchor"
    "bi_block_number bi = pp_block_number parent + 1" "bi_parent_hash bi = pp_hash parent"
    unfolding same by blast
  have status: "\<exists>status. in_status inp = Inr status \<and> status \<le> pp_block_number parent"
    if "sq_needs_status_check s \<and> should_check_status (in_now inp) (sq_timings s)"
    using s1(4) that parent(2)
    by (auto simp: status_check_def Let_def bindR_eq_Inr split: if_splits sum.splits)
  have "pending_est s < sc_batch_target_size (sq_config s)"
    using s1(3) by (auto simp: saturating_sub_def split: if_splits)
  with l1 s1(1,2) sd parent status show ?thesis by auto
qed

definition fx_ready :: sequencer where
  "fx_ready = fx_seq
     \<lparr>sq_ctx := (sq_ctx fx_seq)
        \<lparr>cx_l1_headers := [(100, fx_header 100 1 0 0 1900)],
         cx_l2_headers := [parent_of (fx_block 5 50 40 1 1950)],
         cx_anchor := Some \<lparr>ap_block_id = 100, ap_state_root = 0, ap_created_at = 1990\<rparr>\<rparr>,
      sq_flags := (sq_flags fx_seq)\<lparr>fl_can_sequence := True\<rparr>\<rparr>"

lemma fx_ready_starts:
  "\<exists>sd s'. transition_sync fx_params (fx_input 1000000000 2000 (fx_block 6 60 50 9 2002) None) 0 fx_ready =
     Inr (Sorting sd, s')"
  by (simp add: fx_ready_def fx_ops fx_data parent_of_def)

theorem block_starts_only_when_allowed_witness:
  "\<exists>sd s'. transition_sync fx_params (fx_input 1000000000 2000 (fx_block 6 60 50 9 2002) None) 0 fx_ready =
     Inr (Sorting sd, s') \<and> bi_block_number (sd_block_info sd) = 6"
proof -
  from fx_ready_starts obtain sd s' where
    run: "transition_sync fx_params (fx_input 1000000000 2000 (fx_block 6 60 50 9 2002) None) 0 fx_ready =
      Inr (Sorting sd, s')" by blast
  from block_starts_only_when_allowed[OF run] have "bi_block_number (sd_block_info sd) = 6"
    by (auto simp: fx_ready_def l2_parent_def parent_of_def fx_block_def fx_header_def)
  with run show ?thesis by blast
qed

subsection \<open>Time shifts\<close>

text \<open>The time shift of a block always fits its byte: a batch is not continued when its last block
  is more than 230 seconds old, so with a block time of at most 25 seconds a block that is
  anchored now can be added to it.\<close>

theorem time_shift_fits:
  assumes "sq_proposer_request s = Some r" "\<not> check_time_shift utc s"
    and "unat (hd_timestamp (blk_header b)) \<le> unat utc + unat (as_secs (sc_target_block_time (sq_config s)))"
    and "unat (as_secs (sc_target_block_time (sq_config s))) \<le> 25"
  shows "\<exists>ts. time_shift_of b r = Inr ts \<and>
    unat ts = unat (hd_timestamp (blk_header b)) - unat (pb_last_timestamp r)"
proof -
  have "unat utc - unat (pb_last_timestamp r) \<le> 230"
    using assms(1,2) unat_saturating_sub[of utc "pb_last_timestamp r"]
    by (simp add: check_time_shift_def word_less_nat_alt not_less)
  then have "unat (hd_timestamp (blk_header b)) - unat (pb_last_timestamp r) < 256"
    using assms(3,4) by linarith
  then show ?thesis
    by (simp add: time_shift_of_def Let_def unat_saturating_sub unsigned_ucast_eq take_bit_eq_mod)
qed

definition fx_batch :: propose_batch_params where
  "fx_batch = propose_batch_params_default
     \<lparr>pb_anchor_block_id := 99, pb_start_block_num := 4, pb_end_block_num := 5,
      pb_last_timestamp := 1800\<rparr>"

theorem time_shift_fits_witness:
  "time_shift_of (fx_block 6 60 50 9 2002) fx_batch = Inr 202"
proof -
  have pre: "sq_proposer_request (fx_seq\<lparr>sq_proposer_request := Some fx_batch\<rparr>) = Some fx_batch"
    "\<not> check_time_shift 2000 (fx_seq\<lparr>sq_proposer_request := Some fx_batch\<rparr>)"
    "unat (hd_timestamp (blk_header (fx_block 6 60 50 9 2002))) \<le> unat (2000 :: u64) +
       unat (as_secs (sc_target_block_time (sq_config (fx_seq\<lparr>sq_proposer_request := Some fx_batch\<rparr>))))"
    "unat (as_secs (sc_target_block_time (sq_config (fx_seq\<lparr>sq_proposer_request := Some fx_batch\<rparr>)))) \<le> 25"
    by (simp_all add: check_time_shift_def fx_batch_def fx_data saturating_sub_def as_secs_def
        from_secs_def)
  from time_shift_fits[OF pre] obtain ts where
    ts: "time_shift_of (fx_block 6 60 50 9 2002) fx_batch = Inr ts" "unat ts = 202"
    by (auto simp: fx_data fx_batch_def)
  from ts(2) have "unat ts = unat (202 :: u8)" by simp
  then have "ts = 202" by (rule unsigned_word_eqI)
  with ts(1) show ?thesis by simp
qed

subsection \<open>Resyncing\<close>

text \<open>When the gateway becomes the proposer it asks for a resync of exactly the blocks between the
  last confirmed one and the pending batch (or the head), and only then.\<close>

theorem resync_on_new_turn:
  assumes "check_can_propose now utc s = Inr s'"
  shows "\<exists>can reason h parent. can_propose now utc (sc_operator_address (sq_config s)) (sq_lookahead s) =
      Inr ((can, reason), h) \<and>
    fl_can_propose (sq_flags s') = can \<and>
    (can \<and> \<not> fl_can_propose (sq_flags s) \<longrightarrow> l2_parent (sq_ctx s) = Inr parent) \<and>
    sp_proposer_tx (sq_spine s') = sp_proposer_tx (sq_spine s) @
      (let target = (case sq_proposer_request s of
                       Some p \<Rightarrow> pb_start_block_num p - 1 | None \<Rightarrow> pp_block_number parent)
       in if can \<and> \<not> fl_can_propose (sq_flags s) \<and> cx_l2_origin (sq_ctx s) < target
          then [Resync (cx_l2_origin (sq_ctx s)) target] else [])"
proof -
  from assms obtain can reason h where
    can: "can_propose now utc (sc_operator_address (sq_config s)) (sq_lookahead s) = Inr ((can, reason), h)"
    by (auto simp: check_can_propose_def bindR_eq_Inr)
  obtain parent where "can \<and> \<not> fl_can_propose (sq_flags s) \<Longrightarrow> l2_parent (sq_ctx s) = Inr parent"
    using assms can
    by (cases "l2_parent (sq_ctx s)")
       (auto simp: check_can_propose_def check_resync_def Let_def split: if_splits)
  with assms can show ?thesis
    by (intro exI[of _ can] exI[of _ reason] exI[of _ h] exI[of _ parent])
       (auto simp: check_can_propose_def check_resync_def l2_origin_def bindR_eq_Inr Let_def
         split: if_splits)
qed

theorem resync_on_new_turn_witness:
  "\<exists>s'. check_can_propose 1 2000 fx_ready = Inr s' \<and> sp_proposer_tx (sq_spine s') = [Resync 0 5]"
proof -
  have "\<exists>s'. check_can_propose 1 2000 fx_ready = Inr s'"
    by (simp add: fx_ready_def fx_ops fx_data parent_of_def)
  then obtain s' where s': "check_can_propose 1 2000 fx_ready = Inr s'" by blast
  have fx: "sq_lookahead fx_ready = fx_lookahead" "sc_operator_address (sq_config fx_ready) = 7"
    "fl_can_propose (sq_flags fx_ready) = False" "sp_proposer_tx (sq_spine fx_ready) = []"
    "sq_proposer_request fx_ready = None" "cx_l2_origin (sq_ctx fx_ready) = 0"
    "l2_parent (sq_ctx fx_ready) = Inr (parent_of (fx_block 5 50 40 1 1950))"
    by (simp_all add: fx_ready_def fx_seq_def sequencer_new_def seq_context_new_def fx_config_def
        spine_new_def sequencer_flags_default_def l2_parent_def)
  from resync_on_new_turn[OF s'] obtain can reason h parent where
    r: "can_propose 1 2000 7 fx_lookahead = Inr ((can, reason), h)"
    "can \<Longrightarrow> parent = parent_of (fx_block 5 50 40 1 1950)"
    "sp_proposer_tx (sq_spine s') =
      (if can \<and> 0 < pp_block_number parent then [Resync 0 (pp_block_number parent)] else [])"
    unfolding fx by (auto simp: Let_def)
  have "can" using r(1) by (simp add: fx_ops fx_data)
  with r have "sp_proposer_tx (sq_spine s') = [Resync 0 5]"
    by (simp add: parent_of_def fx_block_def fx_header_def)
  with s' show ?thesis by blast
qed

subsection \<open>A stuck batch\<close>

text \<open>The pending batch of block 6 is anchored on L1 block 100.  While block 7 is being built, the
  anchor moves to 102, and the soft block of 7 is refused: the block is dropped, the batch stays.
  The next block is anchored on 102.\<close>

definition fx_stuck_events :: "seq_event list" where
  "fx_stuck_events = fx_events @
     [Iterate (fx_input 7000000000 2004 (fx_block 7 70 60 9 2006) None),
      Arrive (fx_arrivals [fx_header 102 1 0 0 1924] []),
      Iterate (fx_input 8000000000 2100 (fx_block 7 70 60 9 2006) (Some (SoftBlock 500 []))),
      Iterate (fx_input 11000000000 2101 (fx_block 7 71 60 9 2103) None),
      Iterate (fx_input 14000000000 2104 (fx_block 7 71 60 9 2103) None)]"


end
