(* ===== verification/Batch_Requests.thy ===== *)
theory Batch_Requests
  imports Batch_Data
begin

text \<open>
  Rebuilding batches from blocks of the chain: \<open>request_from_blocks\<close> of
  \<open>crates/proposer/src/manager.rs\<close>.

  Parameters: \<open>compress\<close> is \<open>encode_and_compress_orders\<close> (RLP and zlib), \<open>enc\<close> the transaction
  encoding.  The totals that are only logged are left out.
\<close>

subsection \<open>request_from_blocks\<close>

definition into_transactions :: "block \<Rightarrow> (address \<times> tx_envelope) list" where
  "into_transactions b = (if blk_full b then blk_txs b else [])"

definition block_orders :: "(tx_envelope \<Rightarrow> bytes) \<Rightarrow> block \<Rightarrow> order list" where
  "block_orders enc b =
     map (\<lambda>(sender, tx). order_new_with_sender enc tx sender)
       (filter (\<lambda>(sender, tx). sender \<noteq> GOLDEN_TOUCH_ADDRESS) (into_transactions b))"

text \<open>The limits and overrides that stay the same for all blocks.\<close>

record request_env =
  re_enc :: "tx_envelope \<Rightarrow> bytes"
  re_compress :: "order list \<Rightarrow> bytes"
  re_anchor_block_id :: u64
  re_coinbase :: address
  re_timestamp_override :: "u64 option"
  re_timeshift_override :: "u8 option"
  re_max_blocks_per_batch :: usize
  re_batch_target_size :: usize

definition block_timestamp :: "request_env \<Rightarrow> block \<Rightarrow> u64" where
  "block_timestamp re b =
     (case re_timestamp_override re of Some t \<Rightarrow> t | None \<Rightarrow> hd_timestamp (blk_header b))"

definition request_time_shift :: "request_env \<Rightarrow> u64 \<Rightarrow> block \<Rightarrow> u8" where
  "request_time_shift re last_timestamp b =
     (let d = saturating_sub (hd_timestamp (blk_header b)) last_timestamp;
          time_shift = (if unat d < 256 then ucast d else 0)
      in case re_timeshift_override re of Some v \<Rightarrow> v | None \<Rightarrow> time_shift)"

text \<open>One iteration: the batches so far and the current one.\<close>

definition request_step ::
    "request_env \<Rightarrow> block \<Rightarrow> propose_batch_params list \<times> propose_batch_params \<Rightarrow>
     propose_batch_params list \<times> propose_batch_params" where
  "request_step re b = (\<lambda>(batches, cur_params).
     (let block_txs = len64 (blk_txs b) - 1;
          txs = block_orders (re_enc re) b;
          new_tx_list = pb_all_tx_list cur_params @ txs;
          compressed = re_compress re new_tx_list;
          (batches, cur) =
            (if re_batch_target_size re < len64 compressed \<or>
                re_max_blocks_per_batch re \<le> len64 (pb_block_params cur_params)
             then (batches @ [cur_params],
                   \<lparr>pb_anchor_block_id = re_anchor_block_id re,
                    pb_start_block_num = hd_number (blk_header b), pb_end_block_num = 0,
                    pb_last_timestamp = block_timestamp re b, pb_block_params = [],
                    pb_all_tx_list = txs, pb_compressed_est = len64 compressed,
                    pb_coinbase = re_coinbase re\<rparr>)
             else (batches, cur_params\<lparr>pb_all_tx_list := new_tx_list,
                                        pb_compressed_est := len64 compressed\<rparr>));
          time_shift = request_time_shift re (pb_last_timestamp cur) b
      in (batches,
          cur\<lparr>pb_last_timestamp := block_timestamp re b,
              pb_end_block_num := hd_number (blk_header b),
              pb_block_params := pb_block_params cur @
                [\<lparr>bp_numTransactions = ucast block_txs, bp_timeShift = time_shift,
                  bp_signalSlots = []\<rparr>]\<rparr>)))"

definition request_env_of ::
    "(tx_envelope \<Rightarrow> bytes) \<Rightarrow> (order list \<Rightarrow> bytes) \<Rightarrow> u64 \<Rightarrow> block \<Rightarrow> u64 option \<Rightarrow> u8 option \<Rightarrow>
     usize \<Rightarrow> usize \<Rightarrow> request_env" where
  "request_env_of enc compress anchor_block_id first tso sho max_blocks target =
     \<lparr>re_enc = enc, re_compress = compress, re_anchor_block_id = anchor_block_id,
      re_coinbase = hd_beneficiary (blk_header first), re_timestamp_override = tso,
      re_timeshift_override = sho, re_max_blocks_per_batch = max_blocks,
      re_batch_target_size = target\<rparr>"

definition first_params :: "request_env \<Rightarrow> block \<Rightarrow> propose_batch_params" where
  "first_params re b =
     \<lparr>pb_anchor_block_id = re_anchor_block_id re,
      pb_start_block_num = hd_number (blk_header b), pb_end_block_num = hd_number (blk_header b),
      pb_last_timestamp = block_timestamp re b, pb_block_params = [], pb_all_tx_list = [],
      pb_compressed_est = 0, pb_coinbase = re_coinbase re\<rparr>"

definition request_from_blocks ::
    "(tx_envelope \<Rightarrow> bytes) \<Rightarrow> (order list \<Rightarrow> bytes) \<Rightarrow> u64 \<Rightarrow> block list \<Rightarrow> u64 option \<Rightarrow> u8 option \<Rightarrow>
     usize \<Rightarrow> usize \<Rightarrow> propose_batch_params list run" where
  "request_from_blocks enc compress anchor_block_id full_blocks tso sho max_blocks target =
     (case full_blocks of
        [] \<Rightarrow> Inl ''no blocks to propose''
      | first # _ \<Rightarrow>
          (let re = request_env_of enc compress anchor_block_id first tso sho max_blocks target;
               (batches, cur_params) = fold (request_step re) full_blocks ([], first_params re first)
           in Inr (batches @ [cur_params])))"

subsection \<open>What a request stands for\<close>

text \<open>The time shifts of consecutive blocks, the first of them relative to \<open>prev\<close>.\<close>

fun shifts_from :: "request_env \<Rightarrow> block \<Rightarrow> block list \<Rightarrow> u8 list" where
  "shifts_from re prev [] = []"
| "shifts_from re prev (b # bs) =
     request_time_shift re (block_timestamp re prev) b # shifts_from re b bs"

lemma shifts_from_snoc:
  "shifts_from re prev (bs @ [b]) =
     shifts_from re prev bs @ [request_time_shift re (block_timestamp re (last (prev # bs))) b]"
  by (induction bs arbitrary: prev) auto

text \<open>A request describes a segment of the blocks.\<close>

definition describes :: "request_env \<Rightarrow> propose_batch_params \<Rightarrow> block list \<Rightarrow> bool" where
  "describes re r seg \<longleftrightarrow>
     pb_anchor_block_id r = re_anchor_block_id re \<and> pb_coinbase r = re_coinbase re \<and>
     pb_all_tx_list r = concat (map (block_orders (re_enc re)) seg) \<and>
     map bp_numTransactions (pb_block_params r) = map (\<lambda>b. ucast (len64 (blk_txs b) - 1)) seg \<and>
     map bp_timeShift (pb_block_params r) = shifts_from re (hd seg) seg \<and>
     (seg \<noteq> [] \<longrightarrow>
        pb_start_block_num r = hd_number (blk_header (hd seg)) \<and>
        pb_end_block_num r = hd_number (blk_header (last seg)) \<and>
        pb_last_timestamp r = block_timestamp re (last seg))"

text \<open>Within the limits: at most \<open>max_blocks_per_batch\<close> blocks, and a target size that only a
  batch of a single block exceeds.\<close>

definition within_limits :: "request_env \<Rightarrow> propose_batch_params \<Rightarrow> bool" where
  "within_limits re r \<longleftrightarrow>
     (len64 (pb_block_params r) \<le> re_max_blocks_per_batch re \<or> length (pb_block_params r) \<le> 1) \<and>
     (len64 (re_compress re (pb_all_tx_list r)) \<le> re_batch_target_size re \<or>
      length (pb_block_params r) \<le> 1)"

definition starts_at :: "request_env \<Rightarrow> propose_batch_params \<Rightarrow> block \<Rightarrow> bool" where
  "starts_at re r b \<longleftrightarrow>
     pb_start_block_num r = hd_number (blk_header b) \<and> pb_last_timestamp r = block_timestamp re b"

text \<open>A first block that does not fit leaves an empty batch in front.\<close>

definition oversize :: "request_env \<Rightarrow> block \<Rightarrow> bool" where
  "oversize re b \<longleftrightarrow>
     re_batch_target_size re < len64 (re_compress re (block_orders (re_enc re) b)) \<or>
     re_max_blocks_per_batch re = 0"

text \<open>The invariant of the loop: the batches describe the blocks handled so far.\<close>

definition requests_inv ::
    "request_env \<Rightarrow> block list \<Rightarrow> propose_batch_params list \<times> propose_batch_params \<Rightarrow>
     block list list \<Rightarrow> block list \<Rightarrow> bool" where
  "requests_inv re handled = (\<lambda>(batches, cur) segs seg.
     concat segs @ seg = handled \<and> list_all2 (describes re) batches segs \<and> describes re cur seg \<and>
     (if handled = [] then segs = [] else seg \<noteq> [] \<and> ([] \<in> set segs \<longleftrightarrow> oversize re (hd handled))) \<and>
     [] \<notin> set (tl segs) \<and> (\<forall>r \<in> set (batches @ [cur]). within_limits re r))"

lemma describes_length: "describes re r seg \<Longrightarrow> length (pb_block_params r) = length seg"
  unfolding describes_def by (elim conjE) (drule map_eq_imp_length_eq, simp)

lemma describes_new:
  "describes re
     \<lparr>pb_anchor_block_id = re_anchor_block_id re, pb_start_block_num = hd_number (blk_header b),
      pb_end_block_num = hd_number (blk_header b), pb_last_timestamp = block_timestamp re b,
      pb_block_params = [\<lparr>bp_numTransactions = ucast (len64 (blk_txs b) - 1),
        bp_timeShift = request_time_shift re (block_timestamp re b) b, bp_signalSlots = []\<rparr>],
      pb_all_tx_list = block_orders (re_enc re) b, pb_compressed_est = e,
      pb_coinbase = re_coinbase re\<rparr> [b]"
  by (simp add: describes_def)

lemma describes_add:
  assumes "describes re r seg" "seg \<noteq> [] \<or> starts_at re r b"
  shows "describes re
     (r\<lparr>pb_all_tx_list := pb_all_tx_list r @ block_orders (re_enc re) b, pb_compressed_est := e,
        pb_last_timestamp := block_timestamp re b, pb_end_block_num := hd_number (blk_header b),
        pb_block_params := pb_block_params r @
          [\<lparr>bp_numTransactions = ucast (len64 (blk_txs b) - 1),
            bp_timeShift = request_time_shift re (pb_last_timestamp r) b, bp_signalSlots = []\<rparr>]\<rparr>)
     (seg @ [b])"
proof (cases "seg = []")
  case True
  with assms show ?thesis by (simp add: describes_def starts_at_def)
next
  case False
  with assms(1) show ?thesis by (simp add: describes_def shifts_from_snoc)
qed

lemma describes_Nil: "describes re r [] \<Longrightarrow> pb_all_tx_list r = [] \<and> pb_block_params r = []"
  by (simp add: describes_def)

lemma word_add_one_le: "a < (m :: u64) \<Longrightarrow> a + 1 \<le> m"
  by (simp add: inc_le)

lemma requests_inv_push:
  assumes inv: "requests_inv re handled (batches, cur) segs seg"
    and over: "handled = [] \<Longrightarrow> oversize re b" and r: "describes re r [b]" "length (pb_block_params r) = 1"
  shows "requests_inv re (handled @ [b]) (batches @ [cur], r) (segs @ [seg]) [b]"
proof -
  have "within_limits re r" using r(2) by (simp add: within_limits_def)
  moreover have "[] \<notin> set (tl (segs @ [seg]))"
    using inv by (cases segs) (auto simp: requests_inv_def split: if_splits)
  moreover have "[] \<in> set (segs @ [seg]) \<longleftrightarrow> oversize re (hd (handled @ [b]))"
    using inv over by (cases "handled = []") (auto simp: requests_inv_def)
  moreover have "concat segs @ seg = handled" "list_all2 (describes re) batches segs"
    "describes re cur seg" "\<forall>r \<in> set (batches @ [cur]). within_limits re r"
    using inv by (simp_all add: requests_inv_def)
  ultimately show ?thesis
    using r(1) by (simp add: requests_inv_def list_all2_appendI flip: append_assoc)
qed

lemma requests_inv_add:
  assumes inv: "requests_inv re handled (batches, cur) segs seg"
    and fits: "handled = [] \<Longrightarrow> \<not> oversize re b" and r: "describes re r (seg @ [b])" "within_limits re r"
  shows "requests_inv re (handled @ [b]) (batches, r) segs (seg @ [b])"
proof -
  have "[] \<in> set segs \<longleftrightarrow> oversize re (hd (handled @ [b]))"
    using inv fits by (cases "handled = []") (auto simp: requests_inv_def)
  moreover have "concat segs @ seg = handled" "list_all2 (describes re) batches segs"
    "\<forall>r \<in> set (batches @ [cur]). within_limits re r" "[] \<notin> set (tl segs)"
    using inv by (simp_all add: requests_inv_def)
  ultimately show ?thesis
    using r by (simp add: requests_inv_def flip: append_assoc)
qed

lemma requests_inv_step:
  assumes inv: "requests_inv re handled (batches, cur) segs seg"
    and start: "handled = [] \<Longrightarrow> starts_at re cur b"
  shows "\<exists>segs' seg'. requests_inv re (handled @ [b]) (request_step re b (batches, cur)) segs' seg'"
proof -
  define txs where "txs = block_orders (re_enc re) b"
  define e where "e = len64 (re_compress re (pb_all_tx_list cur @ txs))"
  define push where "push \<longleftrightarrow> re_batch_target_size re < e \<or>
      re_max_blocks_per_batch re \<le> len64 (pb_block_params cur)"
  have cur: "describes re cur seg" using inv by (simp add: requests_inv_def)
  have seg: "seg = [] \<longleftrightarrow> handled = []" using inv by (auto simp: requests_inv_def split: if_splits)
  have over: "push \<longleftrightarrow> oversize re b" if "handled = []"
    using describes_Nil[of re cur] cur seg that by (simp add: push_def oversize_def e_def txs_def)
  show ?thesis
  proof (cases push)
    case True
    then have "request_step re b (batches, cur) =
        (batches @ [cur],
         \<lparr>pb_anchor_block_id = re_anchor_block_id re, pb_start_block_num = hd_number (blk_header b),
          pb_end_block_num = hd_number (blk_header b), pb_last_timestamp = block_timestamp re b,
          pb_block_params = [\<lparr>bp_numTransactions = ucast (len64 (blk_txs b) - 1),
            bp_timeShift = request_time_shift re (block_timestamp re b) b, bp_signalSlots = []\<rparr>],
          pb_all_tx_list = txs, pb_compressed_est = e, pb_coinbase = re_coinbase re\<rparr>)"
      by (simp add: request_step_def push_def e_def txs_def Let_def)
    moreover note requests_inv_push[OF inv _ describes_new[of re b e]] over True
    ultimately show ?thesis by (auto simp: txs_def)
  next
    case False
    define r where "r = cur\<lparr>pb_all_tx_list := pb_all_tx_list cur @ txs, pb_compressed_est := e,
        pb_last_timestamp := block_timestamp re b, pb_end_block_num := hd_number (blk_header b),
        pb_block_params := pb_block_params cur @
          [\<lparr>bp_numTransactions = ucast (len64 (blk_txs b) - 1),
            bp_timeShift = request_time_shift re (pb_last_timestamp cur) b, bp_signalSlots = []\<rparr>]\<rparr>"
    from False have step: "request_step re b (batches, cur) = (batches, r)"
      by (simp add: request_step_def push_def e_def txs_def Let_def r_def)
    have "describes re r (seg @ [b])"
      using describes_add[OF cur, of b e] start seg by (auto simp: r_def txs_def)
    moreover have "within_limits re r"
      using False word_add_one_le[of "len64 (pb_block_params cur)" "re_max_blocks_per_batch re"]
      by (simp add: within_limits_def r_def push_def e_def not_less not_le)
    ultimately show ?thesis
      using requests_inv_add[OF inv, of b r] over False unfolding step by blast
  qed
qed

lemma requests_inv_fold:
  assumes "requests_inv re handled st segs seg" "handled \<noteq> []"
  shows "\<exists>segs' seg'. requests_inv re (handled @ bs) (fold (request_step re) bs st) segs' seg'"
  using assms
proof (induction bs arbitrary: handled st segs seg)
  case (Cons b bs)
  obtain batches cur where st: "st = (batches, cur)" by fastforce
  with Cons.prems requests_inv_step[of re handled batches cur segs seg b] obtain segs' seg' where
    "requests_inv re (handled @ [b]) (request_step re b st) segs' seg'" by blast
  from Cons.IH[OF this] show ?case by simp
qed auto

lemma requests_inv_first:
  "requests_inv re [] ([], first_params re b) [] [] \<and> starts_at re (first_params re b) b"
  by (simp add: requests_inv_def describes_def within_limits_def first_params_def starts_at_def)

text \<open>All blocks are requested, in order; an empty request occurs exactly if the first block is
  too large, and then it comes first.\<close>

lemma request_from_blocks_ok:
  assumes "blocks \<noteq> []"
    and re: "re = request_env_of enc compress anchor (hd blocks) tso sho max_blocks target"
  shows "\<exists>rs segs. request_from_blocks enc compress anchor blocks tso sho max_blocks target = Inr rs \<and>
    concat segs = blocks \<and> list_all2 (describes re) rs segs \<and> (\<forall>r \<in> set rs. within_limits re r) \<and>
    ([] \<in> set segs \<longleftrightarrow> oversize re (hd blocks)) \<and> [] \<notin> set (tl segs)"
proof -
  obtain b bs where bs: "blocks = b # bs" using assms(1) by (cases blocks) auto
  from requests_inv_step[of re "[]" "[]" "first_params re b" "[]" "[]" b] requests_inv_first[of re b]
  obtain segs1 seg1 where "requests_inv re [b] (request_step re b ([], first_params re b)) segs1 seg1"
    by auto
  from requests_inv_fold[OF this, of bs] obtain segs seg where
    inv: "requests_inv re blocks (fold (request_step re) blocks ([], first_params re b)) segs seg"
    by (auto simp: bs)
  obtain batches cur where st: "fold (request_step re) blocks ([], first_params re b) = (batches, cur)"
    by fastforce
  have "request_from_blocks enc compress anchor blocks tso sho max_blocks target = Inr (batches @ [cur])"
    using st by (simp add: request_from_blocks_def bs re)
  moreover have parts: "concat segs @ seg = blocks" "list_all2 (describes re) batches segs"
    "describes re cur seg" "seg \<noteq> []" "[] \<in> set segs \<longleftrightarrow> oversize re (hd blocks)"
    "[] \<notin> set (tl segs)" "\<forall>r \<in> set (batches @ [cur]). within_limits re r"
    using inv[unfolded st] assms(1) by (simp_all add: requests_inv_def)
  moreover have "list_all2 (describes re) (batches @ [cur]) (segs @ [seg])"
    using parts by (simp add: list_all2_appendI)
  moreover have "[] \<notin> set (tl (segs @ [seg]))"
    using parts(4,6) by (cases segs) simp_all
  ultimately show ?thesis by (intro exI[of _ "batches @ [cur]"] exI[of _ "segs @ [seg]"]) simp
qed

end
