(* ===== verification/Blob_Codec.thy ===== *)
theory Blob_Codec
  imports Gw_Prelude
begin

text \<open>
  The blob encoding, \<open>encode_blob\<close> of \<open>crates/common/src/taiko/blob.rs\<close>, and a decoder that the
  sources do not have: it states what the encoding is for.

  The encoder writes the blob from front to back, so the state of a round is the read offset and
  the bytes written so far; the write offset is their number, and the rest of the blob is zero.
  Offsets and lengths are natural numbers (they are bounded by the length of the data).
\<close>

unbundle bit_operations_syntax

subsection \<open>The encoder\<close>

definition BYTES_PER_BLOB :: nat where
  "BYTES_PER_BLOB = 131072"

definition MAX_BLOB_DATA_SIZE :: nat where
  "MAX_BLOB_DATA_SIZE = (4 * 31 + 3) * 1024 - 4"

definition ROUNDS :: nat where
  "ROUNDS = 1024"

definition ENCODING_VERSION :: u8 where
  "ENCODING_VERSION = 0"

definition read_1 :: "bytes \<Rightarrow> nat \<Rightarrow> u8 \<times> nat" where
  "read_1 data read_offset =
     (if length data \<le> read_offset then (0, read_offset)
      else (data ! read_offset, read_offset + 1))"

definition read_31 :: "bytes \<Rightarrow> nat \<Rightarrow> bytes \<times> nat" where
  "read_31 data read_offset =
     (if length data \<le> read_offset then (replicate 31 0, read_offset)
      else (let remaining = length data - read_offset; n = min 31 remaining
            in (take n (drop read_offset data) @ replicate (31 - n) 0, read_offset + n)))"

text \<open>The first chunk carries the version and the length as a big-endian 24-bit number.\<close>

definition read_first :: "bytes \<Rightarrow> nat \<Rightarrow> bytes \<times> nat" where
  "read_first data read_offset =
     (let ilen = (of_nat (length data) :: u32);
          remaining = length data - read_offset; n = min 27 remaining
      in ([ENCODING_VERSION, ucast (drop_bit 16 ilen), ucast (drop_bit 8 ilen), ucast ilen] @
            take n (drop read_offset data) @ replicate (27 - n) 0,
          read_offset + n))"

definition write_1 :: "u8 \<Rightarrow> bytes \<Rightarrow> bytes run" where
  "write_1 v out =
     (if length out mod 32 \<noteq> 0 then Inl ''blob encoding: invalid byte write offset''
      else if v AND 0xC0 \<noteq> 0 then Inl ''blob encoding: invalid 6-bit value''
      else Inr (out @ [v]))"

definition write_31 :: "bytes \<Rightarrow> bytes \<Rightarrow> bytes run" where
  "write_31 buf31 out =
     (if length out mod 32 \<noteq> 1 then Inl ''blob encoding: invalid bytes31 write offset''
      else Inr (out @ buf31))"

text \<open>The top bytes of the second and the fourth field element.\<close>

definition mix_b :: "u8 \<Rightarrow> u8 \<Rightarrow> u8" where
  "mix_b x y = (y AND 0x0F) OR drop_bit 2 (x AND 0xC0)"

definition mix_d :: "u8 \<Rightarrow> u8 \<Rightarrow> u8" where
  "mix_d y z = drop_bit 2 (z AND 0xC0) OR drop_bit 4 (y AND 0xF0)"

definition encode_round :: "bytes \<Rightarrow> nat \<Rightarrow> nat \<times> bytes \<Rightarrow> (nat \<times> bytes) run" where
  "encode_round data round = (\<lambda>(read_offset, out).
     (let (buf31, read_offset) =
            (if round = 0 then read_first data read_offset else read_31 data read_offset);
          (x, read_offset) = read_1 data read_offset;
          a = x AND 0x3F
      in bindR (write_1 a out) (\<lambda>out.
         bindR (write_31 buf31 out) (\<lambda>out.
     (let (buf31, read_offset) = read_31 data read_offset;
          (y, read_offset) = read_1 data read_offset;
          b = mix_b x y
      in bindR (write_1 b out) (\<lambda>out.
         bindR (write_31 buf31 out) (\<lambda>out.
     (let (buf31, read_offset) = read_31 data read_offset;
          (z, read_offset) = read_1 data read_offset;
          c = z AND 0x3F
      in bindR (write_1 c out) (\<lambda>out.
         bindR (write_31 buf31 out) (\<lambda>out.
     (let (buf31, read_offset) = read_31 data read_offset;
          d = mix_d y z
      in bindR (write_1 d out) (\<lambda>out.
         bindR (write_31 buf31 out) (\<lambda>out. Inr (read_offset, out))))))))))))))"

text \<open>\<open>n\<close> rounds are left; the loop breaks when all the data has been read.\<close>

fun encode_rounds :: "bytes \<Rightarrow> nat \<Rightarrow> nat \<Rightarrow> nat \<times> bytes \<Rightarrow> (nat \<times> bytes) run" where
  "encode_rounds data round 0 s = Inr s"
| "encode_rounds data round (Suc n) s =
     (if length data \<le> fst s then Inr s
      else bindR (encode_round data round s) (\<lambda>s'. encode_rounds data (Suc round) n s'))"

definition encode_blob :: "bytes \<Rightarrow> bytes run" where
  "encode_blob data =
     (if MAX_BLOB_DATA_SIZE < length data then Inl ''blob input too large''
      else bindR (encode_rounds data 0 ROUNDS (0, [])) (\<lambda>(read_offset, out).
             if read_offset \<noteq> length data then Inl ''expected to fit data but failed''
             else Inr (out @ replicate (BYTES_PER_BLOB - length out) 0)))"

subsection \<open>The decoder\<close>

text \<open>128 bytes hold 127: three bytes are spread over the four top bytes.\<close>

definition unpack :: "bytes \<Rightarrow> bytes" where
  "unpack w =
     (let a = w ! 0; b = w ! 32; c = w ! 64; d = w ! 96
      in take 31 (drop 1 w) @ [(a AND 0x3F) OR push_bit 2 (b AND 0x30)] @
         take 31 (drop 33 w) @ [(b AND 0x0F) OR push_bit 4 (d AND 0x0F)] @
         take 31 (drop 65 w) @ [(c AND 0x3F) OR push_bit 2 (d AND 0x30)] @
         take 31 (drop 97 w))"

function unpack_all :: "bytes \<Rightarrow> bytes" where
  "unpack_all bs =
     (if length bs < 128 then [] else unpack (take 128 bs) @ unpack_all (drop 128 bs))"
  by auto
termination by (relation "measure length") auto

declare unpack_all.simps [simp del]

definition decode_blob :: "bytes \<Rightarrow> bytes" where
  "decode_blob blob =
     (let bs = unpack_all blob;
          n = unat (bs ! 1) * 65536 + unat (bs ! 2) * 256 + unat (bs ! 3)
      in take n (drop 4 bs))"

subsection \<open>One round is one packed chunk\<close>

definition pad :: "nat \<Rightarrow> bytes \<Rightarrow> bytes" where
  "pad n bs = take n bs @ replicate (n - length bs) 0"

lemma length_pad [simp]: "length (pad n bs) = n"
  by (simp add: pad_def)

lemma pad_add: "pad (m + n) bs = pad m bs @ pad n (drop m bs)"
  by (cases "length bs \<le> m")
     (auto simp: pad_def take_add replicate_add[symmetric])

definition pack :: "bytes \<Rightarrow> bytes" where
  "pack r =
     (let x = r ! 31; y = r ! 63; z = r ! 95
      in [x AND 0x3F] @ take 31 r @
         [mix_b x y] @ take 31 (drop 32 r) @
         [z AND 0x3F] @ take 31 (drop 64 r) @
         [mix_d y z] @ take 31 (drop 96 r))"

lemma read_31_pad: "read_31 data p = (pad 31 (drop p data), min (p + 31) (max p (length data)))"
  by (auto simp: read_31_def pad_def Let_def min_def max_def)

lemma read_1_pad: "read_1 data p = (pad 1 (drop p data) ! 0, min (p + 1) (max p (length data)))"
  by (auto simp: read_1_def pad_def take_Suc hd_drop_conv_nth nth_append min_def max_def)

subsection \<open>Bits of a chunk\<close>

lemma byte_eqI:
  fixes a b :: "u8"
  assumes "\<forall>n \<in> {0, 1, 2, 3, 4, 5, 6, 7}. bit a n = bit b n"
  shows "a = b"
proof (rule bit_word_eqI)
  fix n :: nat
  assume "n < LENGTH(8)"
  then have "n \<in> {0, 1, 2, 3, 4, 5, 6, 7}" by auto
  with assms show "bit a n = bit b n" by blast
qed
lemma bits_x:
  fixes x y :: "u8"
  shows "((x AND 0x3F) AND 0x3F) OR push_bit 2 ((mix_b x y) AND 0x30) = x"
  by (rule byte_eqI) (simp add: mix_b_def mix_d_def bit_simps)
lemma bits_y:
  fixes x y z :: "u8"
  shows "(((mix_b x y) AND 0x0F) OR
     push_bit 4 ((mix_d y z) AND 0x0F)) = y"
  by (rule byte_eqI) (simp add: mix_b_def mix_d_def bit_simps)
lemma bits_z:
  fixes y z :: "u8"
  shows "((z AND 0x3F) AND 0x3F) OR
     push_bit 2 ((mix_d y z) AND 0x30) = z"
  by (rule byte_eqI) (simp add: mix_b_def mix_d_def bit_simps)
lemma top_bits:
  fixes x y z :: "u8"
  shows "(x AND 0x3F) AND 0xC0 = 0" "(mix_b x y) AND 0xC0 = 0"
   "(mix_d y z) AND 0xC0 = 0"
  by (rule byte_eqI; simp add: mix_b_def mix_d_def bit_simps)+

lemma split_127:
  fixes r :: bytes
  assumes "length r = 127"
  obtains s1 x s2 y s3 z s4 where "r = s1 @ x # s2 @ y # s3 @ z # s4"
    "length s1 = 31" "length s2 = 31" "length s3 = 31" "length s4 = 31"
proof
  show "r = take 31 r @ r ! 31 # take 31 (drop 32 r) @ r ! 63 # take 31 (drop 64 r) @ r ! 95 # drop 96 r"
  proof -
    have suc: "Suc 31 = 32" by simp
    have split: "l = take 31 l @ l ! 31 # drop 32 l" if "31 < length l" for l :: bytes
      using id_take_nth_drop[OF that, unfolded suc] .
    have 1: "take 31 r @ r ! 31 # drop 32 r = r"
      by (rule split[symmetric]) (simp add: assms)
    have 2: "take 31 (drop 32 r) @ r ! 63 # drop 64 r = drop 32 r"
      using split[of "drop 32 r", symmetric] assms by simp
    have 3: "take 31 (drop 64 r) @ r ! 95 # drop 96 r = drop 64 r"
      using split[of "drop 64 r", symmetric] assms by simp
    show ?thesis by (simp only: 1 2 3)
  qed
qed (use assms in simp_all)

lemma pack_eq:
  assumes "length s1 = 31" "length s2 = 31" "length s3 = 31" "length s4 = 31"
  shows "pack (s1 @ x # s2 @ y # s3 @ z # s4) =
    (x AND 0x3F) # s1 @ mix_b x y # s2 @ (z AND 0x3F) # s3 @
    mix_d y z # s4"
  using assms by (simp add: pack_def nth_append Let_def)

lemma unpack_eq:
  assumes "length s1 = 31" "length s2 = 31" "length s3 = 31" "length s4 = 31"
  shows "unpack (a # s1 @ b # s2 @ c # s3 @ d # s4) =
    s1 @ ((a AND 0x3F) OR push_bit 2 (b AND 0x30)) # s2 @
    ((b AND 0x0F) OR push_bit 4 (d AND 0x0F)) # s3 @ ((c AND 0x3F) OR push_bit 2 (d AND 0x30)) # s4"
  using assms by (simp add: unpack_def nth_append nth_Cons' Let_def)

lemma unpack_pack: "length r = 127 \<Longrightarrow> unpack (pack r) = r"
  by (erule split_127) (simp only: pack_eq unpack_eq bits_x bits_y bits_z)

lemma length_pack: "length r = 127 \<Longrightarrow> length (pack r) = 128"
  by (erule split_127) (simp only: pack_eq, simp)

subsection \<open>A round writes one packed chunk\<close>

lemma write_chunk:
  assumes "length out mod 32 = 0" "v AND 0xC0 = 0"
  shows "bindR (write_1 v out) (\<lambda>o1. bindR (write_31 buf o1) f) = f (out @ v # buf)"
proof -
  have "(length out + 1) mod 32 = 1" using assms(1) by presburger
  then show ?thesis using assms by (simp add: write_1_def write_31_def)
qed

text \<open>Reads at a position \<open>q\<close> of the data continued with zeros; the read offset stops at the end.\<close>

definition at :: "nat \<Rightarrow> bytes \<Rightarrow> u8" where
  "at q data = (if q < length data then data ! q else 0)"

lemma read_1_at: "read_1 data (min q (length data)) = (at q data, min (q + 1) (length data))"
  by (auto simp: read_1_def at_def min_def)

lemma read_31_at:
  "read_31 data (min q (length data)) = (pad 31 (drop q data), min (q + 31) (length data))"
  by (auto simp: read_31_def pad_def Let_def min_def)

lemma pad_step: "pad (32 + n) l = pad 31 l @ at 31 l # pad n (drop 32 l)"
proof -
  have one: "pad 1 (drop 31 l) = [at 31 l]"
    by (auto simp: pad_def at_def take_Suc hd_drop_conv_nth)
  have "pad (32 + n) l = pad (31 + (1 + n)) l" by simp
  also have "\<dots> = pad 31 l @ pad 1 (drop 31 l) @ pad n (drop 32 l)" by (simp only: pad_add drop_drop) simp
  finally show ?thesis by (simp only: one) simp
qed

lemma at_drop: "at a (drop b l) = at (a + b) l"
  by (auto simp: at_def add.commute)

text \<open>The seven reads of a round, as one padded chunk of 127 bytes.\<close>

lemma pad_chunk:
  "pad 127 ds = pad 31 ds @ at 31 ds # pad 31 (drop 32 ds) @ at 63 ds # pad 31 (drop 64 ds) @
     at 95 ds # pad 31 (drop 96 ds)"
proof -
  have "pad 127 ds = pad (32 + (32 + (32 + 31))) ds" by simp
  then show ?thesis by (simp only: pad_step at_drop drop_drop) simp
qed

definition blob_header :: "bytes \<Rightarrow> bytes" where
  "blob_header data =
     (let ilen = (of_nat (length data) :: u32)
      in [ENCODING_VERSION, ucast (drop_bit 16 ilen), ucast (drop_bit 8 ilen), ucast ilen])"

lemma length_blob_header [simp]: "length (blob_header data) = 4"
  by (simp add: blob_header_def Let_def)

lemma read_first_pad:
  "read_first data 0 = (pad 31 (blob_header data @ data), min 27 (length data))"
  by (auto simp: read_first_def blob_header_def pad_def Let_def min_def max_def take_Cons')

lemma encode_round_next:
  assumes "p \<le> length data" "length out mod 32 = 0" "round \<noteq> 0"
  shows "encode_round data round (p, out) =
    Inr (min (p + 127) (length data), out @ pack (pad 127 (drop p data)))"
proof -
  have m: "(length out + 32) mod 32 = 0" "(length out + 64) mod 32 = 0" "(length out + 96) mod 32 = 0"
    using assms(2) by presburger+
  have p: "min p (length data) = p" using assms(1) by simp
  note reads = read_31_at[of data p, unfolded p] read_31_at[of data] read_1_at[of data]
  show ?thesis
    using assms(3)
    by (simp add: encode_round_def reads write_chunk assms(2) m top_bits pack_eq pad_chunk at_drop
        add.commute)
qed

lemma encode_round_first:
  "encode_round data 0 (0, []) =
    Inr (min 123 (length data), pack (pad 127 (blob_header data @ data)))"
proof -
  have at_hd: "at (n + 4) (blob_header data @ data) = at n data" for n
    by (simp add: at_def nth_append)
  have reads: "read_first data 0 = (pad 31 (blob_header data @ data), min 27 (length data))"
    "read_31 data (min q (length data)) = (pad 31 (drop (q + 4) (blob_header data @ data)),
       min (q + 31) (length data))"
    "read_1 data (min q (length data)) = (at (q + 4) (blob_header data @ data),
       min (q + 1) (length data))" for q
    using read_31_at[of data q] read_1_at[of data q] by (simp_all add: read_first_pad at_hd)
  show ?thesis
    by (simp add: encode_round_def reads write_chunk top_bits pack_eq pad_chunk del: drop_append)
qed

subsection \<open>All rounds\<close>

function packs :: "bytes \<Rightarrow> bytes" where
  "packs ds = (if ds = [] then [] else pack (pad 127 ds) @ packs (drop 127 ds))"
  by auto
termination by (relation "measure length") auto

declare packs.simps [simp del]

lemma packs_Nil [simp]: "packs [] = []"
  by (simp add: packs.simps)

lemma length_packs: "length (packs ds) = 128 * ((length ds + 126) div 127)"
proof (induction ds rule: packs.induct)
  case (1 ds)
  show ?case
  proof (cases "length ds \<le> 127")
    case True
    have one: "(n + 126) div 127 = 1" if "0 < n" "n \<le> 127" for n :: nat
      using that by (intro div_nat_eqI) simp_all
    from True have "ds \<noteq> [] \<Longrightarrow> (length ds + 126) div 127 = 1" by (intro one) simp_all
    with True show ?thesis by (auto simp: packs.simps[of ds] length_pack)
  next
    case False
    then have "(length ds + 126) div 127 = Suc ((length ds - 127 + 126) div 127)" by simp
    with False 1 show ?thesis by (auto simp: packs.simps[of ds] length_pack)
  qed
qed

lemma encode_rounds_next:
  assumes "p \<le> length data" "length out mod 32 = 0" "length data - p \<le> 127 * n" "round \<noteq> 0"
  shows "encode_rounds data round n (p, out) = Inr (length data, out @ packs (drop p data))"
  using assms
proof (induction n arbitrary: p out round)
  case (Suc n)
  show ?case
  proof (cases "length data \<le> p")
    case False
    have "(length out + 128) mod 32 = 0" using Suc.prems(2) by presburger
    then have IH: "encode_rounds data (Suc round) n
        (min (p + 127) (length data), out @ pack (pad 127 (drop p data))) =
        Inr (length data, (out @ pack (pad 127 (drop p data))) @ packs (drop (min (p + 127) (length data)) data))"
      using Suc.prems(3) by (intro Suc.IH) (auto simp: length_pack)
    have "drop (min (p + 127) (length data)) data = drop 127 (drop p data)"
      by (simp add: min_def add.commute)
    with False IH show ?thesis
      using Suc.prems packs.simps[of "drop p data"] by (simp add: encode_round_next)
  qed (use Suc.prems in simp)
qed simp

lemma encode_blob_eq:
  assumes "length data \<le> MAX_BLOB_DATA_SIZE"
  defines "written \<equiv> (if data = [] then [] else packs (blob_header data @ data))"
  shows "encode_blob data = Inr (written @ replicate (BYTES_PER_BLOB - length written) 0)"
proof (cases "data = []")
  case True
  then show ?thesis by (simp add: encode_blob_def written_def ROUNDS_def eval_nat_numeral)
next
  case False
  define h where "h = blob_header data"
  have packs: "packs (h @ data) = pack (pad 127 (h @ data)) @ packs (drop 123 data)"
    using False by (subst packs.simps) (simp add: h_def)
  have d: "drop (min 123 (length data)) data = drop 123 data" by (simp add: min_def)
  have "encode_rounds data (Suc 0) 1023 (min 123 (length data), pack (pad 127 (h @ data))) =
      Inr (length data, pack (pad 127 (h @ data)) @ packs (drop (min 123 (length data)) data))"
    using assms(1) by (intro encode_rounds_next) (auto simp: length_pack MAX_BLOB_DATA_SIZE_def)
  then have "encode_rounds data 0 (Suc 1023) (0, []) = Inr (length data, written)"
    using False
    by (subst encode_rounds.simps(2)) (simp add: encode_round_first d packs written_def flip: h_def)
  moreover have "ROUNDS = Suc 1023" by (simp add: ROUNDS_def)
  ultimately have "encode_rounds data 0 ROUNDS (0, []) = Inr (length data, written)" by (simp only:)
  with assms(1) show ?thesis by (simp add: encode_blob_def)
qed

lemma unpack_all_packs: "\<exists>z. unpack_all (packs ds @ rest) = ds @ z"
proof (induction ds rule: packs.induct)
  case (1 ds)
  show ?case
  proof (cases "ds = []")
    case False
    with 1 obtain z where z: "unpack_all (packs (drop 127 ds) @ rest) = drop 127 ds @ z" by blast
    have "unpack_all (packs ds @ rest) = pad 127 ds @ drop 127 ds @ z"
      using False by (simp add: packs.simps[of ds] unpack_all.simps[of "pack (pad 127 ds) @ _"]
          length_pack unpack_pack z)
    moreover have "pad 127 ds @ drop 127 ds = ds @ replicate (127 - length ds) 0"
      by (cases "length ds \<le> 127") (simp_all add: pad_def)
    ultimately have "unpack_all (packs ds @ rest) = ds @ replicate (127 - length ds) 0 @ z"
      by (simp flip: append_assoc)
    then show ?thesis by blast
  qed simp
qed

subsection \<open>Field elements\<close>

text \<open>Every 32-byte word has its two top bits clear, so it is below the BLS modulus.\<close>

definition fields_ok :: "bytes \<Rightarrow> bool" where
  "fields_ok bs \<longleftrightarrow> (\<forall>i. 32 * i < length bs \<longrightarrow> bs ! (32 * i) AND 0xC0 = 0)"

lemma fields_ok_append:
  assumes "fields_ok as" "fields_ok bs" "length as mod 32 = 0"
  shows "fields_ok (as @ bs)"
  unfolding fields_ok_def
proof (intro allI impI)
  fix i assume i: "32 * i < length (as @ bs)"
  show "(as @ bs) ! (32 * i) AND 0xC0 = 0"
  proof (cases "32 * i < length as")
    case True
    with assms(1) show ?thesis by (simp add: fields_ok_def nth_append)
  next
    case False
    from assms(3) obtain k where k: "length as = 32 * k" by (auto simp: mod_eq_0_iff_dvd elim: dvdE)
    with False have "32 * i - length as = 32 * (i - k)" by (simp add: diff_mult_distrib2)
    with False i assms(2) k show ?thesis by (auto simp: fields_ok_def nth_append)
  qed
qed

lemma fields_ok_zeros [simp]: "fields_ok (replicate n 0)"
  by (simp add: fields_ok_def)

lemma fields_ok_pack:
  assumes "length r = 127"
  shows "fields_ok (pack r)"
  unfolding fields_ok_def
proof (intro allI impI)
  fix i assume "32 * i < length (pack r)"
  then have "i < 4" using length_pack[OF assms] by simp
  then consider "i = 0" | "i = 1" | "i = 2" | "i = 3" by linarith
  then show "pack r ! (32 * i) AND 0xC0 = 0"
    using assms by (elim split_127; cases) (auto simp: pack_eq nth_append nth_Cons' top_bits)
qed

lemma fields_ok_packs: "fields_ok (packs ds)"
proof (induction ds rule: packs.induct)
  case (1 ds)
  then show ?case
    by (cases "ds = []")
       (auto simp: packs.simps[of ds] length_pack fields_ok_def[of "[]"] intro!: fields_ok_append fields_ok_pack)
qed

subsection \<open>Reading the header back\<close>

lemma header_length:
  assumes "length data < 2 ^ 24"
  shows "unat (blob_header data ! 1) * 65536 + unat (blob_header data ! 2) * 256 +
    unat (blob_header data ! 3) = length data"
proof -
  define n where "n = length data"
  have parts: "unat (blob_header data ! 1) = n div 65536 mod 256"
    "unat (blob_header data ! 2) = n div 256 mod 256" "unat (blob_header data ! 3) = n mod 256"
    using assms
    by (simp_all add: blob_header_def Let_def n_def unsigned_ucast_eq take_bit_eq_mod unsigned_of_nat
        unsigned_drop_bit_eq drop_bit_eq_div unat_div unat_of_nat)
  have "n div 65536 mod 256 = n div 65536" using assms by (simp add: n_def div_less_iff_less_mult)
  moreover have "n = n div 65536 * 65536 + n mod 65536" by simp
  moreover have "n mod 65536 = n div 256 mod 256 * 256 + n mod 256"
    using mod_mult2_eq[of n 256 256] by simp
  ultimately show ?thesis unfolding parts using n_def by linarith
qed

lemma unpack_zeros: "unpack (replicate 128 0) = replicate 127 0"
proof -
  have "replicate 128 (0 :: u8) = 0 # replicate 31 0 @ 0 # replicate 31 0 @ 0 # replicate 31 0 @ 0 # replicate 31 0"
    by (simp add: replicate_add[symmetric] flip: replicate_Suc)
  then show ?thesis
    by (simp only: unpack_eq length_replicate) (simp add: replicate_add[symmetric] flip: replicate_Suc)
qed

lemma decode_zeros: "decode_blob (replicate BYTES_PER_BLOB 0) = []"
proof -
  have "unpack_all (replicate BYTES_PER_BLOB 0) =
      replicate 127 0 @ unpack_all (drop 128 (replicate BYTES_PER_BLOB 0))"
    by (subst unpack_all.simps) (simp add: BYTES_PER_BLOB_def unpack_zeros)
  then show ?thesis by (simp add: decode_blob_def nth_append)
qed

lemma decode_packs:
  assumes "length data < 2 ^ 24"
  shows "decode_blob (packs (blob_header data @ data) @ rest) = data"
proof -
  obtain z where "unpack_all (packs (blob_header data @ data) @ rest) = (blob_header data @ data) @ z"
    using unpack_all_packs by blast
  moreover have "((blob_header data @ data) @ z) ! i = blob_header data ! i" if "i < 4" for i
    using that by (simp add: nth_append)
  ultimately show ?thesis using header_length[OF assms] by (simp add: decode_blob_def)
qed

text \<open>What the encoder guarantees.\<close>

lemma encode_blob_ok:
  assumes "length data \<le> MAX_BLOB_DATA_SIZE"
  obtains b where "encode_blob data = Inr b" "length b = BYTES_PER_BLOB" "decode_blob b = data"
    "fields_ok b"
proof (cases "data = []")
  case True
  then have "encode_blob data = Inr (replicate BYTES_PER_BLOB 0)" using encode_blob_eq[OF assms] by simp
  then show thesis using that True decode_zeros by simp
next
  case False
  define w where "w = packs (blob_header data @ data)"
  have len: "length w \<le> BYTES_PER_BLOB" "length w mod 32 = 0" "length data < 2 ^ 24"
  proof -
    show "length data < 2 ^ 24" using assms by (simp add: MAX_BLOB_DATA_SIZE_def)
    have "(length data + 130) div 127 \<le> 1024"
      using assms by (simp add: MAX_BLOB_DATA_SIZE_def less_Suc_eq_le[symmetric] div_less_iff_less_mult)
    then show "length w \<le> BYTES_PER_BLOB"
      by (simp add: w_def length_packs BYTES_PER_BLOB_def add.commute)
    show "length w mod 32 = 0" by (simp add: w_def length_packs mod_mult_eq)
  qed
  have "encode_blob data = Inr (w @ replicate (BYTES_PER_BLOB - length w) 0)"
    using encode_blob_eq[OF assms] False by (simp add: w_def)
  then show thesis
    using that[of "w @ replicate (BYTES_PER_BLOB - length w) 0"] len
    by (simp add: decode_packs fields_ok_append fields_ok_packs w_def)
qed

end
