(* ===== verification/Propose_Call.thy ===== *)
theory Propose_Call
  imports Batch_Data Blob_Codec
begin

text \<open>
  The L1 transaction of a batch: \<open>BatchParams\<close> and \<open>BlobParams\<close> of
  \<open>crates/common/src/taiko/pacaya/mod.rs\<close>, \<open>propose_batch_calldata\<close>, \<open>propose_batch_blobs\<close> and
  \<open>decode_propose_batch_with_expected_last_block_id_call\<close> of
  \<open>crates/common/src/taiko/pacaya/propose.rs\<close>, and \<open>blobs_to_sidecar\<close> of
  \<open>crates/common/src/taiko/blob.rs\<close>.

  Parameters: the Solidity ABI encoding and decoding (\<open>abi\<close>: the byte strings that it makes are
  opaque), the KZG commitments and proofs, and \<open>MAX_BLOBS_PER_BLOCK_DENCUN\<close>.
\<close>

subsection \<open>Data\<close>

record blob_params =
  bl_blobHashes :: "b256 list"
  bl_firstBlobIndex :: u8
  bl_numBlobs :: u8
  bl_byteOffset :: u32
  bl_byteSize :: u32

record batch_params =
  ba_proposer :: address
  ba_coinbase :: address
  ba_parentMetaHash :: b256
  ba_anchorBlockId :: u64
  ba_lastBlockTimestamp :: u64
  ba_revertIfNotFirstProposal :: bool
  ba_blobParams :: blob_params
  ba_blocks :: "block_params list"

text \<open>The three levels of encoding: the batch parameters, the pair with the forced transaction list,
  and the call.\<close>

record ('p, 'q, 'c) abi =
  abi_batch :: "batch_params \<Rightarrow> 'p"
  abi_params :: "bytes \<times> 'p \<Rightarrow> 'q"
  abi_call :: "'q \<times> bytes \<times> u96 \<Rightarrow> 'c"
  abi_decode_batch :: "'p \<Rightarrow> string + batch_params"
  abi_decode_params :: "'q \<Rightarrow> string + (bytes \<times> 'p)"
  abi_decode_call :: "'c \<Rightarrow> string + ('q \<times> bytes \<times> u96)"

record kzg =
  kzg_commitment :: "bytes \<Rightarrow> bytes option"
  kzg_proof :: "bytes \<Rightarrow> bytes \<Rightarrow> bytes option"

record blob_sidecar =
  si_blobs :: "bytes list"
  si_commitments :: "bytes list"
  si_proofs :: "bytes list"

subsection \<open>Operations\<close>

definition propose_batch_calldata ::
    "('p, 'q, 'c) abi \<Rightarrow> propose_batch_params \<Rightarrow> b256 \<Rightarrow> address \<Rightarrow> bytes \<Rightarrow> 'c" where
  "propose_batch_calldata abi request parent_meta_hash proposer compressed =
     (let batch_params =
            \<lparr>ba_proposer = proposer, ba_coinbase = pb_coinbase request,
             ba_parentMetaHash = parent_meta_hash, ba_anchorBlockId = pb_anchor_block_id request,
             ba_lastBlockTimestamp = pb_last_timestamp request, ba_revertIfNotFirstProposal = False,
             ba_blobParams = \<lparr>bl_blobHashes = [], bl_firstBlobIndex = 0, bl_numBlobs = 0,
                             bl_byteOffset = 0, bl_byteSize = ucast (len64 compressed)\<rparr>,
             ba_blocks = pb_block_params request\<rparr>;
          encoded_params = abi_params abi ([], abi_batch abi batch_params)
      in abi_call abi (encoded_params, compressed, ucast (pb_end_block_num request)))"

text \<open>\<open>chunks\<close> of a slice.\<close>

function chunks :: "nat \<Rightarrow> 'a list \<Rightarrow> 'a list list" where
  "chunks n xs = (if xs = [] \<or> n = 0 then [] else take n xs # chunks n (drop n xs))"
  by auto
termination by (relation "measure (\<lambda>(n, xs). length xs)") auto

declare chunks.simps [simp del]

text \<open>\<open>map\<close> and \<open>collect\<close> over an operation that may panic.\<close>

fun map_run :: "('a \<Rightarrow> 'b run) \<Rightarrow> 'a list \<Rightarrow> 'b list run" where
  "map_run f [] = Inr []"
| "map_run f (x # xs) = bindR (f x) (\<lambda>y. bindR (map_run f xs) (\<lambda>ys. Inr (y # ys)))"

definition commit_blob :: "kzg \<Rightarrow> bytes \<Rightarrow> (bytes \<times> bytes) run" where
  "commit_blob k blob =
     (case kzg_commitment k blob of
        None \<Rightarrow> Inl ''failed to compute commitment''
      | Some c \<Rightarrow> (case kzg_proof k blob c of
                     None \<Rightarrow> Inl ''failed to compute proof''
                   | Some p \<Rightarrow> Inr (c, p)))"

definition blobs_to_sidecar :: "kzg \<Rightarrow> bytes list \<Rightarrow> blob_sidecar run" where
  "blobs_to_sidecar k blobs =
     bindR (map_run (commit_blob k) blobs) (\<lambda>cps.
       Inr \<lparr>si_blobs = blobs, si_commitments = map fst cps, si_proofs = map snd cps\<rparr>)"

definition propose_batch_blobs ::
    "('p, 'q, 'c) abi \<Rightarrow> kzg \<Rightarrow> nat \<Rightarrow> propose_batch_params \<Rightarrow> b256 \<Rightarrow> address \<Rightarrow> bytes \<Rightarrow>
     ('c \<times> blob_sidecar) run" where
  "propose_batch_blobs abi k max_blobs request parent_meta_hash proposer compressed =
     (if max_blobs < length compressed div MAX_BLOB_DATA_SIZE
      then Inl ''too many bytes to encode in blobs''
      else bindR (map_run encode_blob (chunks MAX_BLOB_DATA_SIZE compressed)) (\<lambda>blobs.
           bindR (blobs_to_sidecar k blobs) (\<lambda>sidecar.
             (let blob_params =
                    \<lparr>bl_blobHashes = [], bl_firstBlobIndex = 0,
                     bl_numBlobs = ucast (len64 (si_blobs sidecar)), bl_byteOffset = 0,
                     bl_byteSize = ucast (len64 compressed)\<rparr>;
                  batch_params =
                    \<lparr>ba_proposer = proposer, ba_coinbase = pb_coinbase request,
                     ba_parentMetaHash = parent_meta_hash,
                     ba_anchorBlockId = pb_anchor_block_id request,
                     ba_lastBlockTimestamp = pb_last_timestamp request,
                     ba_revertIfNotFirstProposal = False, ba_blobParams = blob_params,
                     ba_blocks = pb_block_params request\<rparr>;
                  encoded_params = abi_params abi ([], abi_batch abi batch_params)
              in Inr (abi_call abi (encoded_params, [], ucast (pb_end_block_num request)), sidecar)))))"

text \<open>The outer sum is the panic of \<open>unwrap\<close>, the inner one the error of the decoder.  The answer is
  the first block, the last block and the anchor block.\<close>

definition decode_propose_call ::
    "('p, 'q, 'c) abi \<Rightarrow> 'c \<Rightarrow> (string + (u64 \<times> u64 \<times> u64)) run" where
  "decode_propose_call abi data =
     (case abi_decode_call abi data of
        Inl e \<Rightarrow> Inr (Inl e)
      | Inr (params, _, expected_last_block_id) \<Rightarrow>
          (case abi_decode_params abi params of
             Inl e \<Rightarrow> Inr (Inl e)
           | Inr (_, encoded) \<Rightarrow>
               (case abi_decode_batch abi encoded of
                  Inl e \<Rightarrow> Inr (Inl e)
                | Inr batch \<Rightarrow>
                    if unat expected_last_block_id < 2 ^ 64
                    then (let last_block = ucast expected_last_block_id;
                              start_block = last_block - len64 (ba_blocks batch) + 1
                          in Inr (Inr (start_block, last_block, ba_anchorBlockId batch)))
                    else Inl ''called `Result::unwrap()` on an `Err` value'')))"

subsection \<open>Laws\<close>

lemma concat_chunks: "0 < n \<Longrightarrow> concat (chunks n xs) = xs"
  by (induction n xs rule: chunks.induct) (simp add: chunks.simps)

lemma length_chunks: "0 < n \<Longrightarrow> length (chunks n xs) = (length xs + (n - 1)) div n"
proof (induction n xs rule: chunks.induct)
  case (1 n xs)
  consider "xs = []" | "xs \<noteq> []" "length xs \<le> n" | "n < length xs" by linarith
  then show ?case
  proof cases
    case 1
    have "(0 + (n - 1)) div n = 0" using \<open>0 < n\<close> by (intro div_less) simp
    then show ?thesis using 1 by (simp add: chunks.simps)
  next
    case 2
    then have "0 < length xs" by simp
    then have "(length xs + (n - 1)) div n = 1"
      using 2(2) \<open>0 < n\<close> by (intro div_nat_eqI) (linarith, simp)
    then show ?thesis using 2 \<open>0 < n\<close> by (simp add: chunks.simps[of n xs] chunks.simps[of n "[]"])
  next
    case 3
    then have "xs \<noteq> []" by auto
    then have IH: "length (chunks n (drop n xs)) = (length xs - n + (n - 1)) div n"
      using 1 by simp
    have shift: "(a + n) div n = Suc (a div n)" for a
      using \<open>0 < n\<close> by (simp add: div_add_self2)
    have "(length xs + (n - 1)) div n = (length xs - n + (n - 1) + n) div n" using 3 by simp
    then have "(length xs + (n - 1)) div n = Suc ((length xs - n + (n - 1)) div n)"
      by (simp only: shift)
    then show ?thesis
      using IH \<open>xs \<noteq> []\<close> \<open>0 < n\<close> by (subst chunks.simps) simp
  qed
qed

lemma chunks_length: "c \<in> set (chunks n xs) \<Longrightarrow> length c \<le> n"
proof (induction n xs rule: chunks.induct)
  case (1 n xs)
  then show ?case
    by (cases "xs = [] \<or> n = 0") (auto simp: chunks.simps[of n xs])
qed

lemma map_run_total:
  assumes "\<And>x. x \<in> set xs \<Longrightarrow> \<exists>y. f x = Inr y \<and> P x y"
  shows "\<exists>ys. map_run f xs = Inr ys \<and> list_all2 P xs ys"
  using assms
proof (induction xs)
  case (Cons x xs)
  then have "\<exists>ys. map_run f xs = Inr ys \<and> list_all2 P xs ys" "\<exists>y. f x = Inr y \<and> P x y" by simp_all
  then show ?case by fastforce
qed simp

definition kzg_total :: "kzg \<Rightarrow> bool" where
  "kzg_total k \<longleftrightarrow> (\<forall>b. \<exists>c p. kzg_commitment k b = Some c \<and> kzg_proof k b c = Some p)"

text \<open>What the ABI promises: decoding inverts encoding.\<close>

definition abi_inverts :: "('p, 'q, 'c) abi \<Rightarrow> bool" where
  "abi_inverts abi \<longleftrightarrow>
     (\<forall>b. abi_decode_batch abi (abi_batch abi b) = Inr b) \<and>
     (\<forall>p. abi_decode_params abi (abi_params abi p) = Inr p) \<and>
     (\<forall>c. abi_decode_call abi (abi_call abi c) = Inr c)"

lemma sidecar_total:
  assumes "kzg_total k"
  shows "\<exists>sc. blobs_to_sidecar k blobs = Inr sc \<and> si_blobs sc = blobs \<and>
    length (si_commitments sc) = length blobs \<and> length (si_proofs sc) = length blobs"
proof -
  have "\<exists>y. commit_blob k b = Inr y \<and> True" for b
  proof -
    from assms obtain c p where "kzg_commitment k b = Some c" "kzg_proof k b c = Some p"
      unfolding kzg_total_def by blast
    then show ?thesis by (simp add: commit_blob_def)
  qed
  then obtain ys where ys: "map_run (commit_blob k) blobs = Inr ys" "list_all2 (\<lambda>_ _. True) blobs ys"
    using map_run_total[of blobs "commit_blob k" "\<lambda>_ _. True"] by blast
  from list_all2_lengthD[OF ys(2)] ys(1) show ?thesis by (simp add: blobs_to_sidecar_def)
qed

lemma blobs_of_chunks:
  "\<exists>blobs. map_run encode_blob (chunks MAX_BLOB_DATA_SIZE data) = Inr blobs \<and>
     length blobs = (length data + (MAX_BLOB_DATA_SIZE - 1)) div MAX_BLOB_DATA_SIZE \<and>
     (\<forall>b \<in> set blobs. length b = BYTES_PER_BLOB \<and> fields_ok b) \<and>
     concat (map decode_blob blobs) = data"
proof -
  let ?P = "\<lambda>c b. length b = BYTES_PER_BLOB \<and> decode_blob b = c \<and> fields_ok b"
  have "\<exists>y. encode_blob c = Inr y \<and> ?P c y" if "c \<in> set (chunks MAX_BLOB_DATA_SIZE data)" for c
    using encode_blob_ok[OF chunks_length[OF that]] by metis
  then obtain blobs where blobs: "map_run encode_blob (chunks MAX_BLOB_DATA_SIZE data) = Inr blobs"
    "list_all2 ?P (chunks MAX_BLOB_DATA_SIZE data) blobs"
    using map_run_total[of "chunks MAX_BLOB_DATA_SIZE data" encode_blob ?P] by blast
  have dec: "map decode_blob bs = cs" "\<forall>b \<in> set bs. length b = BYTES_PER_BLOB \<and> fields_ok b"
    if "list_all2 ?P cs bs" for cs bs
    using that by (induction cs bs rule: list_all2_induct) auto
  have pos: "0 < MAX_BLOB_DATA_SIZE" by (simp add: MAX_BLOB_DATA_SIZE_def)
  show ?thesis
    using blobs(1) dec[OF blobs(2)] list_all2_lengthD[OF blobs(2)] length_chunks[OF pos, of data]
      concat_chunks[OF pos, of data] by simp
qed

end
