(* ===== verification/Eyre.thy ===== *)
theory Eyre
  imports Gw_Prelude
begin

text \<open>
  Operations with two levels of failure: the outer sum is a panic, the inner one an \<open>eyre\<close> error
  that the caller handles.  \<open>bindE\<close> is the \<open>?\<close> operator of the sources.
\<close>

type_synonym 'a eyre = "string + 'a"

definition bindE :: "('e + 'a) run \<Rightarrow> ('a \<Rightarrow> ('e + 'b) run) \<Rightarrow> ('e + 'b) run" where
  "bindE m f = bindR m (\<lambda>r. case r of Inl e \<Rightarrow> Inr (Inl e) | Inr x \<Rightarrow> f x)"

abbreviation okE :: "'a \<Rightarrow> ('e + 'a) run" where
  "okE x \<equiv> Inr (Inr x)"

abbreviation errE :: "'e \<Rightarrow> ('e + 'a) run" where
  "errE e \<equiv> Inr (Inl e)"

lemma bindE_simps [simp]:
  "bindE (Inl p) f = Inl p" "bindE (errE e) f = errE e" "bindE (okE x) f = f x"
  by (simp_all add: bindE_def)

lemma bindE_eq_ok: "bindE m f = okE y \<longleftrightarrow> (\<exists>x. m = okE x \<and> f x = okE y)"
  by (cases m) (auto simp: bindE_def split: sum.splits)

lemma bindE_eq_panic: "bindE m f = Inl p \<longleftrightarrow> m = Inl p \<or> (\<exists>x. m = okE x \<and> f x = Inl p)"
  by (cases m) (auto simp: bindE_def split: sum.splits)

text \<open>\<open>ok_or_eyre\<close> on the answer of a node.\<close>

definition ok_or :: "string \<Rightarrow> 'a option eyre \<Rightarrow> 'a eyre run" where
  "ok_or msg answer =
     (case answer of Inl e \<Rightarrow> errE e | Inr None \<Rightarrow> errE msg | Inr (Some x) \<Rightarrow> okE x)"

text \<open>An operation on every element of a list, in order, up to the first failure.\<close>

fun map_eyre :: "('a \<Rightarrow> 'b eyre run) \<Rightarrow> 'a list \<Rightarrow> 'b list eyre run" where
  "map_eyre f [] = okE []"
| "map_eyre f (x # xs) = bindE (f x) (\<lambda>y. bindE (map_eyre f xs) (\<lambda>ys. okE (y # ys)))"

lemma map_eyre_ok: "map_eyre f xs = okE ys \<longleftrightarrow> list_all2 (\<lambda>x y. f x = okE y) xs ys"
  by (induction xs arbitrary: ys) (auto simp: bindE_eq_ok list_all2_Cons1)

text \<open>The range \<open>start..=end\<close> of block numbers.\<close>

definition block_range :: "u64 \<Rightarrow> u64 \<Rightarrow> u64 list" where
  "block_range start end = map of_nat [unat start..<Suc (unat end)]"

lemma block_range_bounds: "n \<in> set (block_range start end) \<Longrightarrow> start \<le> n \<and> n \<le> end"
proof -
  assume "n \<in> set (block_range start end)"
  then obtain k where k: "unat start \<le> k" "k \<le> unat end" "n = of_nat k"
    by (auto simp: block_range_def)
  have "k < 2 ^ 64" using k(2) unat_u64_less[of "end"] by simp
  then have "unat n = k" by (simp add: k(3) unsigned_of_nat take_bit_nat_eq_self)
  with k show ?thesis by (simp add: word_le_nat_alt)
qed

lemma block_range_empty: "end < start \<Longrightarrow> block_range start end = []"
  by (simp add: block_range_def word_less_nat_alt)

lemma unat_next:
  fixes n :: u64
  assumes "n \<noteq> - 1"
  shows "unat (n + 1) = unat n + 1"
proof -
  have "n < - 1" using assms by (simp add: word_order.not_eq_extremum)
  then have "unat n < 2 ^ 64 - 1" by (simp add: word_less_nat_alt unsigned_minus_1_eq_mask mask_eq_exp_minus_1)
  then show ?thesis by (subst unat_plus_exact) simp_all
qed

lemma block_range_split:
  assumes "a \<le> b" "b \<le> c" "c \<noteq> - 1"
  shows "block_range (a + 1) c = block_range (a + 1) b @ block_range (b + 1) c"
proof -
  have ne: "b \<noteq> - 1" "a \<noteq> - 1" using assms by (auto simp: word_order.extremum_unique)
  have nx: "unat (b + 1) = unat b + 1" "unat (a + 1) = unat a + 1"
    using ne by (simp_all add: unat_next)
  have "unat a \<le> unat b" "unat b \<le> unat c" using assms by (simp_all add: word_le_nat_alt)
  then have "[Suc (unat a)..<Suc (unat c)] = [Suc (unat a)..<Suc (unat b)] @ [Suc (unat b)..<Suc (unat c)]"
    using upt_add_eq_append[of "Suc (unat a)" "Suc (unat b)" "unat c - unat b"] by simp
  then show ?thesis unfolding block_range_def nx by simp
qed

end
