(* ===== verification/L1_Client.thy ===== *)
theory L1_Client
  imports Propose_Call Eyre
begin

text \<open>
  The L1 side of the proposer: the transactions that \<open>L1Client\<close> of \<open>crates/proposer/src/client.rs\<close>
  builds and their fees, its view of its own pending proposals and its check for L1 reorgs, and the
  answers of the block builder (\<open>crates/proposer/src/builder.rs\<close>).

  The node's estimates are the fields of \<open>fee_io\<close>; transaction data is opaque.
\<close>

subsection \<open>Blob schedules\<close>

record osaka_fork_info =
  of_osaka_time :: u64
  of_bpo1_time :: u64
  of_bpo2_time :: u64

definition is_osaka_active :: "u64 \<Rightarrow> osaka_fork_info \<Rightarrow> bool" where
  "is_osaka_active time_now info \<longleftrightarrow> of_osaka_time info \<le> time_now"

datatype blob_schedule = Prague | Osaka | Bpo1 | Bpo2

definition blob_schedule_at :: "u64 \<Rightarrow> osaka_fork_info option \<Rightarrow> blob_schedule" where
  "blob_schedule_at current_time fork =
     (case fork of
        None \<Rightarrow> Prague
      | Some info \<Rightarrow>
          if of_bpo2_time info \<le> current_time then Bpo2
          else if of_bpo1_time info \<le> current_time then Bpo1
          else if of_osaka_time info \<le> current_time then Osaka
          else Prague)"

subsection \<open>Fees\<close>

definition DEFAULT_MAX_FEE_PER_GAS :: u128 where
  "DEFAULT_MAX_FEE_PER_GAS = 10000000000"

definition DEFAULT_MAX_PRIORITY_FEE_PER_GAS :: u128 where
  "DEFAULT_MAX_PRIORITY_FEE_PER_GAS = 1000000000"

definition DEFAULT_MAX_FEE_PER_BLOB_GAS :: u128 where
  "DEFAULT_MAX_FEE_PER_BLOB_GAS = 5000000"

definition BUFFER_PERCENTAGE :: u128 where
  "BUFFER_PERCENTAGE = 140"

definition GAS_BUFFER_PERCENTAGE :: u128 where
  "GAS_BUFFER_PERCENTAGE = 180"

record fee_io =
  fi_gas :: "u64 eyre"
  fi_fees :: "(u128 \<times> u128) eyre"
  fi_blob_fee :: "blob_schedule \<Rightarrow> u128 option eyre"
  fi_sign :: "unit eyre"

text \<open>The caps learned from rejected transactions.\<close>

record fee_caps =
  fc_bump_fees :: bool
  fc_tip_cap :: "u128 option"
  fc_blob_fee_cap :: "u128 option"
  fc_gas_fee_cap :: "u128 option"

definition with_buffer :: "u128 \<Rightarrow> u128" where
  "with_buffer x = x * BUFFER_PERCENTAGE div 100"

definition buffered_gas_limit :: "u64 \<Rightarrow> u64" where
  "buffered_gas_limit gas_limit = ucast ((ucast gas_limit :: u128) * GAS_BUFFER_PERCENTAGE div 100)"

definition estimated_fees :: "fee_io \<Rightarrow> u128 \<times> u128" where
  "estimated_fees io =
     (case fi_fees io of
        Inr estimate \<Rightarrow> estimate
      | Inl _ \<Rightarrow> (DEFAULT_MAX_FEE_PER_GAS, DEFAULT_MAX_PRIORITY_FEE_PER_GAS))"

text \<open>Maximal fee and priority fee of a transaction: buffer, caps, doubling, minimum.\<close>

definition gas_fees :: "fee_caps \<Rightarrow> u128 \<Rightarrow> u128 \<times> u128 \<Rightarrow> u128 \<times> u128" where
  "gas_fees caps min_priority_fee = (\<lambda>(max_fee_per_gas, max_priority_fee_per_gas).
     (let tip = (case fc_tip_cap caps of
                   Some tip_cap \<Rightarrow> with_buffer tip_cap + 1
                 | None \<Rightarrow> with_buffer max_priority_fee_per_gas);
          fee = (case fc_gas_fee_cap caps of
                   Some gas_fee_cap \<Rightarrow> gas_fee_cap + 1
                 | None \<Rightarrow> with_buffer max_fee_per_gas);
          fee2 = (if fc_bump_fees caps then fee * 2 else fee);
          tip2 = (if fc_bump_fees caps then tip * 2 else tip)
      in (max fee2 min_priority_fee, max tip2 min_priority_fee)))"

definition blob_gas_fee :: "fee_caps \<Rightarrow> u128 \<Rightarrow> u128" where
  "blob_gas_fee caps blob_fee =
     (let fee = (case fc_blob_fee_cap caps of
                   Some cap \<Rightarrow> with_buffer cap + 1
                 | None \<Rightarrow> with_buffer blob_fee)
      in if fc_bump_fees caps then fee * 2 else fee)"

subsection \<open>Transactions\<close>

record 'c l1_tx =
  lx_chain_id :: u64
  lx_nonce :: u64
  lx_gas_limit :: u64
  lx_max_fee_per_gas :: u128
  lx_max_priority_fee_per_gas :: u128
  lx_to :: address
  lx_input :: 'c
  lx_blob :: "(u128 \<times> blob_sidecar) option"

record l1_client =
  l1_chain_id :: u64
  l1_router_address :: address
  l1_osaka_fork_info :: "osaka_fork_info option"

definition build_eip1559 ::
    "l1_client \<Rightarrow> fee_io \<Rightarrow> 'c \<Rightarrow> u64 \<Rightarrow> fee_caps \<Rightarrow> u128 \<Rightarrow> 'c l1_tx eyre" where
  "build_eip1559 client io input nonce caps min_priority_fee =
     bindR (fi_gas io) (\<lambda>gas_limit.
       (let (max_fee_per_gas, max_priority_fee_per_gas) =
              gas_fees caps min_priority_fee (estimated_fees io);
            tx = \<lparr>lx_chain_id = l1_chain_id client, lx_nonce = nonce,
                  lx_gas_limit = buffered_gas_limit gas_limit,
                  lx_max_fee_per_gas = max_fee_per_gas,
                  lx_max_priority_fee_per_gas = max_priority_fee_per_gas,
                  lx_to = l1_router_address client, lx_input = input, lx_blob = None\<rparr>
        in bindR (fi_sign io) (\<lambda>_. Inr tx)))"

definition build_eip4844 ::
    "l1_client \<Rightarrow> fee_io \<Rightarrow> u64 \<Rightarrow> 'c \<Rightarrow> u64 \<Rightarrow> blob_sidecar \<Rightarrow> fee_caps \<Rightarrow> u128 \<Rightarrow> 'c l1_tx eyre" where
  "build_eip4844 client io utc input nonce sidecar caps min_priority_fee =
     bindR (fi_gas io) (\<lambda>gas_limit.
     bindR (fi_blob_fee io (blob_schedule_at utc (l1_osaka_fork_info client))) (\<lambda>blob_fee.
       (let (max_fee_per_gas, max_priority_fee_per_gas) =
              gas_fees caps min_priority_fee (estimated_fees io);
            max_fee_per_blob_gas = blob_gas_fee caps
              (case blob_fee of Some fee \<Rightarrow> fee | None \<Rightarrow> DEFAULT_MAX_FEE_PER_BLOB_GAS);
            tx = \<lparr>lx_chain_id = l1_chain_id client, lx_nonce = nonce,
                  lx_gas_limit = buffered_gas_limit gas_limit,
                  lx_max_fee_per_gas = max_fee_per_gas,
                  lx_max_priority_fee_per_gas = max_priority_fee_per_gas,
                  lx_to = l1_router_address client, lx_input = input,
                  lx_blob = Some (max_fee_per_blob_gas, sidecar)\<rparr>
        in bindR (fi_sign io) (\<lambda>_. Inr tx))))"

subsection \<open>Pending proposals\<close>

record pending_proposal =
  pe_start_block_num :: u64
  pe_end_block_num :: u64
  pe_anchor_block_id :: u64
  pe_nonce :: u64
  pe_tx_hash :: b256

record 'c pool_tx =
  pt_to :: "address option"
  pt_input :: 'c
  pt_nonce :: u64
  pt_hash :: b256

text \<open>The pool's transactions, the pending ones before the queued ones.  One that cannot be decoded
  makes the whole call fail.\<close>

fun decode_pending ::
    "('p, 'q, 'c) abi \<Rightarrow> address \<Rightarrow> 'c pool_tx list \<Rightarrow> pending_proposal list eyre run" where
  "decode_pending abi router [] = okE []"
| "decode_pending abi router (tx # txs) =
     (if pt_to tx = Some router
      then bindE (decode_propose_call abi (pt_input tx)) (\<lambda>(start, end, anchor).
           bindE (decode_pending abi router txs) (\<lambda>ps.
             okE (\<lparr>pe_start_block_num = start, pe_end_block_num = end, pe_anchor_block_id = anchor,
                   pe_nonce = pt_nonce tx, pe_tx_hash = pt_hash tx\<rparr> # ps)))
      else decode_pending abi router txs)"

definition get_pending_proposals ::
    "('p, 'q, 'c) abi \<Rightarrow> l1_client \<Rightarrow> ('c pool_tx list \<times> 'c pool_tx list) eyre \<Rightarrow>
     pending_proposal list eyre run" where
  "get_pending_proposals abi client txpool =
     (case txpool of
        Inl e \<Rightarrow> errE e
      | Inr (pending, queued) \<Rightarrow> decode_pending abi (l1_router_address client) (pending @ queued))"

subsection \<open>Receipts and bundles\<close>

text \<open>\<open>rp_text\<close> is what the error about a failed receipt prints of it.\<close>

record receipt =
  rp_status :: bool
  rp_block_number :: "u64 option"
  rp_text :: string

text \<open>\<open>reorg_check\<close> after its delay.\<close>

definition reorg_check :: "receipt option eyre \<Rightarrow> unit eyre" where
  "reorg_check answer =
     (case answer of
        Inl e \<Rightarrow> Inl e
      | Inr None \<Rightarrow> Inl ''tx not found, block was likely re-orged''
      | Inr (Some r) \<Rightarrow> ensureR (rp_block_number r \<noteq> None) ''tx was re-orged out'')"

text \<open>The answer of the builder's RPC: whether the HTTP status is a success, and the decoded body.\<close>

record bundle_response =
  br_result :: "b256 option"
  br_error :: "string option"

definition send_bundle_request :: "(bool \<times> bundle_response option) eyre \<Rightarrow> unit eyre" where
  "send_bundle_request answer =
     bindR answer (\<lambda>(success, body).
       if \<not> success then Inl ''failed to send bundle''
       else case body of
              None \<Rightarrow> Inl ''failed to decode response body''
            | Some response \<Rightarrow>
                (case br_error response of
                   Some err \<Rightarrow> Inl (''RPC Error '' @ err)
                 | None \<Rightarrow> ensureR (br_result response \<noteq> None)
                             ''missing result and error, shouldn't happen''))"

end
