(* ===== verification/Resync_Plan.thy ===== *)
theory Resync_Plan
  imports Batch_Requests Lookahead Seq_Context L1_Client
begin

text \<open>
  Which batches a resync proposes: the first part of \<open>ProposerManager::resync\<close> with
  \<open>propose_reorged_batch\<close>, \<open>validate_batch_params\<close> and \<open>fetch_n_blocks\<close>, of
  \<open>crates/proposer/src/manager.rs\<close>.

  The answers of the nodes are the fields of \<open>resync_io\<close>; every reading of the clock in one call is
  the same \<open>utc\<close>.
\<close>

subsection \<open>Checks as on the inbox contract\<close>

definition validate_batch_params ::
    "u64 \<Rightarrow> u64 \<Rightarrow> u64 \<Rightarrow> u64 \<Rightarrow> u64 \<Rightarrow> block list \<Rightarrow> taiko_chain_params \<Rightarrow> unit eyre" where
  "validate_batch_params l2_parent_anchor_block_id l2_parent_timestamp l1_block l1_timestamp
      anchor_block_id blocks config =
     bindR (ensureR (blocks \<noteq> []) ''no blocks to propose'') (\<lambda>_.
     bindR (ensureR (len64 blocks \<le> cp_max_blocks_per_batch config) ''too many blocks to propose'') (\<lambda>_.
     bindR (ensureR (l1_block \<le> anchor_block_id + safe_anchor_height_offset config)
              ''anchor block id too small'') (\<lambda>_.
     bindR (ensureR (anchor_block_id < l1_block) ''anchor block id too large'') (\<lambda>_.
     bindR (ensureR (l2_parent_anchor_block_id \<le> anchor_block_id)
              ''anchor block id smaller than parent'') (\<lambda>_.
     (let first_timestamp = hd_timestamp (blk_header (hd blocks));
          last_timestamp = hd_timestamp (blk_header (last blocks))
      in bindR (ensureR (last_timestamp \<le> l1_timestamp) ''timestamp too large'') (\<lambda>_.
         bindR (ensureR (first_timestamp \<le> last_timestamp) ''block timestamps should increase'') (\<lambda>_.
         (let total_time_shift = last_timestamp - first_timestamp
          in bindR (ensureR (total_time_shift \<le> last_timestamp) ''last timestamp too small'') (\<lambda>_.
             bindR (ensureR (l1_timestamp \<le> first_timestamp + safe_anchor_height_offset config * 12)
                      ''first timestamp too small'') (\<lambda>_.
             ensureR (l2_parent_timestamp \<le> first_timestamp)
               ''first timestamp smaller than parent'')))))))))))"

subsection \<open>Fetching\<close>

record resync_io =
  rio_pending :: "pending_proposal list eyre"
  rio_l2_block :: "u64 \<Rightarrow> block option eyre"
  rio_l1_head :: "u64 option eyre"
  rio_l1_block :: "u64 \<Rightarrow> u64 option eyre"
  rio_utc :: u64
  rio_decode_anchor :: "bytes \<Rightarrow> u64 eyre"

definition fetch_n_blocks :: "resync_io \<Rightarrow> u64 \<Rightarrow> u64 \<Rightarrow> block list eyre run" where
  "fetch_n_blocks io start end =
     map_eyre (\<lambda>bn. ok_or ''failed to fetch block from rpc'' (rio_l2_block io bn))
       (block_range start end)"

text \<open>The anchor block of an L2 block, read from its first transaction.\<close>

definition anchor_id_of :: "resync_io \<Rightarrow> block \<Rightarrow> u64 eyre run" where
  "anchor_id_of io b =
     (case as_transactions b of
        Some ((sender, tx) # _) \<Rightarrow>
          if sender \<noteq> GOLDEN_TOUCH_ADDRESS
          then errE ''expected anchor tx to be from golden touch!''
          else Inr (rio_decode_anchor io (tx_input tx))
      | _ \<Rightarrow> errE ''missing anchor tx in block'')"

subsection \<open>Grouping by anchor\<close>

definition group_push :: "u64 \<Rightarrow> block \<Rightarrow> (u64, block list) btree \<Rightarrow> (u64, block list) btree" where
  "group_push anchor b m =
     bt_insert anchor ((case bt_get m anchor of Some bs \<Rightarrow> bs | None \<Rightarrow> []) @ [b]) m"

fun group_blocks ::
    "resync_io \<Rightarrow> block list \<Rightarrow> (u64, block list) btree \<Rightarrow> (u64, block list) btree eyre run" where
  "group_blocks io [] m = okE m"
| "group_blocks io (b # bs) m =
     bindE (anchor_id_of io b) (\<lambda>anchor. group_blocks io bs (group_push anchor b m))"

subsection \<open>Will a batch be rejected?\<close>

record reorg_state =
  rc_parent_anchor :: u64
  rc_parent_timestamp :: u64
  rc_will_reorg :: bool

definition already_pending :: "pending_proposal list \<Rightarrow> u64 \<Rightarrow> u64 \<Rightarrow> u64 \<Rightarrow> bool" where
  "already_pending all_pending anchor start end \<longleftrightarrow>
     (\<exists>p \<in> set all_pending. pe_anchor_block_id p = anchor \<and> pe_start_block_num p = start \<and>
        pe_end_block_num p = end)"

definition check_group ::
    "taiko_chain_params \<Rightarrow> beacon_handle \<Rightarrow> u64 \<Rightarrow> u64 \<Rightarrow> pending_proposal list \<Rightarrow>
     u64 \<times> block list \<Rightarrow> reorg_state \<Rightarrow> reorg_state run" where
  "check_group config beacon utc l1_head all_pending = (\<lambda>(anchor, blocks) rc.
     (let start_block = hd_number (blk_header (hd blocks));
          end_block = hd_number (blk_header (last blocks))
      in if already_pending all_pending anchor start_block end_block then Inr rc
         else bindR (current_slot utc beacon) (\<lambda>slot.
           (let l1_timestamp = timestamp_of_slot beacon (slot + 1)
            in Inr \<lparr>rc_parent_anchor = anchor,
               rc_parent_timestamp = hd_timestamp (blk_header (last blocks)),
               rc_will_reorg = (rc_will_reorg rc \<or>
                 validate_batch_params (rc_parent_anchor rc) (rc_parent_timestamp rc) (l1_head + 1)
                   l1_timestamp anchor blocks config \<noteq> Inr ())\<rparr>))))"

subsection \<open>The batches\<close>

record proposer_config =
  pc_coinbase :: address
  pc_dry_run :: bool
  pc_batch_target_size :: usize
  pc_min_priority_fee :: u128
  pc_builder :: bool
  pc_builder_wait_receipt_blocks :: u64
  pc_osaka_fork_info :: "osaka_fork_info option"

record resync_env =
  ry_config :: proposer_config
  ry_chain :: taiko_chain_params
  ry_beacon :: beacon_handle
  ry_safe_l1_lag :: u64
  ry_enc :: "tx_envelope \<Rightarrow> bytes"
  ry_compress :: "order list \<Rightarrow> bytes"

definition reorged_requests ::
    "resync_env \<Rightarrow> resync_io \<Rightarrow> u64 \<Rightarrow> block list \<Rightarrow> propose_batch_params list eyre run" where
  "reorged_requests env io l1_head blocks =
     bindE (ok_or ''missing last block'' (rio_l1_block io (saturating_sub l1_head (ry_safe_l1_lag env))))
       (\<lambda>l1_number.
     bindR (current_slot (rio_utc io) (ry_beacon env)) (\<lambda>slot.
     bindR (request_from_blocks (ry_enc env) (ry_compress env) l1_number blocks
              (Some (timestamp_of_slot (ry_beacon env) (slot - 1))) (Some 0)
              (cp_max_blocks_per_batch (ry_chain env)) (pc_batch_target_size (ry_config env)))
       (\<lambda>requests. okE requests)))"

definition group_requests ::
    "resync_env \<Rightarrow> u64 \<times> block list \<Rightarrow> propose_batch_params list run" where
  "group_requests env = (\<lambda>(anchor, blocks).
     request_from_blocks (ry_enc env) (ry_compress env) anchor blocks None None
       (cp_max_blocks_per_batch (ry_chain env)) (pc_batch_target_size (ry_config env)))"

text \<open>The answer: whether the blocks are anchored anew, the groups, and the requests.  \<open>map_eyre\<close> gives one
  list per anchor, in ascending order of the anchors.\<close>

definition resync_plan ::
    "resync_env \<Rightarrow> resync_io \<Rightarrow> u64 \<Rightarrow> u64 \<Rightarrow> (bool \<times> (u64, block list) btree \<times> propose_batch_params list list) eyre run" where
  "resync_plan env io origin end =
     (let all_pending = (case rio_pending io of Inr p \<Rightarrow> p | Inl _ \<Rightarrow> []) in
      bindE (fetch_n_blocks io (origin + 1) end) (\<lambda>blocks.
      bindE (group_blocks io blocks []) (\<lambda>to_propose.
      bindE (ok_or ''missing last block'' (rio_l1_head io)) (\<lambda>l1_head.
      bindE (ok_or ''missing last block'' (rio_l2_block io origin)) (\<lambda>l2_parent.
      bindE (anchor_id_of io l2_parent) (\<lambda>parent_anchor.
      bindR (run_events (check_group (ry_chain env) (ry_beacon env) (rio_utc io) l1_head all_pending)
               to_propose
               \<lparr>rc_parent_anchor = parent_anchor,
                rc_parent_timestamp = hd_timestamp (blk_header l2_parent),
                rc_will_reorg = False\<rparr>) (\<lambda>rc.
        if rc_will_reorg rc
        then bindE (reorged_requests env io l1_head (concat (map snd to_propose)))
               (\<lambda>requests. okE (True, to_propose, [requests]))
        else bindE (map_eyre (\<lambda>g. bindR (group_requests env g) okE) to_propose)
               (\<lambda>requests. okE (False, to_propose, requests)))))))))"

subsection \<open>Groups hold every block once\<close>

definition group_of :: "(u64, block list) btree \<Rightarrow> u64 \<Rightarrow> block list" where
  "group_of m a = (case bt_get m a of Some bs \<Rightarrow> bs | None \<Rightarrow> [])"

lemma group_of_push:
  "bt_wf m \<Longrightarrow> group_of (group_push a b m) k = group_of m k @ (if k = a then [b] else [])"
  by (simp add: group_of_def group_push_def bt_get_def map_of_bt_insert)

lemma mset_bt_insert:
  "bt_wf m \<Longrightarrow> mset (concat (map snd (bt_insert a l m))) + mset (group_of m a) =
     mset (concat (map snd m)) + mset l"
proof (induction m)
  case (Cons e m)
  obtain k bs where e: "e = (k, bs)" by fastforce
  have wf: "bt_wf m" and gt: "\<forall>x \<in> fst ` set m. k < x" using Cons.prems by (auto simp: e bt_wf_def)
  have none: "map_of m a = None" if "a < k \<or> a = k"
    using gt that by (auto simp: map_of_eq_None_iff)
  show ?case
    using Cons.IH[OF wf] none by (auto simp: e group_of_def bt_get_def)
qed (simp add: group_of_def bt_get_def)

lemma mset_group_push:
  "bt_wf m \<Longrightarrow> mset (concat (map snd (group_push a b m))) = add_mset b (mset (concat (map snd m)))"
  using mset_bt_insert[of m a "group_of m a @ [b]"] by (simp add: group_push_def group_of_def)

lemma bt_insert_values: "[] \<notin> snd ` set m \<Longrightarrow> l \<noteq> [] \<Longrightarrow> [] \<notin> snd ` set (bt_insert a l m)"
  by (induction m) auto

lemma group_blocks_ok:
  assumes "group_blocks io bs m = okE m'" "bt_wf m" "[] \<notin> snd ` set m"
  shows "bt_wf m' \<and> [] \<notin> snd ` set m' \<and>
    mset (concat (map snd m')) = mset bs + mset (concat (map snd m)) \<and>
    (\<forall>k. group_of m' k = group_of m k @ filter (\<lambda>b. anchor_id_of io b = okE k) bs)"
  using assms
proof (induction io bs m rule: group_blocks.induct)
  case (2 io b bs m)
  from 2(2) obtain a where a: "anchor_id_of io b = okE a"
    "group_blocks io bs (group_push a b m) = okE m'"
    by (auto simp: bindE_eq_ok)
  have wf: "bt_wf (group_push a b m)" using 2(3) by (simp add: group_push_def bt_wf_insert)
  have ne: "[] \<notin> snd ` set (group_push a b m)"
    unfolding group_push_def by (rule bt_insert_values[OF 2(4)]) simp
  from 2(1)[OF a(2) wf ne] show ?case
    using a(1) by (auto simp: mset_group_push[OF 2(3)] group_of_push[OF 2(3)])
qed simp

lemma group_entry: "bt_wf m \<Longrightarrow> (k, bs) \<in> set m \<Longrightarrow> group_of m k = bs"
  by (simp add: group_of_def bt_in_get)

subsection \<open>What the plan proposes\<close>

definition covers :: "request_env \<Rightarrow> propose_batch_params list \<Rightarrow> block list \<Rightarrow> bool" where
  "covers re rs bs \<longleftrightarrow> (\<exists>segs. concat segs = bs \<and> list_all2 (describes re) rs segs)"

lemma requests_cover:
  assumes "request_from_blocks enc compress anchor blocks tso sho max_blocks target = Inr rs"
  shows "blocks \<noteq> [] \<and>
    covers (request_env_of enc compress anchor (hd blocks) tso sho max_blocks target) rs blocks"
proof -
  from assms have ne: "blocks \<noteq> []" by (auto simp: request_from_blocks_def split: list.splits)
  from request_from_blocks_ok[OF ne refl, of enc compress anchor tso sho max_blocks target] assms ne
  show ?thesis by (auto simp: covers_def)
qed

definition group_env :: "resync_env \<Rightarrow> u64 \<Rightarrow> block list \<Rightarrow> u64 option \<Rightarrow> u8 option \<Rightarrow> request_env" where
  "group_env env anchor bs tso sho =
     request_env_of (ry_enc env) (ry_compress env) anchor (hd bs) tso sho
       (cp_max_blocks_per_batch (ry_chain env)) (pc_batch_target_size (ry_config env))"

lemma resync_plan_parts:
  assumes "resync_plan env io origin end = okE (reorg, groups, requests)"
  shows "\<exists>blocks.
    fetch_n_blocks io (origin + 1) end = okE blocks \<and> bt_wf groups \<and>
    mset (concat (map snd groups)) = mset blocks \<and>
    (\<forall>(a, bs) \<in> set groups. bs = filter (\<lambda>b. anchor_id_of io b = okE a) blocks \<and> bs \<noteq> []) \<and>
    (if reorg
     then \<exists>l1 slot rs. requests = [rs] \<and> current_slot (rio_utc io) (ry_beacon env) = Inr slot \<and>
       covers (group_env env l1 (concat (map snd groups))
                (Some (timestamp_of_slot (ry_beacon env) (slot - 1))) (Some 0))
         rs (concat (map snd groups))
     else list_all2 (\<lambda>(a, bs) rs. covers (group_env env a bs None None) rs bs) groups requests)"
proof -
  from assms obtain blocks l1_head where
    parts: "fetch_n_blocks io (origin + 1) end = okE blocks" "group_blocks io blocks [] = okE groups"
    "if reorg
     then \<exists>rs. requests = [rs] \<and> reorged_requests env io l1_head (concat (map snd groups)) = okE rs
     else map_eyre (\<lambda>g. bindR (group_requests env g) okE) groups = okE requests"
    by (auto simp: resync_plan_def bindE_eq_ok bindR_eq_Inr Let_def split: if_splits)
  have g: "bt_wf groups" "[] \<notin> snd ` set groups" "mset (concat (map snd groups)) = mset blocks"
    "\<forall>k. group_of groups k = filter (\<lambda>b. anchor_id_of io b = okE k) blocks"
    using group_blocks_ok[OF parts(2)] by (simp_all add: group_of_def bt_get_def)
  have entries: "\<forall>(a, bs) \<in> set groups. bs = filter (\<lambda>b. anchor_id_of io b = okE a) blocks \<and> bs \<noteq> []"
    using group_entry[OF g(1)] g(2,4) by force
  have last: "if reorg
     then \<exists>l1 slot rs. requests = [rs] \<and> current_slot (rio_utc io) (ry_beacon env) = Inr slot \<and>
       covers (group_env env l1 (concat (map snd groups))
                (Some (timestamp_of_slot (ry_beacon env) (slot - 1))) (Some 0))
         rs (concat (map snd groups))
     else list_all2 (\<lambda>(a, bs) rs. covers (group_env env a bs None None) rs bs) groups requests"
  proof (cases reorg)
    case True
    with parts(3) obtain rs where rs: "requests = [rs]"
      "reorged_requests env io l1_head (concat (map snd groups)) = okE rs" by auto
    then show ?thesis
      using True requests_cover
      by (fastforce simp: reorged_requests_def bindE_eq_ok bindR_eq_Inr group_env_def)
  next
    case False
    with parts(3) have "list_all2 (\<lambda>g rs. group_requests env g = Inr rs) groups requests"
      by (simp add: map_eyre_ok bindR_eq_Inr)
    then have "list_all2 (\<lambda>(a, bs) rs. covers (group_env env a bs None None) rs bs) groups requests"
      by (rule list_all2_mono)
         (auto simp: group_requests_def group_env_def dest!: requests_cover)
    with False show ?thesis by simp
  qed
  with parts(1) g entries show ?thesis by blast
qed

end
