(* ===== verification/Error_Parsers.thy ===== *)
theory Error_Parsers
  imports Rust_Str Gw_Orders
begin

text \<open>
  The texts that other programs send and the gateway acts on: the reasons of the simulator
  (\<open>Deserialize for InvalidReason\<close> of \<open>crates/common/src/sequencer.rs\<close>), the errors of the L1
  transaction pool (\<open>FailReason::try_extract\<close> of \<open>crates/common/src/types.rs\<close>) and the reverts of
  the contracts (\<open>extract_revert_reason\<close> of \<open>crates/common/src/utils.rs\<close>, \<open>RevertReason\<close> of
  \<open>crates/common/src/taiko/pacaya/mod.rs\<close>).  Strings are ASCII; hex and ABI decoding are
  parameters.
\<close>

subsection \<open>Reasons of the simulator\<close>

text \<open>A text with two numbers after a separator that follows some other text.\<close>

definition two_numbers :: "string \<Rightarrow> string \<Rightarrow> string \<Rightarrow> ('a::len word \<times> 'a word) option" where
  "two_numbers sep1 sep2 captures =
     (case find_str sep1 captures of
        None \<Rightarrow> None
      | Some (_, rest) \<Rightarrow>
          (case find_str sep2 rest of
             None \<Rightarrow> None
           | Some (a, b) \<Rightarrow>
               (case (parse_uint a, parse_uint b) of (Some x, Some y) \<Rightarrow> Some (x, y) | _ \<Rightarrow> None)))"

text \<open>The branches in order; one that fails falls through to the next.\<close>

definition invalid_too_low :: "string \<Rightarrow> invalid_reason option" where
  "invalid_too_low s =
     (case strip_prefix ''nonce too low: address '' s of
        None \<Rightarrow> None
      | Some c \<Rightarrow> map_option (\<lambda>(tx, state). NonceTooLow tx state) (two_numbers '', tx: '' '' state: '' c))"

definition invalid_too_high :: "string \<Rightarrow> invalid_reason option" where
  "invalid_too_high s =
     (case strip_prefix ''nonce too high: address '' s of
        None \<Rightarrow> None
      | Some c \<Rightarrow> map_option (\<lambda>(tx, state). NonceTooHigh tx state) (two_numbers '', tx: '' '' state: '' c))"

definition invalid_state_id :: "string \<Rightarrow> invalid_reason option" where
  "invalid_state_id s =
     (case strip_prefix ''state not found for id '' s of
        None \<Rightarrow> None
      | Some c \<Rightarrow> map_option StateIdNotFound (parse_uint c))"

definition invalid_funds :: "string \<Rightarrow> invalid_reason option" where
  "invalid_funds s =
     (case strip_prefix ''insufficient funds for gas * price + value: address '' s of
        None \<Rightarrow> None
      | Some c \<Rightarrow> map_option (\<lambda>(have, want). InsufficientFunds have want)
                    (two_numbers '' have '' '' want '' c))"

definition parse_invalid_reason :: "string \<Rightarrow> invalid_reason" where
  "parse_invalid_reason s =
     (case invalid_too_low s of Some r \<Rightarrow> r | None \<Rightarrow>
     (case invalid_too_high s of Some r \<Rightarrow> r | None \<Rightarrow>
      if contains s ''not enough gas for further transactions'' then NotEnoughGas
      else if contains s ''max fee per gas less than block base fee'' then CapLessThanBaseFee
      else
     (case invalid_state_id s of Some r \<Rightarrow> r | None \<Rightarrow>
     (case invalid_funds s of Some r \<Rightarrow> r | None \<Rightarrow> Uknown s))))"

text \<open>What the simulator writes for a reason about the account \<open>addr\<close>.\<close>

fun invalid_text :: "string \<Rightarrow> invalid_reason \<Rightarrow> string" where
  "invalid_text addr (NonceTooLow tx state) =
     ''nonce too low: address '' @ addr @ '', tx: '' @ decimal (unat tx) @ '' state: '' @ decimal (unat state)"
| "invalid_text addr (NonceTooHigh tx state) =
     ''nonce too high: address '' @ addr @ '', tx: '' @ decimal (unat tx) @ '' state: '' @ decimal (unat state)"
| "invalid_text addr NotEnoughGas = ''not enough gas for further transactions''"
| "invalid_text addr CapLessThanBaseFee = ''max fee per gas less than block base fee''"
| "invalid_text addr (InsufficientFunds have want) =
     ''insufficient funds for gas * price + value: address '' @ addr @ '' have '' @
       decimal (unat have) @ '' want '' @ decimal (unat want)"
| "invalid_text addr (StateIdNotFound i) = ''state not found for id '' @ decimal (unat i)"
| "invalid_text addr (Uknown s) = s"

lemma two_numbers_text:
  assumes "sep1 \<noteq> []" "hd sep1 \<notin> set addr" "sep2 \<noteq> []" "\<not> is_digit (hd sep2)"
  shows "two_numbers sep1 sep2 (addr @ sep1 @ decimal (unat a) @ sep2 @ decimal (unat b)) =
    Some (a, b :: 'a::len word)"
  using find_str_after[OF assms(1,2)] find_str_after[OF assms(3) not_digit_decimal[OF assms(4)]]
  by (simp add: two_numbers_def)

text \<open>No text of the last two kinds mentions gas limits or fee caps.\<close>

lemma no_gas_text:
  assumes "CHR ''n'' \<notin> set addr" "CHR ''m'' \<notin> set addr"
  shows "\<not> contains (''insufficient funds for gas * price + value: address '' @ addr @ '' have '' @
      decimal h @ '' want '' @ decimal w) ''not enough gas for further transactions''"
    "\<not> contains (''insufficient funds for gas * price + value: address '' @ addr @ '' have '' @
      decimal h @ '' want '' @ decimal w) ''max fee per gas less than block base fee''"
  using assms not_digit_decimal[of "CHR ''n''"] not_digit_decimal[of "CHR ''m''"]
  by (simp_all add: contains_def find_str_skip find_str_no_head is_digit_def)

definition hex_text :: "string \<Rightarrow> bool" where
  "hex_text s \<longleftrightarrow> set s \<subseteq> set ''0123456789abcdefABCDEFx''"

lemma hex_text_not:
  "hex_text s \<Longrightarrow> c \<notin> set ''0123456789abcdefABCDEFx'' \<Longrightarrow> c \<notin> set s"
  unfolding hex_text_def by (rule contra_subsetD)

lemma invalid_too_low_text:
  "hex_text addr \<Longrightarrow> parse_invalid_reason (invalid_text addr (NonceTooLow tx state)) = NonceTooLow tx state"
  using two_numbers_text[of "'', tx: ''" addr "'' state: ''" tx state] hex_text_not[of addr "CHR '',''"]
  by (simp add: parse_invalid_reason_def invalid_too_low_def is_digit_def)

lemma invalid_too_high_text:
  "hex_text addr \<Longrightarrow> parse_invalid_reason (invalid_text addr (NonceTooHigh tx state)) = NonceTooHigh tx state"
  using two_numbers_text[of "'', tx: ''" addr "'' state: ''" tx state] hex_text_not[of addr "CHR '',''"]
  by (simp add: parse_invalid_reason_def invalid_too_low_def invalid_too_high_def is_digit_def)

lemma invalid_funds_text:
  assumes "hex_text addr"
  shows "parse_invalid_reason (invalid_text addr (InsufficientFunds h w)) = InsufficientFunds h w"
  using two_numbers_text[of "'' have ''" addr "'' want ''" h w] assms
    hex_text_not[of addr "CHR '' ''"] no_gas_text[of addr "unat h" "unat w"]
    hex_text_not[of addr "CHR ''n''"] hex_text_not[of addr "CHR ''m''"]
  by (simp add: parse_invalid_reason_def invalid_too_low_def invalid_too_high_def
      invalid_state_id_def invalid_funds_def is_digit_def)

lemma invalid_state_text:
  "parse_invalid_reason (invalid_text addr (StateIdNotFound i)) = StateIdNotFound i"
  using not_digit_decimal[of "CHR ''n''" "unat i"] not_digit_decimal[of "CHR ''m''" "unat i"]
  by (simp add: parse_invalid_reason_def invalid_too_low_def invalid_too_high_def contains_def
      find_str_no_head invalid_state_id_def is_digit_def)

lemma invalid_text_parses:
  assumes "hex_text addr" "\<nexists>s. r = Uknown s"
  shows "parse_invalid_reason (invalid_text addr r) = r"
proof (cases r)
  case NotEnoughGas
  then show ?thesis
    by (simp add: parse_invalid_reason_def invalid_too_low_def invalid_too_high_def contains_def)
next
  case CapLessThanBaseFee
  then show ?thesis
    by (simp add: parse_invalid_reason_def invalid_too_low_def invalid_too_high_def contains_def)
qed (use assms invalid_too_low_text invalid_too_high_text invalid_funds_text invalid_state_text
    in simp_all)

subsection \<open>Errors of the L1 transaction pool\<close>

datatype fail_reason =
    UnderpricedTipCap u128 u128
  | UnderpricedBlobFeeCap u128 u128
  | UnderpricedGasFeeCap u128 u128
  | UnderpricedUnknown

definition to_lower :: "char \<Rightarrow> char" where
  "to_lower c =
     (if 65 \<le> (of_char c :: nat) \<and> (of_char c :: nat) \<le> 90 then char_of ((of_char c :: nat) + 32) else c)"

definition to_lowercase :: "string \<Rightarrow> string" where
  "to_lowercase s = map to_lower s"

definition extract_first_u128 :: "string \<Rightarrow> u128 option" where
  "extract_first_u128 s =
     (case dropWhile (\<lambda>c. \<not> is_digit c) s of
        [] \<Rightarrow> None
      | remainder \<Rightarrow> parse_uint (takeWhile is_digit remainder))"

text \<open>The part after a cap's name, split into what was sent and what is queued.  The outer option
  says whether the name occurs, the inner one whether the rest has the expected shape.\<close>

definition underpriced_caps :: "string \<Rightarrow> string \<Rightarrow> (u128 \<times> u128) option option" where
  "underpriced_caps name lower =
     (case split_str name lower of
        _ # after # _ \<Rightarrow>
          Some (case split_str '' <'' after of
                  [a, b] \<Rightarrow> (case (extract_first_u128 a, extract_first_u128 b) of
                               (Some sent, Some queued) \<Rightarrow> Some (sent, queued)
                             | _ \<Rightarrow> None)
                | _ \<Rightarrow> None)
      | _ \<Rightarrow> None)"

definition try_extract :: "string \<Rightarrow> fail_reason option" where
  "try_extract input =
     (let lower = to_lowercase input in
      if \<not> contains lower ''replacement transaction underpriced'' then None
      else case underpriced_caps ''new tx gas tip cap '' lower of
             Some r \<Rightarrow> map_option (\<lambda>(sent, queued). UnderpricedTipCap sent queued) r
           | None \<Rightarrow>
          (case underpriced_caps ''new tx blob gas fee cap '' lower of
             Some r \<Rightarrow> map_option (\<lambda>(sent, queued). UnderpricedBlobFeeCap sent queued) r
           | None \<Rightarrow>
          (case underpriced_caps ''new tx gas fee cap '' lower of
             Some r \<Rightarrow> map_option (\<lambda>(sent, queued). UnderpricedGasFeeCap sent queued) r
           | None \<Rightarrow> Some UnderpricedUnknown)))"

text \<open>What the pool of an L1 node writes.\<close>

definition geth_text :: "string \<Rightarrow> u128 \<Rightarrow> u128 \<Rightarrow> string" where
  "geth_text name sent queued =
     ''server returned an error response: error code -32000: replacement transaction underpriced: ''
     @ name @ decimal (unat sent) @ '' <= '' @ decimal (unat queued) @ '' queued''"

lemma to_lower_digit [simp]: "is_digit c \<Longrightarrow> to_lower c = c"
  by (simp add: is_digit_def to_lower_def)

lemma to_lowercase_decimal [simp]: "to_lowercase (decimal n) = decimal n"
  unfolding to_lowercase_def using decimal_digits[of n] by (intro map_idI) (auto simp: list_all_iff)

lemma to_lowercase_append [simp]: "to_lowercase (a @ b) = to_lowercase a @ to_lowercase b"
  by (simp add: to_lowercase_def)

lemma extract_first_at:
  assumes "s = [] \<or> \<not> is_digit (hd s)"
  shows "extract_first_u128 (decimal (unat w) @ s) = Some w"
proof -
  obtain x xs where x: "decimal (unat w) = x # xs" by (cases "decimal (unat w)") auto
  have "is_digit x" "\<forall>c \<in> set xs. is_digit c"
    using decimal_digits[of "unat w"] by (auto simp: x list_all_iff)
  moreover from this have "takeWhile is_digit (x # xs @ s) = x # xs"
    using assms by (cases s) (auto simp: takeWhile_tail)
  moreover have "parse_uint (x # xs) = Some w" using parse_uint_decimal[of w] x by simp
  ultimately show ?thesis by (simp add: extract_first_u128_def x)
qed

lemma extract_first_skip: "\<not> is_digit c \<Longrightarrow> extract_first_u128 (c # s) = extract_first_u128 s"
  by (simp add: extract_first_u128_def)

lemma split_str_found: "pat \<noteq> [] \<Longrightarrow> find_str pat s = Some (a, b) \<Longrightarrow> split_str pat s = a # split_str pat b"
  by (simp add: split_str.simps[of pat s])

lemma split_str_not_found: "pat \<noteq> [] \<Longrightarrow> find_str pat s = None \<Longrightarrow> split_str pat s = [s]"
  by (simp add: split_str.simps[of pat s])

abbreviation numbers_text :: "u128 \<Rightarrow> u128 \<Rightarrow> string" where
  "numbers_text sent queued \<equiv> decimal (unat sent) @ '' <= '' @ decimal (unat queued) @ '' queued''"

lemma numbers_no_char:
  "\<not> is_digit c \<Longrightarrow> c \<notin> set '' <= queued'' \<Longrightarrow> c \<notin> set (numbers_text sent queued)"
  using not_digit_decimal[of c "unat sent"] not_digit_decimal[of c "unat queued"] by auto

lemma split_numbers:
  "split_str '' <'' (numbers_text sent queued) =
     [decimal (unat sent), ''= '' @ decimal (unat queued) @ '' queued'']"
proof -
  have space: "\<not> is_digit (CHR '' '')" by (simp add: is_digit_def)
  obtain d ds where d: "decimal (unat queued) = d # ds" by (cases "decimal (unat queued)") auto
  have digit: "is_digit d" using decimal_digits[of "unat queued"] by (simp add: d)
  have no_space: "CHR '' '' \<notin> set (d # ds)" using not_digit_decimal[OF space, of "unat queued"] d by simp
  have rest: "find_str '' <'' ((d # ds) @ '' queued'') = None"
    using no_space by (subst find_str_skip) simp_all
  have "d \<noteq> CHR ''<''" using digit by (auto simp: is_digit_def)
  then have "find_str '' <'' (''= '' @ decimal (unat queued) @ '' queued'') = None"
    using rest by (simp add: d)
  moreover have "find_str '' <'' (numbers_text sent queued) =
      Some (decimal (unat sent), ''= '' @ decimal (unat queued) @ '' queued'')"
    using find_str_after[of "'' <''" "decimal (unat sent)" "''= '' @ decimal (unat queued) @ '' queued''"]
      not_digit_decimal[OF space, of "unat sent"] by simp
  ultimately show ?thesis by (simp add: split_str_found split_str_not_found)
qed

lemma caps_found:
  assumes "name \<noteq> []" "hd name = CHR ''n''" "find_str name (p @ name @ numbers_text sent queued) = Some (p, numbers_text sent queued)"
  shows "underpriced_caps name (p @ name @ numbers_text sent queued) = Some (Some (sent, queued))"
proof -
  have "CHR ''n'' \<notin> set (numbers_text sent queued)" by (rule numbers_no_char) (simp_all add: is_digit_def)
  then have "find_str name (numbers_text sent queued) = None"
    using assms(1,2) by (intro find_str_no_head) simp_all
  with assms have split: "split_str name (p @ name @ numbers_text sent queued) = [p, numbers_text sent queued]"
    by (simp add: split_str_found split_str_not_found)
  have "extract_first_u128 (decimal (unat sent)) = Some sent"
    using extract_first_at[of "[]" sent] by simp
  moreover have "extract_first_u128 (''= '' @ decimal (unat queued) @ '' queued'') = Some queued"
    using extract_first_at[of "'' queued''" queued] by (simp add: extract_first_skip is_digit_def)
  ultimately show ?thesis by (simp only: underpriced_caps_def split list.case split_numbers option.case prod.case)
qed

lemma caps_missing:
  assumes "name \<noteq> []" "find_str name lower = None"
  shows "underpriced_caps name lower = None"
  using assms by (simp add: underpriced_caps_def split_str_not_found)

lemma geth_lower:
  assumes "to_lowercase name = name"
  shows "to_lowercase (geth_text name sent queued) = geth_text name sent queued"
proof -
  have "to_lowercase ''server returned an error response: error code -32000: replacement transaction underpriced: '' =
      ''server returned an error response: error code -32000: replacement transaction underpriced: ''"
    "to_lowercase '' <= '' = '' <= ''" "to_lowercase '' queued'' = '' queued''"
    by (simp_all add: to_lowercase_def to_lower_def)
  then show ?thesis by (simp only: geth_text_def to_lowercase_append to_lowercase_decimal assms)
qed

lemma geth_underpriced: "contains (geth_text name sent queued) ''replacement transaction underpriced''"
  by (simp add: contains_def geth_text_def)

lemma find_in_numbers:
  "name \<noteq> [] \<Longrightarrow> hd name = CHR ''n'' \<Longrightarrow> find_str name (numbers_text sent queued) = None"
  by (intro find_str_no_head numbers_no_char) (simp_all add: is_digit_def)

definition caps_names :: "string list" where
  "caps_names = [''new tx gas tip cap '', ''new tx blob gas fee cap '', ''new tx gas fee cap '']"

lemma caps_own:
  assumes "name \<in> set caps_names"
  shows "underpriced_caps name (geth_text name sent queued) = Some (Some (sent, queued))"
proof -
  have "find_str name (''server returned an error response: error code -32000: replacement transaction underpriced: '' @
      name @ numbers_text sent queued) =
      Some (''server returned an error response: error code -32000: replacement transaction underpriced: '',
        numbers_text sent queued)"
    using assms by (auto simp: caps_names_def)
  then show ?thesis
    unfolding geth_text_def using assms by (intro caps_found) (auto simp: caps_names_def)
qed

lemma caps_other_find:
  assumes "find_str other (numbers_text sent queued) = None"
  shows "other = ''new tx gas tip cap '' \<Longrightarrow> find_str other (geth_text ''new tx blob gas fee cap '' sent queued) = None"
    "other = ''new tx gas tip cap '' \<Longrightarrow> find_str other (geth_text ''new tx gas fee cap '' sent queued) = None"
    "other = ''new tx blob gas fee cap '' \<Longrightarrow> find_str other (geth_text ''new tx gas fee cap '' sent queued) = None"
  using assms by (simp_all add: geth_text_def)

lemma caps_other:
  "underpriced_caps ''new tx gas tip cap '' (geth_text ''new tx blob gas fee cap '' sent queued) = None"
  "underpriced_caps ''new tx gas tip cap '' (geth_text ''new tx gas fee cap '' sent queued) = None"
  "underpriced_caps ''new tx blob gas fee cap '' (geth_text ''new tx gas fee cap '' sent queued) = None"
proof -
  have "find_str ''new tx gas tip cap '' (numbers_text sent queued) = None"
    "find_str ''new tx blob gas fee cap '' (numbers_text sent queued) = None"
    by (rule find_in_numbers; simp)+
  note none = this
  show "underpriced_caps ''new tx gas tip cap '' (geth_text ''new tx blob gas fee cap '' sent queued) = None"
    by (rule caps_missing[OF _ caps_other_find(1)[OF none(1) refl]]) simp
  show "underpriced_caps ''new tx gas tip cap '' (geth_text ''new tx gas fee cap '' sent queued) = None"
    by (rule caps_missing[OF _ caps_other_find(2)[OF none(1) refl]]) simp
  show "underpriced_caps ''new tx blob gas fee cap '' (geth_text ''new tx gas fee cap '' sent queued) = None"
    by (rule caps_missing[OF _ caps_other_find(3)[OF none(2) refl]]) simp
qed

lemma caps_lower: "name \<in> set caps_names \<Longrightarrow> to_lowercase name = name"
  by (auto simp: caps_names_def to_lowercase_def to_lower_def)

lemma geth_text_extracts:
  "try_extract (geth_text ''new tx gas tip cap '' sent queued) = Some (UnderpricedTipCap sent queued)"
  "try_extract (geth_text ''new tx blob gas fee cap '' sent queued) = Some (UnderpricedBlobFeeCap sent queued)"
  "try_extract (geth_text ''new tx gas fee cap '' sent queued) = Some (UnderpricedGasFeeCap sent queued)"
proof -
  let ?tip = "''new tx gas tip cap ''" and ?blob = "''new tx blob gas fee cap ''"
    and ?gas = "''new tx gas fee cap ''"
  have m: "?tip \<in> set caps_names" "?blob \<in> set caps_names" "?gas \<in> set caps_names"
    by (simp_all add: caps_names_def)
  note start = try_extract_def Let_def geth_lower[OF caps_lower] m geth_underpriced not_True_eq_False
    if_False option.case option.map prod.case
  show "try_extract (geth_text ?tip sent queued) = Some (UnderpricedTipCap sent queued)"
    by (simp only: start caps_own[OF m(1)])
  show "try_extract (geth_text ?blob sent queued) = Some (UnderpricedBlobFeeCap sent queued)"
    by (simp only: start caps_other caps_own[OF m(2)])
  show "try_extract (geth_text ?gas sent queued) = Some (UnderpricedGasFeeCap sent queued)"
    by (simp only: start caps_other caps_own[OF m(3)])
qed

subsection \<open>Reverts of the contracts\<close>

datatype l1_error = TimestampTooLarge | OtherL1 string

datatype router_error =
    NotPreconferOrFallback
  | InvalidLastBlockId u96 u96
  | OtherRouter string

datatype revert_reason =
    RevertTaikoL1 l1_error
  | RevertWhitelist string
  | RevertRouter router_error

record revert_io =
  rv_hex_decode :: "string \<Rightarrow> bytes option"
  rv_taiko_l1 :: "bytes \<Rightarrow> l1_error option"
  rv_whitelist :: "bytes \<Rightarrow> string option"
  rv_router :: "bytes \<Rightarrow> router_error option"

definition quote :: char where
  "quote = CHR 0x22"

definition MARKER :: string where
  "MARKER = ''data: '' @ [quote] @ ''0x''"

definition extract_revert_reason ::
    "(string \<Rightarrow> bytes option) \<Rightarrow> (bytes \<Rightarrow> 'e option) \<Rightarrow> string \<Rightarrow> 'e option" where
  "extract_revert_reason hex_decode abi_decode input =
     (case find_str MARKER input of
        None \<Rightarrow> None
      | Some (_, code) \<Rightarrow>
          (case find_str [quote] code of
             None \<Rightarrow> None
           | Some (hex_str, _) \<Rightarrow> Option.bind (hex_decode hex_str) abi_decode))"

definition revert_reason_of :: "revert_io \<Rightarrow> string \<Rightarrow> revert_reason option" where
  "revert_reason_of io value =
     (case extract_revert_reason (rv_hex_decode io) (rv_taiko_l1 io) value of
        Some err \<Rightarrow> Some (RevertTaikoL1 err)
      | None \<Rightarrow>
     (case extract_revert_reason (rv_hex_decode io) (rv_whitelist io) value of
        Some err \<Rightarrow> Some (RevertWhitelist err)
      | None \<Rightarrow>
     (case extract_revert_reason (rv_hex_decode io) (rv_router io) value of
        Some err \<Rightarrow> Some (RevertRouter err)
      | None \<Rightarrow> None)))"

definition revert_text :: "string \<Rightarrow> string \<Rightarrow> string" where
  "revert_text hex_str rest =
     ''server returned an error response: error code 3: execution reverted, '' @ MARKER @ hex_str @
     quote # rest"

lemma revert_text_extracts:
  assumes "quote \<notin> set hex_str"
  shows "extract_revert_reason hex_decode abi_decode (revert_text hex_str rest) =
    Option.bind (hex_decode hex_str) abi_decode"
proof -
  have "find_str MARKER (revert_text hex_str rest) =
      Some (''server returned an error response: error code 3: execution reverted, '', hex_str @ quote # rest)"
    by (simp add: revert_text_def MARKER_def quote_def)
  moreover have "find_str [quote] (hex_str @ quote # rest) = Some (hex_str, rest)"
    using find_str_after[of "[quote]" hex_str rest] assms by simp
  ultimately show ?thesis by (simp add: extract_revert_reason_def)
qed

end
