(* ===== verification/Proposer.thy ===== *)
theory Proposer
  imports Resync_Plan Error_Parsers
begin

text \<open>
  The proposer, \<open>ProposerManager\<close> of \<open>crates/proposer/src/manager.rs\<close>: preparing a batch, one
  attempt to land it on the L1, the loop that retries it, the resync, and the handler of requests.

  An attempt has an input: the answers of node, signer and block builder, and a list of polls, one
  for each round of the loop that waits for the receipt.  A list of attempts that ends before the
  batch has landed leaves the loop in progress.  Logs, alerts, metrics and the delays are left out;
  the reorg check that a landed batch spawns is a task of its own (\<open>reorg_check\<close>).
\<close>

subsection \<open>Preparing a batch\<close>

text \<open>\<open>last_meta_hash\<close>.\<close>

definition last_meta_hash :: b256 where
  "last_meta_hash = 0"

definition should_use_blobs :: "usize \<Rightarrow> bool" where
  "should_use_blobs compressed_size = True"

record ('p, 'q, 'c) proposer_env =
  pv_config :: proposer_config
  pv_client :: l1_client
  pv_address :: address
  pv_abi :: "('p, 'q, 'c) abi"
  pv_kzg :: kzg
  pv_max_blobs :: nat
  pv_compress :: "order list \<Rightarrow> bytes"
  pv_revert :: revert_io
  pv_window :: u64

definition prepare_batch ::
    "('p, 'q, 'c) proposer_env \<Rightarrow> propose_batch_params \<Rightarrow> ('c \<times> blob_sidecar option) run" where
  "prepare_batch pv request =
     (let compressed = pv_compress pv (pb_all_tx_list request);
          request = request\<lparr>pb_all_tx_list := []\<rparr>
      in if should_use_blobs (len64 compressed)
         then bindR (propose_batch_blobs (pv_abi pv) (pv_kzg pv) (pv_max_blobs pv) request
                       last_meta_hash (pv_address pv) compressed)
                (\<lambda>(input, sidecar). Inr (input, Some sidecar))
         else Inr (propose_batch_calldata (pv_abi pv) request last_meta_hash (pv_address pv) compressed,
                   None))"

subsection \<open>One attempt\<close>

datatype attempt_error = TxNotIncludedInNextBlocks | ErrText string

datatype attempt_result = Landed | Failed attempt_error | Waiting

record poll =
  po_now :: instant
  po_send :: "b256 eyre"
  po_receipt :: "receipt option eyre"
  po_last_block :: "u64 eyre"

record 'c attempt =
  at_nonce :: "u64 eyre"
  at_fees :: fee_io
  at_utc :: u64
  at_encode :: "'c l1_tx \<Rightarrow> b256"
  at_encode_7594 :: "'c l1_tx \<Rightarrow> b256 eyre"
  at_start_block :: "u64 eyre"
  at_bundle :: "u64 \<Rightarrow> (bool \<times> bundle_response option) eyre"
  at_now :: instant
  at_polls :: "poll list"

text \<open>The loop that waits for the receipt.  \<open>sent\<close>: the transaction is in the public mempool.\<close>

datatype waited = GotReceipt receipt | WaitFailed attempt_error | WaitMore

fun wait_receipt :: "b256 \<Rightarrow> instant \<Rightarrow> u64 \<Rightarrow> u64 \<Rightarrow> bool \<Rightarrow> poll list \<Rightarrow> waited run" where
  "wait_receipt our_hash send_mempool_at start_block wait_blocks sent [] = Inr WaitMore"
| "wait_receipt our_hash send_mempool_at start_block wait_blocks sent (p # ps) =
     (let send = (\<not> sent \<and> send_mempool_at \<le> po_now p) in
      if send \<and> (case po_send p of Inr hash \<Rightarrow> hash \<noteq> our_hash | Inl _ \<Rightarrow> False)
      then Inl ''assertion `left == right` failed''
      else case (if send then po_send p else Inr our_hash) of
             Inl e \<Rightarrow> Inr (WaitFailed (ErrText e))
           | Inr _ \<Rightarrow>
          (case po_receipt p of
             Inl e \<Rightarrow> Inr (WaitFailed (ErrText e))
           | Inr (Some r) \<Rightarrow> Inr (GotReceipt r)
           | Inr None \<Rightarrow>
          (case po_last_block p of
             Inl e \<Rightarrow> Inr (WaitFailed (ErrText e))
           | Inr bn \<Rightarrow>
               if start_block + wait_blocks + 2 < bn
               then Inr (WaitFailed TxNotIncludedInNextBlocks)
               else wait_receipt our_hash send_mempool_at start_block wait_blocks (sent \<or> send) ps)))"

text \<open>Sending the bundle for every slot of the handover window, up to the first failure.\<close>

definition bundles_sent :: "'c attempt \<Rightarrow> u64 \<Rightarrow> u64 \<Rightarrow> bool" where
  "bundles_sent a start_block window =
     list_all (\<lambda>slot_offset. send_bundle_request (at_bundle a (start_block + 1 + slot_offset)) = Inr ())
       (block_range 0 window)"

definition send_mempool_at :: "('p, 'q, 'c) proposer_env \<Rightarrow> 'c attempt \<Rightarrow> u64 \<Rightarrow> instant" where
  "send_mempool_at pv a start_block =
     (if pc_builder (pv_config pv) \<and> bundles_sent a start_block (pv_window pv)
      then at_now a +
             from_secs 12 * unat (ucast (pc_builder_wait_receipt_blocks (pv_config pv)) :: u32)
      else at_now a)"

definition build_tx ::
    "('p, 'q, 'c) proposer_env \<Rightarrow> 'c attempt \<Rightarrow> 'c \<Rightarrow> blob_sidecar option \<Rightarrow> fee_caps \<Rightarrow> u64 \<Rightarrow>
     b256 eyre" where
  "build_tx pv a input sidecar caps nonce =
     (case sidecar of
        Some sc \<Rightarrow>
          bindR (build_eip4844 (pv_client pv) (at_fees a) (at_utc a) input nonce sc caps
                   (pc_min_priority_fee (pv_config pv))) (\<lambda>tx.
            case pc_osaka_fork_info (pv_config pv) of
              Some info \<Rightarrow> if is_osaka_active (at_utc a) info then at_encode_7594 a tx
                          else Inr (at_encode a tx)
            | None \<Rightarrow> Inr (at_encode a tx))
      | None \<Rightarrow>
          bindR (build_eip1559 (pv_client pv) (at_fees a) input nonce caps
                   (pc_min_priority_fee (pv_config pv))) (\<lambda>tx. Inr (at_encode a tx)))"

text \<open>The answer and the new \<open>last_used_nonce\<close>.\<close>

definition propose_one_batch ::
    "('p, 'q, 'c) proposer_env \<Rightarrow> 'c attempt \<Rightarrow> 'c \<Rightarrow> blob_sidecar option \<Rightarrow> fee_caps \<Rightarrow> u64 \<Rightarrow>
     (attempt_result \<times> u64) run" where
  "propose_one_batch pv a input sidecar caps last_used_nonce =
     (case at_nonce a of
        Inl e \<Rightarrow> Inr (Failed (ErrText e), last_used_nonce)
      | Inr nonce \<Rightarrow>
          if last_used_nonce < nonce then Inr (Landed, last_used_nonce)
          else case build_tx pv a input sidecar caps nonce of
                 Inl e \<Rightarrow> Inr (Failed (ErrText e), nonce)
               | Inr our_hash \<Rightarrow>
              (case at_start_block a of
                 Inl e \<Rightarrow> Inr (Failed (ErrText e), nonce)
               | Inr start_block \<Rightarrow>
                  bindR (wait_receipt our_hash (send_mempool_at pv a start_block) start_block
                           (pc_builder_wait_receipt_blocks (pv_config pv)) False (at_polls a))
                    (\<lambda>w. case w of
                       WaitMore \<Rightarrow> Inr (Waiting, nonce)
                     | WaitFailed e \<Rightarrow> Inr (Failed e, nonce)
                     | GotReceipt r \<Rightarrow>
                         if rp_status r then Inr (Landed, nonce)
                         else Inr (Failed (ErrText (''failed to propose block: '' @ rp_text r)), - 1))))"

subsection \<open>The retry loop\<close>

definition MAX_RETRIES :: nat where
  "MAX_RETRIES = 3"

record retry_state =
  rt_retries :: nat
  rt_caps :: fee_caps
  rt_last_used_nonce :: u64

definition retry_init :: retry_state where
  "retry_init =
     \<lparr>rt_retries = 0,
      rt_caps = \<lparr>fc_bump_fees = False, fc_tip_cap = None, fc_blob_fee_cap = None,
                 fc_gas_fee_cap = None\<rparr>,
      rt_last_used_nonce = - 1\<rparr>"

text \<open>What the loop does with an error: try again at once with other caps, stop, or count it.\<close>

datatype reaction = Again fee_caps | Stop | Count string

fun revert_reaction :: "fee_caps \<Rightarrow> revert_reason \<Rightarrow> reaction" where
  "revert_reaction caps (RevertTaikoL1 TimestampTooLarge) = Again caps"
| "revert_reaction caps (RevertTaikoL1 (OtherL1 e)) = Count (''unhandled TaikoInbox revert: '' @ e)"
| "revert_reaction caps (RevertRouter NotPreconferOrFallback) = Stop"
| "revert_reaction caps (RevertRouter (InvalidLastBlockId actual expected)) =
     (if expected < actual then Stop else Count ''invalid last block id'')"
| "revert_reaction caps (RevertRouter (OtherRouter e)) = Count (''unhandled PreconfRouter revert: '' @ e)"
| "revert_reaction caps (RevertWhitelist e) = Count (''unhandled PreconfWhitelist revert: '' @ e)"

fun fail_reaction :: "fee_caps \<Rightarrow> fail_reason \<Rightarrow> reaction" where
  "fail_reaction caps (UnderpricedTipCap sent queued) = Again (caps\<lparr>fc_tip_cap := Some (2 * queued)\<rparr>)"
| "fail_reaction caps (UnderpricedBlobFeeCap sent queued) =
     Again (caps\<lparr>fc_blob_fee_cap := Some (2 * queued)\<rparr>)"
| "fail_reaction caps (UnderpricedGasFeeCap sent queued) =
     Again (caps\<lparr>fc_gas_fee_cap := Some (2 * queued)\<rparr>)"
| "fail_reaction caps UnderpricedUnknown = Again caps"

fun react :: "revert_io \<Rightarrow> fee_caps \<Rightarrow> attempt_error \<Rightarrow> reaction" where
  "react io caps TxNotIncludedInNextBlocks = Again (caps\<lparr>fc_bump_fees := True\<rparr>)"
| "react io caps (ErrText e) =
     (case revert_reason_of io e of
        Some reason \<Rightarrow> revert_reaction caps reason
      | None \<Rightarrow> (case try_extract e of
                   Some reason \<Rightarrow> fail_reaction caps reason
                 | None \<Rightarrow> Count e))"

datatype progress = Settled | InProgress

fun retry_loop ::
    "('p, 'q, 'c) proposer_env \<Rightarrow> 'c \<Rightarrow> blob_sidecar option \<Rightarrow> 'c attempt list \<Rightarrow> retry_state \<Rightarrow>
     shared_flags \<Rightarrow> (progress \<times> shared_flags) run" where
  "retry_loop pv input sidecar [] rt sh = Inr (InProgress, sh)"
| "retry_loop pv input sidecar (a # as) rt sh =
     bindR (propose_one_batch pv a input sidecar (rt_caps rt) (rt_last_used_nonce rt)) (\<lambda>(result, nonce).
       (let rt = rt\<lparr>rt_last_used_nonce := nonce\<rparr> in
        case result of
          Landed \<Rightarrow> Inr (Settled, sh)
        | Waiting \<Rightarrow> Inr (InProgress, sh)
        | Failed err \<Rightarrow>
            (case react (pv_revert pv) (rt_caps rt) err of
               Again caps \<Rightarrow> retry_loop pv input sidecar as (rt\<lparr>rt_caps := caps\<rparr>) sh
             | Stop \<Rightarrow> Inr (Settled, sh)
             | Count e \<Rightarrow>
                 (let sh = set_propose_delayed sh; rt = rt\<lparr>rt_retries := rt_retries rt + 1\<rparr>
                  in if rt_retries rt = MAX_RETRIES
                     then Inl ''max retries reached to propose batch''
                     else retry_loop pv input sidecar as rt sh))))"

text \<open>\<open>propose_batch\<close>; a dry run returns at once.\<close>

definition propose_batch ::
    "('p, 'q, 'c) proposer_env \<Rightarrow> 'c attempt list \<Rightarrow> propose_batch_params \<Rightarrow> shared_flags \<Rightarrow>
     (progress \<times> shared_flags) run" where
  "propose_batch pv attempts request sh =
     (if pc_dry_run (pv_config pv) then Inr (Settled, sh)
      else bindR (prepare_batch pv request) (\<lambda>(input, sidecar).
           bindR (retry_loop pv input sidecar attempts retry_init sh) (\<lambda>(progress, sh).
             case progress of
               Settled \<Rightarrow> Inr (Settled, set_propose_ok (remove_pending sh))
             | InProgress \<Rightarrow> Inr (InProgress, sh))))"

subsection \<open>Requests\<close>

text \<open>The batches of a request, one after the other, each with its attempts; the next one starts only
  when the one before is settled.\<close>

fun propose_all ::
    "('p, 'q, 'c) proposer_env \<Rightarrow> (propose_batch_params \<times> 'c attempt list) list \<Rightarrow> shared_flags \<Rightarrow>
     (progress \<times> shared_flags) run" where
  "propose_all pv [] sh = Inr (Settled, sh)"
| "propose_all pv ((request, attempts) # rest) sh =
     bindR (propose_batch pv attempts request sh) (\<lambda>(progress, sh).
       case progress of
         Settled \<Rightarrow> propose_all pv rest sh
       | InProgress \<Rightarrow> Inr (InProgress, sh))"

text \<open>The groups of a resync: the pending counter grows by the batches of a group before they are
  proposed.  \<open>script\<close> gives the attempts of the batches in order.\<close>

fun propose_groups ::
    "('p, 'q, 'c) proposer_env \<Rightarrow> propose_batch_params list list \<Rightarrow> 'c attempt list list \<Rightarrow>
     shared_flags \<Rightarrow> (progress \<times> shared_flags) run" where
  "propose_groups pv [] script sh = Inr (Settled, sh)"
| "propose_groups pv (requests # groups) script sh =
     (let n = length requests;
          attempts = take n script @ replicate (n - length script) []
      in bindR (propose_all pv (zip requests attempts) (add_n_pending (len64 requests) sh))
           (\<lambda>(progress, sh).
         case progress of
           Settled \<Rightarrow> propose_groups pv groups (drop n script) sh
         | InProgress \<Rightarrow> Inr (InProgress, sh)))"

text \<open>The check after a resync without reorg, in the order of the block numbers: every block is fetched
  again; a different hash only raises an alert, a missing block fails the resync.\<close>

definition verify_proposed :: "(u64 \<Rightarrow> header option eyre) \<Rightarrow> (u64, block) btree \<Rightarrow> unit eyre run" where
  "verify_proposed fetch to_verify =
     bindE (map_eyre (\<lambda>(bn, b).
         bindE (ok_or ''missing proposed block'' (fetch bn)) (\<lambda>new_header.
           bindR (verify_and_log_block (blk_header b) new_header False) (\<lambda>_. okE ())))
       to_verify) (\<lambda>_. okE ())"

definition blocks_to_verify :: "(u64, block list) btree \<Rightarrow> (u64, block) btree" where
  "blocks_to_verify groups =
     fold (\<lambda>b. bt_insert (hd_number (blk_header b)) b) (concat (map snd groups)) []"

record 'c resync_try =
  rs_io :: resync_io
  rs_fetch :: "u64 \<Rightarrow> header option eyre"
  rs_script :: "'c attempt list list"

definition resync ::
    "('p, 'q, 'c) proposer_env \<Rightarrow> resync_env \<Rightarrow> 'c resync_try \<Rightarrow> u64 \<Rightarrow> u64 \<Rightarrow> shared_flags \<Rightarrow>
     (progress eyre \<times> shared_flags) run" where
  "resync pv env t origin end sh =
     bindR (resync_plan env (rs_io t) origin end) (\<lambda>plan.
       case plan of
         Inl e \<Rightarrow> Inr (Inl e, sh)
       | Inr (reorg, groups, requests) \<Rightarrow>
           bindR (propose_groups pv requests (rs_script t) sh) (\<lambda>(progress, sh).
             if progress = InProgress \<or> reorg then Inr (Inr progress, sh)
             else bindR (verify_proposed (rs_fetch t) (blocks_to_verify groups)) (\<lambda>v.
                    case v of Inl e \<Rightarrow> Inr (Inl e, sh) | Inr _ \<Rightarrow> Inr (Inr Settled, sh))))"

text \<open>\<open>run\<close>: a batch is proposed, a resync repeated until it does not fail.\<close>

fun resync_until_ok ::
    "('p, 'q, 'c) proposer_env \<Rightarrow> resync_env \<Rightarrow> 'c resync_try list \<Rightarrow> u64 \<Rightarrow> u64 \<Rightarrow> shared_flags \<Rightarrow>
     (progress \<times> shared_flags) run" where
  "resync_until_ok pv env [] origin end sh = Inr (InProgress, sh)"
| "resync_until_ok pv env (t # ts) origin end sh =
     bindR (resync pv env t origin end sh) (\<lambda>(r, sh).
       case r of Inl e \<Rightarrow> resync_until_ok pv env ts origin end sh | Inr progress \<Rightarrow> Inr (progress, sh))"

datatype 'c request_script = Attempts "'c attempt list" | Tries "'c resync_try list"

fun handle_request ::
    "('p, 'q, 'c) proposer_env \<Rightarrow> resync_env \<Rightarrow> proposal_request \<Rightarrow> 'c request_script \<Rightarrow> shared_flags \<Rightarrow>
     (progress \<times> shared_flags) run" where
  "handle_request pv env (Batch request) (Attempts attempts) sh = propose_batch pv attempts request sh"
| "handle_request pv env (Resync origin end) (Tries tries) sh =
     resync_until_ok pv env tries origin end sh"
| "handle_request pv env _ _ sh = Inr (InProgress, sh)"

fun run_requests ::
    "('p, 'q, 'c) proposer_env \<Rightarrow> resync_env \<Rightarrow> (proposal_request \<times> 'c request_script) list \<Rightarrow>
     shared_flags \<Rightarrow> (progress \<times> shared_flags) run" where
  "run_requests pv env [] sh = Inr (Settled, sh)"
| "run_requests pv env ((request, script) # rest) sh =
     bindR (handle_request pv env request script sh) (\<lambda>(progress, sh).
       case progress of
         Settled \<Rightarrow> run_requests pv env rest sh
       | InProgress \<Rightarrow> Inr (InProgress, sh))"

end
