(* ===== verification/Proposer_Props.thy ===== *)
theory Proposer_Props
  imports Proposer
begin

text \<open>
  What the proposer guarantees: blobs and calls from which the batch can be read back, requests
  that cover the blocks of a resync exactly, checks that agree with the contract's, fees that
  clear a rejection, and a retry loop that settles the books of pending batches.
\<close>

subsection \<open>Blobs\<close>


definition ex_kzg :: kzg where
  "ex_kzg = \<lparr>kzg_commitment = (\<lambda>_. Some []), kzg_proof = (\<lambda>_ _. Some [])\<rparr>"

definition ex_abi :: "(batch_params, bytes \<times> batch_params, (bytes \<times> batch_params) \<times> bytes \<times> u96) abi" where
  "ex_abi = \<lparr>abi_batch = id, abi_params = id, abi_call = id, abi_decode_batch = Inr,
     abi_decode_params = Inr, abi_decode_call = Inr\<rparr>"

definition ex_request :: propose_batch_params where
  "ex_request = propose_batch_params_default
     \<lparr>pb_anchor_block_id := 99, pb_start_block_num := 1, pb_end_block_num := 2,
      pb_block_params := replicate 2 \<lparr>bp_numTransactions = 10, bp_timeShift = 1, bp_signalSlots = []\<rparr>\<rparr>"

lemma ex_kzg_total: "kzg_total ex_kzg"
  by (simp add: kzg_total_def ex_kzg_def)




subsection \<open>The call\<close>

lemma ucast_96 [simp]:
  "unat (ucast (w :: u64) :: u96) = unat w" "ucast (ucast (w :: u64) :: u96) = w"
proof -
  show eq: "unat (ucast (w :: u64) :: u96) = unat w"
    using unat_u64_less[of w] by (simp add: unsigned_ucast_eq take_bit_nat_eq_self)
  have "unat (ucast (ucast (w :: u64) :: u96) :: u64) = unat w"
    using unat_u64_less[of w]
    by (simp add: unsigned_ucast_eq take_bit_nat_eq_self take_bit_word_eq_self)
  then show "ucast (ucast (w :: u64) :: u96) = w" by (rule unsigned_word_eqI)
qed

text \<open>C27: Both kinds of proposal can be read back: decoding the call gives the last block, the anchor
  and, counting back the blocks of the batch, the first block, provided that the ABI decoders
  invert the encoders.\<close>

theorem proposal_decodes:
  assumes "abi_inverts abi"
  shows "decode_propose_call abi (propose_batch_calldata abi request meta proposer compressed) =
      okE (pb_end_block_num request - len64 (pb_block_params request) + 1, pb_end_block_num request,
           pb_anchor_block_id request) \<and>
    (propose_batch_blobs abi k max_blobs request meta proposer compressed = Inr (input, sc) \<longrightarrow>
       decode_propose_call abi input =
       okE (pb_end_block_num request - len64 (pb_block_params request) + 1, pb_end_block_num request,
            pb_anchor_block_id request))"
  using assms unat_u64_less
  by (auto simp: decode_propose_call_def propose_batch_calldata_def propose_batch_blobs_def
      abi_inverts_def bindR_eq_Inr Let_def split: if_splits)

theorem proposal_decodes_witness:
  "decode_propose_call ex_abi (propose_batch_calldata ex_abi ex_request 0 0 []) = okE (1, 2, 99)"
proof -
  have "abi_inverts ex_abi" by (simp add: abi_inverts_def ex_abi_def)
  from proposal_decodes[OF this, of ex_request] show ?thesis
    by (simp add: ex_request_def propose_batch_params_default_def len64_def)
qed

subsection \<open>Requests from blocks\<close>

text \<open>C7: The requests made from blocks cover them: each block is in exactly one request, in order;
  a request carries its blocks' numbers, transactions without the anchors, transaction counts and
  time shifts, stays within the maximal number of blocks, and exceeds the target size only if it
  has a single block.\<close>

theorem requests_cover_blocks:
  assumes "blocks \<noteq> []"
    and "re = request_env_of enc compress anchor (hd blocks) tso sho max_blocks target"
  shows "\<exists>rs segs. request_from_blocks enc compress anchor blocks tso sho max_blocks target = Inr rs \<and>
    concat segs = blocks \<and> list_all2 (describes re) rs segs \<and> (\<forall>r \<in> set rs. within_limits re r)"
  using request_from_blocks_ok[OF assms] by blast

definition ex_chain_block :: "u64 \<Rightarrow> u64 \<Rightarrow> block" where
  "ex_chain_block n ts =
     \<lparr>blk_header = \<lparr>hd_number = n, hd_hash = ucast n, hd_parent_hash = 0, hd_state_root = 0,
        hd_beneficiary = 9, hd_timestamp = ts, hd_gas_used = 0, hd_gas_limit = 0\<rparr>,
      blk_full = True,
      blk_txs = [(GOLDEN_TOUCH_ADDRESS, \<lparr>tx_nonce = 1, tx_max_fee_per_gas = 0,
        tx_priority_fee_or_price = 0, tx_hash = 0, tx_input = [ucast (n div 10)]\<rparr>)]\<rparr>"

theorem requests_cover_blocks_witness:
  "\<exists>rs segs. request_from_blocks (\<lambda>_. []) (\<lambda>_. []) 50 [ex_chain_block 1 100, ex_chain_block 2 102] None None 768 9
      = Inr rs \<and> concat segs = [ex_chain_block 1 100, ex_chain_block 2 102] \<and> length rs = length segs"
proof -
  have "[ex_chain_block 1 100, ex_chain_block 2 102] \<noteq> []" by simp
  from requests_cover_blocks[OF this refl, of "\<lambda>_. []" "\<lambda>_. []" 50 None None 768 9] show ?thesis
    by (auto dest: list_all2_lengthD)
qed

text \<open>A first block that is larger than the target size (or a limit of no blocks) makes the first
  request an empty one: it has no blocks and no transactions.\<close>

theorem oversize_first_block_empty_request:
  assumes "blocks \<noteq> []"
    and "oversize (request_env_of enc compress anchor (hd blocks) tso sho max_blocks target) (hd blocks)"
  shows "\<exists>r rs. request_from_blocks enc compress anchor blocks tso sho max_blocks target = Inr (r # rs) \<and>
    pb_block_params r = [] \<and> pb_all_tx_list r = []"
proof -
  obtain rs segs where rs: "request_from_blocks enc compress anchor blocks tso sho max_blocks target = Inr rs"
    "list_all2 (describes (request_env_of enc compress anchor (hd blocks) tso sho max_blocks target)) rs segs"
    "[] \<in> set segs" "[] \<notin> set (tl segs)"
    using request_from_blocks_ok[OF assms(1) refl, of enc compress anchor tso sho max_blocks target] assms(2)
    by blast
  from rs(3,4) obtain rest where "segs = [] # rest" by (cases segs) auto
  with rs(1,2) show ?thesis by (auto simp: list_all2_Cons2 dest: describes_Nil)
qed

theorem oversize_first_block_empty_request_witness:
  "\<exists>r rs. request_from_blocks (\<lambda>_. []) (\<lambda>_. replicate 10 0) 50 [ex_chain_block 1 100] None None 768 9 =
     Inr (r # rs) \<and> pb_block_params r = []"
proof -
  have "oversize (request_env_of (\<lambda>_. []) (\<lambda>_. replicate 10 0) 50 (hd [ex_chain_block 1 100]) None None 768 9)
      (hd [ex_chain_block 1 100])"
    by (simp add: oversize_def request_env_of_def len64_def)
  from oversize_first_block_empty_request[OF _ this] show ?thesis by blast
qed

subsection \<open>The contract's checks\<close>

text \<open>C25: Without overflow \<open>validate_batch_params\<close> accepts a batch exactly if it has blocks, not too
  many, its anchor is at most the allowed distance (less a margin of two) below the landing block and
  not below the parent's, and its timestamps increase from the parent's to at most the landing
  time, starting at most the allowed time before it.\<close>

theorem validate_batch_params_iff:
  fixes off :: nat
  assumes "2 \<le> cp_max_anchor_height_offset cp" "length blocks < 2 ^ 64"
    and "off = unat (cp_max_anchor_height_offset cp) - 2" "unat anchor + off < 2 ^ 64"
    and "unat (hd_timestamp (blk_header (hd blocks))) + off * 12 < 2 ^ 64"
  shows "validate_batch_params parent_anchor parent_ts l1_block l1_ts anchor blocks cp = Inr () \<longleftrightarrow>
    blocks \<noteq> [] \<and> length blocks \<le> unat (cp_max_blocks_per_batch cp) \<and>
    unat l1_block \<le> unat anchor + off \<and> anchor < l1_block \<and> parent_anchor \<le> anchor \<and>
    hd_timestamp (blk_header (last blocks)) \<le> l1_ts \<and>
    hd_timestamp (blk_header (hd blocks)) \<le> hd_timestamp (blk_header (last blocks)) \<and>
    unat l1_ts \<le> unat (hd_timestamp (blk_header (hd blocks))) + off * 12 \<and>
    parent_ts \<le> hd_timestamp (blk_header (hd blocks))"
proof -
  let ?first = "hd_timestamp (blk_header (hd blocks))" and ?last = "hd_timestamp (blk_header (last blocks))"
  have so: "unat (safe_anchor_height_offset cp) = off"
    using assms(1,3) by (simp add: safe_anchor_height_offset_def unat_sub)
  have len: "len64 blocks \<le> cp_max_blocks_per_batch cp \<longleftrightarrow> length blocks \<le> unat (cp_max_blocks_per_batch cp)"
    using assms(2) by (simp add: word_le_nat_alt unat_len64)
  have height: "l1_block \<le> anchor + safe_anchor_height_offset cp \<longleftrightarrow> unat l1_block \<le> unat anchor + off"
    using assms(4) so by (simp add: word_le_nat_alt unat_plus_exact)
  have "unat (safe_anchor_height_offset cp * 12) = off * 12"
    using assms(5) so by (subst unat_times_exact) simp_all
  then have time: "l1_ts \<le> ?first + safe_anchor_height_offset cp * 12 \<longleftrightarrow> unat l1_ts \<le> unat ?first + off * 12"
    using assms(5) by (simp add: word_le_nat_alt unat_plus_exact)
  have "?first \<le> ?last \<Longrightarrow> ?last - ?first \<le> ?last" by (simp add: word_le_nat_alt unat_sub)
  then show ?thesis
    by (auto simp: validate_batch_params_def bindR_eq_Inr len height time Let_def)
qed

definition ex_chain_params :: taiko_chain_params where
  "ex_chain_params = taiko_chain_params_new 167
     \<lparr>bf_adjustment_quotient = 8, bf_sharing_pctg = 75, bf_gas_issuance_per_second = 5000000,
      bf_min_gas_excess = 1340000000, bf_max_gas_issuance_per_block = 600000000\<rparr>
     64 240000000 0 0 768"

theorem validate_batch_params_iff_witness:
  "validate_batch_params 90 50 101 200 99 [ex_chain_block 1 100] ex_chain_params = Inr () \<and>
   validate_batch_params 90 50 101 100000 99 [ex_chain_block 1 100] ex_chain_params \<noteq> Inr ()"
proof -
  have pre: "2 \<le> cp_max_anchor_height_offset ex_chain_params" "length [ex_chain_block 1 100] < 2 ^ 64"
    "(62 :: nat) = unat (cp_max_anchor_height_offset ex_chain_params) - 2" "unat (99 :: u64) + 62 < 2 ^ 64"
    "unat (hd_timestamp (blk_header (hd [ex_chain_block 1 100]))) + 62 * 12 < 2 ^ 64"
    by (simp_all add: ex_chain_params_def taiko_chain_params_new_def ex_chain_block_def)
  show ?thesis
    using validate_batch_params_iff[OF pre, of 90 50 101 200]
      validate_batch_params_iff[OF pre, of 90 50 101 100000]
    by (simp add: ex_chain_params_def taiko_chain_params_new_def ex_chain_block_def)
qed

subsection \<open>Resync\<close>

text \<open>C8: A resync proposes every block above the origin: the blocks \<open>origin + 1\<close> to \<open>end\<close> are
  fetched and grouped by their anchor, keeping their order; without a reorg the requests of each
  group cover it with its anchor and timestamps unchanged; with one all groups, in the order of
  their anchors, are covered by requests with a new anchor, one timestamp and no time shifts.\<close>

theorem resync_plan_covers:
  assumes "resync_plan env io origin end = okE (reorg, groups, requests)"
  shows "\<exists>blocks.
    fetch_n_blocks io (origin + 1) end = okE blocks \<and> bt_wf groups \<and>
    mset (concat (map snd groups)) = mset blocks \<and>
    (\<forall>(a, bs) \<in> set groups. bs = filter (\<lambda>b. anchor_id_of io b = okE a) blocks \<and> bs \<noteq> []) \<and>
    (if reorg
     then \<exists>l1 slot rs. requests = [rs] \<and> current_slot (rio_utc io) (ry_beacon env) = Inr slot \<and>
       covers (group_env env l1 (concat (map snd groups))
                (Some (timestamp_of_slot (ry_beacon env) (slot - 1))) (Some 0))
         rs (concat (map snd groups))
     else list_all2 (\<lambda>(a, bs) rs. covers (group_env env a bs None None) rs bs) groups requests)"
  by (rule resync_plan_parts[OF assms])

definition ex_resync_env :: resync_env where
  "ex_resync_env =
     \<lparr>ry_config = \<lparr>pc_coinbase = 9, pc_dry_run = False, pc_batch_target_size = 100,
        pc_min_priority_fee = 0, pc_builder = False, pc_builder_wait_receipt_blocks = 5,
        pc_osaka_fork_info = None\<rparr>,
      ry_chain = ex_chain_params, ry_beacon = beacon_new 32 0 12, ry_safe_l1_lag = 4,
      ry_enc = (\<lambda>_. []), ry_compress = (\<lambda>_. [])\<rparr>"

definition ex_resync_io :: resync_io where
  "ex_resync_io =
     \<lparr>rio_pending = Inr [], rio_l2_block = (\<lambda>n. Inr (Some (ex_chain_block n (100 + n)))),
      rio_l1_head = Inr (Some 10), rio_l1_block = (\<lambda>n. Inr (Some n)), rio_utc = 150,
      rio_decode_anchor = (\<lambda>bs. Inr (ucast (hd bs)))\<rparr>"

theorem resync_plan_covers_witness:
  "\<exists>reorg groups requests blocks.
     resync_plan ex_resync_env ex_resync_io 8 11 = okE (reorg, groups, requests) \<and>
     fetch_n_blocks ex_resync_io (8 + 1) 11 = okE blocks \<and> mset (concat (map snd groups)) = mset blocks"
proof -
  have "block_range 9 11 = [9, 10, 11]" by (simp add: block_range_def upt_rec)
  then obtain reorg groups requests where
    plan: "resync_plan ex_resync_env ex_resync_io 8 11 = okE (reorg, groups, requests)"
    by (simp add: resync_plan_def ex_resync_io_def ex_resync_env_def fetch_n_blocks_def ok_or_def
        anchor_id_of_def ex_chain_block_def as_transactions_def group_push_def bt_get_def
        check_group_def already_pending_def current_slot_def beacon_new_def div_u64_def
        timestamp_of_slot_def validate_batch_params_def ex_chain_params_def
        taiko_chain_params_new_def safe_anchor_height_offset_def len64_def group_requests_def
        reorged_requests_def request_from_blocks_def saturating_sub_def Let_def split_def) blast
  with resync_plan_covers[OF plan] show ?thesis by blast
qed

end
