(* ===== verification/Retry_Props.thy ===== *)
theory Retry_Props
  imports Proposer_Props
begin

text \<open>
  How the proposer lands a batch: the wait for the receipt ends, an error is counted, retried or
  final, fees rise past what a rejection asked for, and a settled batch leaves the shared flags as
  they should be.
\<close>

subsection \<open>An environment\<close>

definition ex_fee_caps :: fee_caps where
  "ex_fee_caps = rt_caps retry_init"

definition ex_revert_io :: revert_io where
  "ex_revert_io =
     \<lparr>rv_hex_decode = (\<lambda>_. None), rv_taiko_l1 = (\<lambda>_. None), rv_whitelist = (\<lambda>_. None),
      rv_router = (\<lambda>_. None)\<rparr>"

definition ex_proposer_env ::
    "(batch_params, bytes \<times> batch_params, (bytes \<times> batch_params) \<times> bytes \<times> u96) proposer_env" where
  "ex_proposer_env =
     \<lparr>pv_config = ry_config ex_resync_env,
      pv_client = \<lparr>l1_chain_id = 1, l1_router_address = 5, l1_osaka_fork_info = None\<rparr>,
      pv_address = 7, pv_abi = ex_abi, pv_kzg = ex_kzg, pv_max_blobs = 6, pv_compress = (\<lambda>_. [1, 2, 3]),
      pv_revert = ex_revert_io, pv_window = 4\<rparr>"

definition ex_attempt :: "poll list \<Rightarrow> 'c attempt" where
  "ex_attempt polls =
     \<lparr>at_nonce = Inr 5,
      at_fees = \<lparr>fi_gas = Inr 21000, fi_fees = Inr (7, 8), fi_blob_fee = (\<lambda>_. Inr (Some 1)), fi_sign = Inr ()\<rparr>,
      at_utc = 100, at_encode = (\<lambda>_. 77), at_encode_7594 = (\<lambda>_. Inr 78), at_start_block = Inr 1000,
      at_bundle = (\<lambda>_. Inl ''no builder''), at_now = 0, at_polls = polls\<rparr>"

definition ex_landing :: "'c attempt" where
  "ex_landing = ex_attempt
     [\<lparr>po_now = 1, po_send = Inr 77, po_receipt = Inr None, po_last_block = Inr 1001\<rparr>,
      \<lparr>po_now = 4, po_send = Inl ''sent already'',
       po_receipt = Inr (Some \<lparr>rp_status = True, rp_block_number = Some 1001, rp_text = []\<rparr>),
       po_last_block = Inr 1001\<rparr>]"

definition ex_failing :: "'c attempt" where
  "ex_failing = ex_attempt
     [\<lparr>po_now = 1, po_send = Inl ''timeout'', po_receipt = Inr None, po_last_block = Inr 1001\<rparr>]"

definition ex_dropped :: "'c attempt" where
  "ex_dropped = ex_attempt
     [\<lparr>po_now = 1, po_send = Inr 77, po_receipt = Inr None, po_last_block = Inr 1100\<rparr>]"

lemmas ex_attempt_defs =
  propose_one_batch_def build_tx_def build_eip4844_def Let_def split_def
  send_mempool_at_def ex_attempt_def ex_proposer_env_def ex_resync_env_def

subsection \<open>Waiting for the receipt\<close>

lemma wait_receipt_more:
  "wait_receipt our at0 start wb sent ps = Inr WaitMore \<Longrightarrow> p \<in> set ps \<Longrightarrow>
   po_receipt p = Inr None \<and> (\<exists>bn. po_last_block p = Inr bn \<and> bn \<le> start + wb + 2)"
  by (induction ps arbitrary: sent)
    (auto simp: Let_def not_less split: if_splits sum.splits option.splits)

lemma wait_receipt_got:
  "wait_receipt our at0 start wb sent ps = Inr (GotReceipt r) \<Longrightarrow> \<exists>p \<in> set ps. po_receipt p = Inr (Some r)"
  by (induction ps arbitrary: sent) (auto simp: Let_def split: if_splits sum.splits option.splits)

lemma wait_receipt_not_included:
  "wait_receipt our at0 start wb sent ps = Inr (WaitFailed TxNotIncludedInNextBlocks) \<Longrightarrow>
   \<exists>p \<in> set ps. \<exists>bn. po_last_block p = Inr bn \<and> start + wb + 2 < bn"
  by (induction ps arbitrary: sent) (auto simp: Let_def split: if_splits sum.splits option.splits)

lemma wait_receipt_panic:
  "wait_receipt our at0 start wb sent ps = Inl e \<Longrightarrow>
   e = ''assertion `left == right` failed'' \<and> \<not> sent \<and>
   (\<exists>p \<in> set ps. \<exists>hash. po_send p = Inr hash \<and> hash \<noteq> our \<and> at0 \<le> po_now p)"
proof (induction ps arbitrary: sent)
  case (Cons p ps)
  then show ?case
    using Cons.IH[of "sent \<or> at0 \<le> po_now p"]
    by (auto simp: Let_def split: if_splits sum.splits option.splits)
qed simp

lemma wait_receipt_err:
  "wait_receipt our at0 start wb sent ps = Inr (WaitFailed (ErrText e)) \<Longrightarrow>
   \<exists>p \<in> set ps. po_send p = Inl e \<or> po_receipt p = Inl e \<or> po_last_block p = Inl e"
  by (induction ps arbitrary: sent) (auto simp: Let_def split: if_splits sum.splits option.splits)

text \<open>C35: The wait for a receipt ends: as soon as a poll sees an L1 block more than \<open>wait_blocks + 2\<close>
  above the first one, the loop is over.  It ends with a receipt only if the node returned it, with
  an error only if the node did, and panics only if the node answers the one transaction that is sent, not
  before its time, with another hash.\<close>

theorem wait_receipt_ends:
  assumes "p \<in> set polls" "po_last_block p = Inr bn" "start_block + wait_blocks + 2 < bn"
  shows "case wait_receipt our_hash mempool_at start_block wait_blocks False polls of
      Inl _ \<Rightarrow> \<exists>q \<in> set polls. \<exists>hash. po_send q = Inr hash \<and> hash \<noteq> our_hash \<and> mempool_at \<le> po_now q
    | Inr WaitMore \<Rightarrow> False
    | Inr (GotReceipt r) \<Rightarrow> \<exists>q \<in> set polls. po_receipt q = Inr (Some r)
    | Inr (WaitFailed TxNotIncludedInNextBlocks) \<Rightarrow> True
    | Inr (WaitFailed (ErrText e)) \<Rightarrow>
        \<exists>q \<in> set polls. po_send q = Inl e \<or> po_receipt q = Inl e \<or> po_last_block q = Inl e"
proof (cases "wait_receipt our_hash mempool_at start_block wait_blocks False polls")
  case (Inl e)
  from wait_receipt_panic[OF this] show ?thesis by (simp add: Inl)
next
  case (Inr w)
  show ?thesis
  proof (cases w)
    case (WaitFailed e)
    with Inr show ?thesis by (cases e) (auto dest: wait_receipt_err)
  next
    case WaitMore
    with Inr wait_receipt_more[of our_hash mempool_at start_block wait_blocks False polls p] assms
    show ?thesis by auto
  qed (use Inr in \<open>auto dest: wait_receipt_got\<close>)
qed

theorem wait_receipt_ends_witness:
  "wait_receipt 77 0 1000 5 False (at_polls (ex_dropped :: unit attempt)) \<noteq> Inr WaitMore"
proof -
  let ?p = "\<lparr>po_now = 1, po_send = Inr 77, po_receipt = Inr None, po_last_block = Inr 1100\<rparr>"
  have "?p \<in> set (at_polls (ex_dropped :: unit attempt))" by (simp add: ex_dropped_def ex_attempt_def)
  from wait_receipt_ends[OF this, of 1100 1000 5 77 0] show ?thesis by auto
qed

subsection \<open>Fees after a rejection\<close>

lemma unat_with_buffer:
  assumes "unat x * 140 < 2 ^ 128"
  shows "unat (with_buffer x) = unat x * 140 div 100"
  using assms by (simp add: with_buffer_def BUFFER_PERCENTAGE_def unat_div unat_times_exact)

text \<open>A cap learned from a rejection, doubled and buffered, stays above twice the queued one.\<close>

lemma cap_cleared:
  fixes queued :: u128
  assumes "queued \<le> 2 ^ 119"
  shows "unat (2 * queued) = 2 * unat queued"
    "unat (with_buffer (2 * queued) + 1) = 2 * unat queued * 140 div 100 + 1"
    "unat (with_buffer (2 * queued) * 2 + 2) = 2 * (2 * unat queued * 140 div 100) + 2"
    "unat (2 * queued + 1) = 2 * unat queued + 1"
    "unat (4 * queued + 2) = 4 * unat queued + 2"
proof -
  have q: "unat queued \<le> 2 ^ 119" using assms by (simp add: word_le_nat_alt)
  show two: "unat (2 * queued) = 2 * unat queued" using q by (subst unat_times_exact) simp_all
  have b: "unat (with_buffer (2 * queued)) = 2 * unat queued * 140 div 100"
    using q two by (subst unat_with_buffer) simp_all
  have b2: "unat (with_buffer (2 * queued) * 2) = 2 * (2 * unat queued * 140 div 100)"
    using q b by (subst unat_times_exact) simp_all
  have four: "unat (4 * queued) = 4 * unat queued" using q by (subst unat_times_exact) simp_all
  show "unat (with_buffer (2 * queued) + 1) = 2 * unat queued * 140 div 100 + 1"
    using q b by (subst unat_plus_exact) simp_all
  show "unat (with_buffer (2 * queued) * 2 + 2) = 2 * (2 * unat queued * 140 div 100) + 2"
    using q b2 by (subst unat_plus_exact) simp_all
  show "unat (2 * queued + 1) = 2 * unat queued + 1"
    using q two by (subst unat_plus_exact) simp_all
  show "unat (4 * queued + 2) = 4 * unat queued + 2"
    using q four by (subst unat_plus_exact) simp_all
qed

lemma geth_text_no_revert:
  assumes "quote \<notin> set name"
  shows "revert_reason_of io (geth_text name sent queued) = None"
proof -
  have "quote \<notin> set (geth_text name sent queued)"
    using assms not_digit_decimal[of quote]
    by (auto simp: geth_text_def quote_def is_digit_def)
  moreover have "quote \<in> set (a @ MARKER @ b)" for a b by (simp add: MARKER_def)
  ultimately have "find_str MARKER (geth_text name sent queued) = None"
    by (metis find_str_Some option.exhaust surj_pair)
  then show ?thesis by (simp add: revert_reason_of_def extract_revert_reason_def)
qed

lemma react_geth:
  "react io caps (ErrText (geth_text ''new tx gas tip cap '' sent queued)) = Again (caps\<lparr>fc_tip_cap := Some (2 * queued)\<rparr>)"
  "react io caps (ErrText (geth_text ''new tx blob gas fee cap '' sent queued)) = Again (caps\<lparr>fc_blob_fee_cap := Some (2 * queued)\<rparr>)"
  "react io caps (ErrText (geth_text ''new tx gas fee cap '' sent queued)) = Again (caps\<lparr>fc_gas_fee_cap := Some (2 * queued)\<rparr>)"
  by (subst react.simps, subst geth_text_no_revert; simp add: geth_text_extracts quote_def)+



text \<open>The priority fee can pass the maximal fee: after a rejected tip the next transaction raises the
  priority fee alone, so with an estimated fee and a minimum up to the queued tip it is above the
  transaction's maximal fee, which no node accepts.\<close>

theorem tip_above_fee_cap:
  fixes queued :: u128
  assumes "queued \<le> 2 ^ 119" "fc_gas_fee_cap caps = None"
    and "react io caps (ErrText (geth_text ''new tx gas tip cap '' sent queued)) = Again caps'"
    and "max_fee \<le> queued" "min_priority_fee \<le> queued"
  shows "fst (gas_fees caps' min_priority_fee (max_fee, tip)) < snd (gas_fees caps' min_priority_fee (max_fee, tip))"
proof -
  have caps': "caps' = caps\<lparr>fc_tip_cap := Some (2 * queued)\<rparr>" using assms(3) unfolding react_geth by simp
  have le: "unat max_fee \<le> unat queued" "unat min_priority_fee \<le> unat queued" "unat queued \<le> 2 ^ 119"
    using assms by (simp_all add: word_le_nat_alt)
  then have buf: "unat (with_buffer max_fee) = unat max_fee * 140 div 100" by (subst unat_with_buffer) simp_all
  then have "unat (with_buffer max_fee * 2) = 2 * (unat max_fee * 140 div 100)"
    using le by (subst unat_times_exact) simp_all
  then show ?thesis
    using le buf assms(2)
    by (auto simp: caps' gas_fees_def Let_def max_def word_le_nat_alt word_less_nat_alt cap_cleared[OF assms(1)])
qed

theorem tip_above_fee_cap_witness:
  "\<exists>caps'. react ex_revert_io ex_fee_caps (ErrText (geth_text ''new tx gas tip cap '' 5 1000)) = Again caps' \<and>
     fst (gas_fees caps' 0 (900, 800)) < snd (gas_fees caps' 0 (900, 800))"
proof -
  have "(1000 :: u128) \<le> 2 ^ 119" by (simp add: word_le_nat_alt)
  from tip_above_fee_cap[OF this _ react_geth(1)[of ex_revert_io ex_fee_caps 5 1000], of 900 0 800] show ?thesis
    unfolding react_geth by (simp add: ex_fee_caps_def retry_init_def)
qed

subsection \<open>The retry loop\<close>

lemma settle_no_panic:
  "bindR m (\<lambda>w. case w of WaitMore \<Rightarrow> Inr x | WaitFailed e \<Rightarrow> Inr (y e)
     | GotReceipt r \<Rightarrow> if q r then Inr z else Inr (u r)) = Inl p \<longleftrightarrow> m = Inl p"
  by (cases m) (auto split: waited.splits)

lemma propose_one_panic:
  "propose_one_batch pv a input sidecar caps n = Inl e \<Longrightarrow> e = ''assertion `left == right` failed''"
  by (auto simp: propose_one_batch_def settle_no_panic dest!: wait_receipt_panic
      split: sum.splits if_splits)

lemma retry_loop_outcome:
  "(\<forall>p. retry_loop pv input sidecar attempts rt sh = Inl p \<longrightarrow>
      p \<in> {''max retries reached to propose batch'', ''assertion `left == right` failed''}) \<and>
   (\<forall>r sh'. retry_loop pv input sidecar attempts rt sh = Inr (r, sh') \<longrightarrow>
      (\<exists>b. sh' = sh\<lparr>sh_propose_delayed := b\<rparr>))"
proof (induction attempts arbitrary: rt sh)
  case Nil
  show ?case by (auto intro: exI[of _ "sh_propose_delayed sh"])
next
  case (Cons a as)
  have keep: "\<exists>b. sh = sh\<lparr>sh_propose_delayed := b\<rparr>"
    by (rule exI[of _ "sh_propose_delayed sh"]) simp
  show ?case
  proof (cases "propose_one_batch pv a input sidecar (rt_caps rt) (rt_last_used_nonce rt)")
    case (Inl e)
    then show ?thesis using propose_one_panic[OF Inl] by simp
  next
    case (Inr b)
    obtain result nonce where b: "b = (result, nonce)" by (cases b)
    show ?thesis
    proof (cases result)
      case (Failed err)
      show ?thesis
      proof (cases "react (pv_revert pv) (rt_caps rt) err")
        case (Again caps)
        with Inr b Failed Cons.IH show ?thesis by simp
      next
        case (Count e)
        with Inr b Failed Cons.IH[of "rt\<lparr>rt_last_used_nonce := nonce, rt_retries := rt_retries rt + 1\<rparr>" "set_propose_delayed sh"]
        show ?thesis by (auto simp: Let_def set_propose_delayed_def)
      qed (use Inr b Failed keep in auto)
    qed (use Inr b keep in auto)
  qed
qed


lemma prepare_batch_ok:
  assumes "kzg_total (pv_kzg pv)"
    and "length (pv_compress pv (pb_all_tx_list request)) div MAX_BLOB_DATA_SIZE \<le> pv_max_blobs pv"
  shows "\<exists>input sc. prepare_batch pv request = Inr (input, Some sc)"
proof -
  obtain blobs where "map_run encode_blob (chunks MAX_BLOB_DATA_SIZE (pv_compress pv (pb_all_tx_list request))) = Inr blobs"
    using blobs_of_chunks by blast
  moreover obtain sc where "blobs_to_sidecar (pv_kzg pv) blobs = Inr sc"
    using sidecar_total[OF assms(1)] by blast
  ultimately show ?thesis
    using assms(2) by (simp add: prepare_batch_def should_use_blobs_def propose_batch_blobs_def Let_def)
qed



definition lands_always ::
    "('p, 'q, 'c) proposer_env \<Rightarrow> 'c \<Rightarrow> blob_sidecar option \<Rightarrow> 'c attempt \<Rightarrow> bool" where
  "lands_always pv input sidecar a \<longleftrightarrow>
     (\<forall>caps n. \<exists>n'. propose_one_batch pv a input sidecar caps n = Inr (Landed, n'))"

definition fails_always ::
    "('p, 'q, 'c) proposer_env \<Rightarrow> 'c \<Rightarrow> blob_sidecar option \<Rightarrow> u64 \<Rightarrow> bool \<Rightarrow> 'c attempt \<Rightarrow> bool" where
  "fails_always pv input sidecar nonce counted a \<longleftrightarrow>
     (\<forall>caps n. nonce \<le> n \<longrightarrow> (\<exists>err n'. nonce \<le> n' \<and>
        propose_one_batch pv a input sidecar caps n = Inr (Failed err, n') \<and>
        (if counted then \<exists>e. react (pv_revert pv) caps err = Count e
         else \<exists>caps'. react (pv_revert pv) caps err = Again caps')))"

lemma retry_loop_lands:
  assumes "lands_always pv input sidecar a"
    and "list_all2 (fails_always pv input sidecar nonce) counted fails"
    and "rt_retries rt + length (filter id counted) < MAX_RETRIES" "nonce \<le> rt_last_used_nonce rt"
  shows "\<exists>b. retry_loop pv input sidecar (fails @ a # rest) rt sh = Inr (Settled, sh\<lparr>sh_propose_delayed := b\<rparr>)"
  using assms(2-4)
proof (induction counted fails arbitrary: rt sh rule: list_all2_induct)
  case Nil
  obtain n' where "propose_one_batch pv a input sidecar (rt_caps rt) (rt_last_used_nonce rt) = Inr (Landed, n')"
    using assms(1) unfolding lands_always_def by blast
  then show ?case by (auto intro: exI[of _ "sh_propose_delayed sh"])
next
  case (Cons c counted f fails)
  obtain err n' where one: "propose_one_batch pv f input sidecar (rt_caps rt) (rt_last_used_nonce rt) = Inr (Failed err, n')"
    and react: "if c then \<exists>e. react (pv_revert pv) (rt_caps rt) err = Count e
         else \<exists>caps'. react (pv_revert pv) (rt_caps rt) err = Again caps'"
    and nonce: "nonce \<le> n'"
    using Cons.hyps(1) Cons.prems(2) unfolding fails_always_def by blast
  show ?case
  proof (cases c)
    case True
    with react obtain e where e: "react (pv_revert pv) (rt_caps rt) err = Count e" by auto
    have "rt_retries rt + 1 \<noteq> MAX_RETRIES" using Cons.prems True by simp
    with one e Cons.IH[of "rt\<lparr>rt_last_used_nonce := n', rt_retries := rt_retries rt + 1\<rparr>" "set_propose_delayed sh"]
      Cons.prems True nonce
    show ?thesis by (simp add: Let_def set_propose_delayed_def)
  next
    case False
    with react obtain caps' where "react (pv_revert pv) (rt_caps rt) err = Again caps'" by auto
    with one Cons.IH[of "rt\<lparr>rt_last_used_nonce := n', rt_caps := caps'\<rparr>" sh] Cons.prems False nonce
    show ?thesis by (simp add: Let_def)
  qed
qed

lemma attempts_land:
  assumes "prepare_batch pv request = Inr (input, sidecar)" "\<not> pc_dry_run (pv_config pv)"
    and "list_all2 (fails_always pv input sidecar nonce) counted fails" "length (filter id counted) < MAX_RETRIES"
    and "lands_always pv input sidecar a"
  shows "propose_batch pv (fails @ a # rest) request sh =
    Inr (Settled, sh\<lparr>sh_propose_delayed := False, sh_current_proposals := sh_current_proposals sh - 1\<rparr>)"
proof -
  have "rt_retries retry_init + length (filter id counted) < MAX_RETRIES"
    "nonce \<le> rt_last_used_nonce retry_init"
    using assms(4) by (simp_all add: retry_init_def)
  from retry_loop_lands[OF assms(5,3) this, of rest sh] assms(1,2) show ?thesis
    by (auto simp: propose_batch_def set_propose_ok_def remove_pending_def)
qed

text \<open>C13: A batch lands as soon as an attempt does: any number of attempts that are retried at once, and
  less than \<open>MAX_RETRIES\<close> others, only postpone it, while the account's nonce stays the same.\<close>

theorem propose_batch_lands:
  assumes "prepare_batch pv request = Inr (input, sidecar)" "\<not> pc_dry_run (pv_config pv)"
    and "list_all2 (fails_always pv input sidecar nonce) counted fails" "length (filter id counted) < MAX_RETRIES"
    and "lands_always pv input sidecar a"
  shows "propose_batch pv (fails @ a # rest) request sh =
    Inr (Settled, sh\<lparr>sh_propose_delayed := False, sh_current_proposals := sh_current_proposals sh - 1\<rparr>)"
  using assms by (rule attempts_land)

lemma ex_lands: "lands_always ex_proposer_env input (Some sc) ex_landing"
  by (simp add: lands_always_def ex_landing_def ex_attempt_defs)

lemma ex_fails: "fails_always ex_proposer_env input (Some sc) 5 True ex_failing"
  "fails_always ex_proposer_env input (Some sc) 5 False ex_dropped"
  by (auto simp: fails_always_def ex_failing_def ex_dropped_def ex_attempt_defs not_less
      revert_reason_of_def extract_revert_reason_def MARKER_def quote_def try_extract_def contains_def
      to_lowercase_def to_lower_def)

lemma ex_prepared: "\<exists>input sc. prepare_batch ex_proposer_env ex_request = Inr (input, Some sc)"
  by (rule prepare_batch_ok) (simp_all add: MAX_BLOB_DATA_SIZE_def ex_proposer_env_def ex_kzg_total)

theorem propose_batch_lands_witness:
  "propose_batch ex_proposer_env ([ex_failing, ex_dropped, ex_failing] @ ex_landing # []) ex_request
       \<lparr>sh_propose_delayed = True, sh_current_proposals = 3\<rparr> =
     Inr (Settled, \<lparr>sh_propose_delayed = False, sh_current_proposals = 2\<rparr>)"
proof -
  obtain input sc where prep: "prepare_batch ex_proposer_env ex_request = Inr (input, Some sc)"
    using ex_prepared by blast
  have "list_all2 (fails_always ex_proposer_env input (Some sc) 5) [True, False, True]
      [ex_failing, ex_dropped, ex_failing]"
    by (simp add: ex_fails)
  from propose_batch_lands[OF prep _ this _ ex_lands] show ?thesis
    by (simp add: MAX_RETRIES_def ex_proposer_env_def ex_resync_env_def)
qed

text \<open>C33: A higher nonce alone settles a batch: if a transaction was not included in time and at the next
  attempt the account's nonce has grown, the batch counts as proposed, whatever the receipt of the
  transaction says; one that reverted in between loses the batch.\<close>

theorem nonce_jump_settles:
  assumes "prepare_batch pv request = Inr (input, sidecar)" "\<not> pc_dry_run (pv_config pv)"
    and "propose_one_batch pv a1 input sidecar (rt_caps retry_init) (- 1) =
      Inr (Failed TxNotIncludedInNextBlocks, nonce)"
    and "at_nonce a2 = Inr next_nonce" "nonce < next_nonce"
  shows "propose_batch pv (a1 # a2 # rest) request sh =
    Inr (Settled, sh\<lparr>sh_propose_delayed := False, sh_current_proposals := sh_current_proposals sh - 1\<rparr>)"
  using assms
  by (simp add: propose_batch_def retry_init_def propose_one_batch_def[of pv a2] Let_def
      set_propose_ok_def remove_pending_def)

definition ex_reverted :: "'c attempt" where
  "ex_reverted = (ex_attempt
     [\<lparr>po_now = 1, po_send = Inr 77,
       po_receipt = Inr (Some \<lparr>rp_status = False, rp_block_number = Some 1100, rp_text = []\<rparr>),
       po_last_block = Inr 1101\<rparr>])
     \<lparr>at_nonce := Inr 6\<rparr>"

theorem nonce_jump_settles_witness:
  "propose_batch ex_proposer_env [ex_dropped, ex_reverted] ex_request
       \<lparr>sh_propose_delayed = False, sh_current_proposals = 1\<rparr> =
     Inr (Settled, \<lparr>sh_propose_delayed = False, sh_current_proposals = 0\<rparr>)"
proof -
  obtain input sc where prep: "prepare_batch ex_proposer_env ex_request = Inr (input, Some sc)"
    using ex_prepared by blast
  have one: "propose_one_batch ex_proposer_env ex_dropped input (Some sc) (rt_caps retry_init) (- 1) =
      Inr (Failed TxNotIncludedInNextBlocks, 5)"
    by (simp add: ex_dropped_def ex_attempt_defs)
  have "at_nonce ex_reverted = Inr 6" by (simp add: ex_reverted_def)
  from nonce_jump_settles[OF prep _ one this, of "[]"] show ?thesis
    by (simp add: ex_proposer_env_def ex_resync_env_def)
qed

subsection \<open>Answers of the simulator\<close>

text \<open>Every reason that the simulator can give for rejecting a transaction is read back from its
  text, with the numbers it carries.\<close>

theorem invalid_reason_roundtrip:
  assumes "hex_text addr" "\<nexists>s. r = Uknown s"
  shows "parse_invalid_reason (invalid_text addr r) = r"
  using assms by (rule invalid_text_parses)

theorem invalid_reason_roundtrip_witness:
  "parse_invalid_reason (invalid_text ''0xAb'' (InsufficientFunds 12 345)) = InsufficientFunds 12 345"
  by (rule invalid_reason_roundtrip) (simp_all add: hex_text_def)

end
