(* ===== verification/Batch_Watch.thy ===== *)
theory Batch_Watch
  imports Seq_Inv
begin

text \<open>
  What is true of the batches of the sequencer, whatever else an iteration does.  The locale
  \<open>batch_watch\<close> is the contract of a property \<open>Q\<close> that looks at the history of sealed blocks and at
  four fields only: the configuration, the requests sent, the pending batch and the shared flags.
  If sending the pending batch, asking for a resync and adding a sealed block keep \<open>Q\<close>, then every
  operation of the sequencer keeps it, and an iteration moves it to the history that is longer by the
  block that was sealed.
\<close>

abbreviation any_panic :: "string \<Rightarrow> bool" where
  "any_panic \<equiv> \<lambda>_. True"

text \<open>An operation in front that does not touch the sequencer may fail or succeed.\<close>

lemma keeps_after: "(\<And>x. guarded any_panic Q (f x)) \<Longrightarrow> guarded any_panic Q (bindR m f)"
  by (cases m) auto

locale batch_watch =
  fixes est :: "usize \<Rightarrow> usize" and Q :: "sealed \<Rightarrow> sequencer \<Rightarrow> bool"
  assumes frame: "sq_config s' = sq_config s \<Longrightarrow>
      sp_proposer_tx (sq_spine s') = sp_proposer_tx (sq_spine s) \<Longrightarrow>
      sq_proposer_request s' = sq_proposer_request s \<Longrightarrow> sq_shared s' = sq_shared s \<Longrightarrow> Q h s' = Q h s"
    and send_keeps: "Q h s \<Longrightarrow> Q h (send_batch_to_proposer check s)"
    and resync_keeps: "Q h s \<Longrightarrow> Q h (s\<lparr>sq_spine := (sq_spine s)
      \<lparr>sp_proposer_tx := sp_proposer_tx (sq_spine s) @ [Resync lo hi]\<rparr>\<rparr>)"
    and add_keeps: "Q h s \<Longrightarrow>
      add_block est (sc_coinbase_address (sq_config s)) sd b (sq_proposer_request s) = Inr r \<Longrightarrow>
      Q (h @ [(b, sd)]) (s\<lparr>sq_proposer_request := Some r\<rparr>)"
begin

abbreviation keeps :: "sealed \<Rightarrow> sequencer run \<Rightarrow> bool" where
  "keeps h \<equiv> guarded any_panic (Q h)"

abbreviation keeps2 :: "sealed \<Rightarrow> ('a \<times> sequencer) run \<Rightarrow> bool" where
  "keeps2 h \<equiv> guarded any_panic (\<lambda>(_, s). Q h s)"

lemma frame_updates [simp]:
  "Q h (s\<lparr>sq_ctx := cx\<rparr>) = Q h s"
  "Q h (s\<lparr>sq_tx_pool := tp\<rparr>) = Q h s"
  "Q h (s\<lparr>sq_lookahead := la\<rparr>) = Q h s"
  "Q h (s\<lparr>sq_timings := tm\<rparr>) = Q h s"
  "Q h (s\<lparr>sq_flags := fl\<rparr>) = Q h s"
  "Q h (s\<lparr>sq_anchor_error_count := n\<rparr>) = Q h s"
  "Q h (s\<lparr>sq_needs_status_check := c\<rparr>) = Q h s"
  by (rule frame; simp)+

lemma frame_queue: "sp_proposer_tx sp = sp_proposer_tx (sq_spine s) \<Longrightarrow> Q h (s\<lparr>sq_spine := sp\<rparr>) = Q h s"
  by (rule frame) simp_all

lemma receive_for_keeps:
  assumes "\<And>x s. Q h s \<Longrightarrow> keeps h (handler x s)" and "Q h s"
  shows "guarded any_panic (\<lambda>(s, rest). Q h s) (receive_for handler late i q s)"
  using assms(2)
proof (induction q arbitrary: i s)
  case (Cons x q)
  show ?case
    unfolding receive_for.simps
    by (rule guarded_bind[OF assms(1)[OF Cons.prems]]) (simp add: Cons.IH)
qed simp

lemma recv_blocks_keeps: "Q h s \<Longrightarrow> keeps h (recv_blocks pr inp s)"
proof -
  have l1: "Q h s \<Longrightarrow> keeps h (on_l1_block now hd s)" for now hd s
    by (simp add: on_l1_block_def)
  have l2: "Q h s \<Longrightarrow> keeps h (on_l2_block pr now b s)" for now b s
    unfolding on_l2_block_def by (rule keeps_after) (simp split: prod.split)
  have origin: "Q h s \<Longrightarrow> keeps h (on_origin_block hd s)" for hd s
    unfolding on_origin_block_def by (rule keeps_after) simp
  assume s: "Q h s"
  show ?thesis
    unfolding recv_blocks_def Let_def
    by (auto intro!: guarded_bind[OF receive_for_keeps[OF l1]] guarded_bind[OF receive_for_keeps[OF l2]]
        guarded_bind[OF receive_for_keeps[OF origin]] simp: frame_queue s)
qed

lemma handle_tx_keeps: "Q h s \<Longrightarrow> keeps h (handle_tx took pb t s)"
proof -
  assume s: "Q h s"
  have "keeps h (case cx_state (sq_ctx s) of
            Sorting sd \<Rightarrow> bindR (handle_new_tx took t sd) (\<lambda>sd'.
                            Inr (s\<lparr>sq_ctx := (sq_ctx s)\<lparr>cx_state := Sorting sd'\<rparr>\<rparr>))
          | Sync _ \<Rightarrow> Inr s)"
    by (cases "cx_state (sq_ctx s)") (auto intro: keeps_after simp: s)
  then show ?thesis
    unfolding handle_tx_def by (rule guarded_bind) (auto intro: keeps_after)
qed

lemma fetch_txs_keeps:
  assumes "Q h s"
  shows "keeps h (fetch_txs inp s)"
proof -
  note drained = receive_for_keeps[where handler = "handle_tx _ _", OF handle_tx_keeps]
  show ?thesis
    unfolding fetch_txs_def Let_def
    by (rule keeps_after) (auto intro!: guarded_bind[OF drained] simp: frame_queue assms)
qed

lemma handle_sims_keeps: "Q h s \<Longrightarrow> keeps h (handle_sims inp s)"
proof (cases "sp_sim_rx (sq_spine s)")
  case (Cons res rest)
  assume s: "Q h s"
  have "Q h (s\<lparr>sq_spine := (sq_spine s)\<lparr>sp_sim_rx := rest\<rparr>\<rparr>)"
    using s by (simp add: frame_queue)
  then show ?thesis
    unfolding handle_sims_def Let_def Cons list.case
    by (auto split: sum.splits sequencer_state.splits intro: keeps_after)
qed (simp add: handle_sims_def)

lemma check_can_sequence_keeps: "Q h s \<Longrightarrow> keeps h (check_can_sequence now utc s)"
  unfolding check_can_sequence_def Let_def
  by (auto split: prod.splits intro!: keeps_after elim!: frame[THEN iffD2, rotated 4])

lemma check_resync_keeps: "Q h s \<Longrightarrow> keeps h (check_resync s)"
  unfolding check_resync_def Let_def
  by (rule keeps_after) (simp add: resync_keeps)

lemma check_can_propose_keeps: "Q h s \<Longrightarrow> keeps h (check_can_propose now utc s)"
  unfolding check_can_propose_def Let_def
  by (rule keeps_after) (auto intro!: guarded_bind[where P = "Q h"] check_resync_keeps split: prod.split)

lemma maybe_refresh_anchor_keeps [simp]: "Q h s \<Longrightarrow> Q h (maybe_refresh_anchor utc s)"
  by (simp add: maybe_refresh_anchor_def update_anchor_def send_keeps split: option.splits)

lemma tick_keeps: "Q h s \<Longrightarrow> keeps h (tick pr inp s)"
  unfolding tick_def Let_def
  apply (rule guarded_bind[OF recv_blocks_keeps], assumption)
  apply (rule guarded_bind[OF fetch_txs_keeps], assumption)
  apply (rule guarded_bind[OF handle_sims_keeps], assumption)
  apply (rule guarded_bind[OF check_can_sequence_keeps], assumption)
  apply (rule guarded_bind[OF check_can_propose_keeps], assumption)
  apply (rule guarded_bind[where P = "Q h"])
   apply (auto intro!: keeps_after simp: send_keeps split: prod.split)
  done

text \<open>The one operation that adds to the history.\<close>

lemma seal_block_keeps:
  assumes s: "Q h s" and est: "pr_est pr = est"
    and seal: "\<not> should_discard sd" "should_seal (in_now inp) sd"
  shows "keeps2 (h @ sealed_by inp (Sorting sd)) (seal_block pr inp sd s)"
proof (cases "in_seal inp (sd_state_id sd)")
  case (Inl e)
  with s show ?thesis by (simp add: seal_block_def sealed_by_def)
next
  case (Inr res)
  show ?thesis
  proof (cases "in_gossip inp (sr_built_block res) False")
    case (Inl e)
    with Inr s show ?thesis by (simp add: seal_block_def sealed_by_def)
  next
    case gossip: (Inr u)
    let ?s2 = "\<lambda>cx. s\<lparr>sq_tx_pool := update_new_block (sd_nonces sd) (sq_tx_pool s), sq_ctx := cx\<rparr>"
    have "Q h (?s2 cx)" for cx using s by simp
    from add_keeps[OF this]
    have "Q (h @ [(sr_built_block res, sd)]) (?s2 cx\<lparr>sq_proposer_request := Some r\<rparr>)"
      if "add_block est (sc_coinbase_address (sq_config s)) sd (sr_built_block res) (sq_proposer_request s) = Inr r"
      for cx r using that by simp
    moreover have "guarded any_panic (\<lambda>r. add_block est (sc_coinbase_address (sq_config s)) sd
        (sr_built_block res) (sq_proposer_request s) = Inr r)
      (add_block est (sc_coinbase_address (sq_config s)) sd (sr_built_block res) (sq_proposer_request s))"
      by (cases "add_block est (sc_coinbase_address (sq_config s)) sd (sr_built_block res) (sq_proposer_request s)")
        simp_all
    ultimately show ?thesis
      using Inr gossip seal est
      by (auto simp: seal_block_def sealed_by_def Let_def send_keeps split: prod.split
          intro!: keeps_after elim!: guarded_bind)
  qed
qed

lemma transition_seal_keeps:
  assumes "Q h s" "pr_est pr = est" "\<not> should_discard sd" "should_seal (in_now inp) sd"
  shows "keeps2 (h @ sealed_by inp (Sorting sd)) (transition_seal pr inp sd s)"
  unfolding transition_seal_def
  by (rule guarded_bind[OF seal_block_keeps[OF assms]]) (auto split: option.split)

lemma start_block_keeps: "Q h s \<Longrightarrow> keeps2 h (start_block inp t s)"
  unfolding start_block_def Let_def
  by (intro keeps_after) (auto split: sum.split intro!: keeps_after)

lemma transition_sync_keeps: "Q h s \<Longrightarrow> keeps2 h (transition_sync pr inp l s)"
proof -
  assume s: "Q h s"
  have "keeps2 h (status_check inp s)"
    unfolding status_check_def Let_def using s by (auto split: sum.split intro!: keeps_after)
  then show ?thesis
    unfolding transition_sync_def Let_def
    by (auto split: option.split intro!: start_block_keeps elim!: guarded_bind simp: s)
qed

lemma state_transition_keeps:
  assumes "Q h s" "pr_est pr = est"
  shows "keeps2 (h @ sealed_by inp st) (state_transition pr inp st s)"
proof (cases st)
  case (Sync l)
  with transition_sync_keeps[OF assms(1)] show ?thesis by (simp add: state_transition_def sealed_by_def)
next
  case (Sorting sd)
  show ?thesis
  proof (cases "should_discard sd \<or> \<not> should_seal (in_now inp) sd")
    case True
    with Sorting assms(1) show ?thesis
      by (auto simp: state_transition_def sealed_by_def transition_discard_def Let_def send_keeps
          intro!: keeps_after)
  next
    case False
    with Sorting transition_seal_keeps[OF assms, of sd inp] show ?thesis
      by (simp add: state_transition_def)
  qed
qed

lemma loop_step_keeps:
  assumes "Q h s" "pr_est pr = est"
  shows "keeps (h @ sealed_in pr inp s) (loop_step pr inp s)"
proof (cases "tick pr inp s")
  case (Inl m)
  then show ?thesis by (simp add: loop_step_def)
next
  case (Inr s1)
  let ?st = "cx_state (sq_ctx s1)" and ?s2 = "s1\<lparr>sq_ctx := (sq_ctx s1)\<lparr>cx_state := sequencer_state_default\<rparr>\<rparr>"
  have "Q h ?s2" using tick_keeps[OF assms(1), of pr inp] Inr by simp
  from state_transition_keeps[OF this assms(2), of inp ?st]
  have "keeps (h @ sealed_by inp ?st) (bindR (state_transition pr inp ?st ?s2) (\<lambda>(st', s3).
      Inr (s3\<lparr>sq_ctx := (sq_ctx s3)\<lparr>cx_state := st'\<rparr>\<rparr>)))"
    by (rule guarded_bind) auto
  with Inr show ?thesis by (simp add: loop_step_def sealed_in_def Let_def)
qed

end

end
