(* ===== verification/Pending_Books.thy ===== *)
theory Pending_Books
  imports Seq_Props Retry_Props Batch_Watch "HOL-Library.Sublist"
begin

text \<open>
  The sequencer and the proposer together.  They share the counter of pending proposals: the
  sequencer adds a batch when it sends it, the proposer takes it off when it is settled, and a
  resync adds its own batches first.  \<open>books\<close> is the difference between the counter and the batches
  ever sent; no iteration of the sequencer changes it.
\<close>

subsection \<open>The sequencer's side\<close>

definition sent_batches :: "proposal_request list \<Rightarrow> propose_batch_params list" where
  "sent_batches q = concat (map (\<lambda>p. case p of Batch r \<Rightarrow> [r] | Resync _ _ \<Rightarrow> []) q)"

lemma sent_batches_simps [simp]:
  "sent_batches [] = []" "sent_batches (q @ q') = sent_batches q @ sent_batches q'"
  "sent_batches (Batch r # q) = r # sent_batches q" "sent_batches (Resync a b # q) = sent_batches q"
  by (simp_all add: sent_batches_def)

definition books :: "sequencer \<Rightarrow> usize" where
  "books s = current_pending (sq_shared s) - of_nat (length (sent_batches (sp_proposer_tx (sq_spine s))))"

definition booked :: "proposal_request list \<Rightarrow> usize \<Rightarrow> sequencer \<Rightarrow> bool" where
  "booked old b s \<longleftrightarrow> books s = b \<and> prefix old (sp_proposer_tx (sq_spine s))"

lemma booked_send: "booked old b s \<Longrightarrow> booked old b (send_batch_to_proposer check s)"
  by (auto simp: booked_def books_def send_batch_to_proposer_def add_pending_def current_pending_def
      split: sequencer_state.splits option.splits)

interpretation books: batch_watch est "\<lambda>_. booked old b" for est old b
  by unfold_locales (simp_all add: booked_send, simp_all add: booked_def books_def)

subsection \<open>The proposer's side\<close>

lemma settled_iff:
  "(case p of Settled \<Rightarrow> A | InProgress \<Rightarrow> Inr (InProgress, s)) = Inr (Settled, x) \<longleftrightarrow>
     p = Settled \<and> A = Inr (Settled, x)"
  by (cases p) auto

lemma retry_loop_pending:
  "retry_loop pv input sidecar attempts rt sh = Inr (r, sh') \<Longrightarrow> current_pending sh' = current_pending sh"
  using retry_loop_outcome[of pv input sidecar attempts rt sh] by (auto simp: current_pending_def)

lemma propose_batch_pending:
  assumes "\<not> pc_dry_run (pv_config pv)" "propose_batch pv attempts request sh = Inr (Settled, sh')"
  shows "current_pending sh' = current_pending sh - 1"
proof -
  obtain input sidecar sh1 where "retry_loop pv input sidecar attempts retry_init sh = Inr (Settled, sh1)"
    and sh': "sh' = set_propose_ok (remove_pending sh1)"
    using assms by (auto simp: propose_batch_def bindR_eq_Inr settled_iff)
  from retry_loop_pending[OF this(1)] sh' show ?thesis
    by (simp add: set_propose_ok_def remove_pending_def current_pending_def)
qed

lemma propose_all_pending:
  assumes "\<not> pc_dry_run (pv_config pv)" "propose_all pv requests sh = Inr (Settled, sh')"
  shows "current_pending sh' = current_pending sh - of_nat (length requests)"
  using assms
proof (induction pv requests sh rule: propose_all.induct)
  case (2 pv request attempts rest sh)
  then obtain sh1 where sh1: "propose_batch pv attempts request sh = Inr (Settled, sh1)"
    "propose_all pv rest sh1 = Inr (Settled, sh')"
    by (auto simp: bindR_eq_Inr settled_iff)
  have "current_pending sh' = current_pending sh1 - of_nat (length rest)"
    using "2.IH"[OF refl "2.prems"(1) sh1(2)] .
  with propose_batch_pending[OF "2.prems"(1) sh1(1)] show ?case by simp
qed simp

lemma propose_groups_pending:
  assumes "\<not> pc_dry_run (pv_config pv)" "propose_groups pv groups script sh = Inr (Settled, sh')"
  shows "current_pending sh' = current_pending sh"
  using assms
proof (induction groups arbitrary: script sh)
  case (Cons requests groups)
  let ?attempts = "take (length requests) script @ replicate (length requests - length script) []"
  obtain sh1 where sh1: "propose_all pv (zip requests ?attempts) (add_n_pending (len64 requests) sh) = Inr (Settled, sh1)"
    "propose_groups pv groups (drop (length requests) script) sh1 = Inr (Settled, sh')"
    using Cons.prems by (auto simp: bindR_eq_Inr settled_iff Let_def)
  have "length (zip requests ?attempts) = length requests" by simp
  with propose_all_pending[OF Cons.prems(1) sh1(1)] have "current_pending sh1 = current_pending sh"
    by (simp add: add_n_pending_def current_pending_def len64_def)
  with Cons.IH[OF Cons.prems(1) sh1(2)] show ?case by simp
qed simp

lemma either_way: "(case v of Inl e \<Rightarrow> Inr (f e, s) | Inr _ \<Rightarrow> Inr (y, s)) = Inr (r, s') \<Longrightarrow> s' = s"
  by (cases v) auto

lemma resync_pending:
  assumes "\<not> pc_dry_run (pv_config pv)" "resync pv env t origin end sh = Inr (r, sh')" "r \<noteq> Inr InProgress"
  shows "current_pending sh' = current_pending sh"
proof (cases "\<exists>e. resync_plan env (rs_io t) origin end = okE e")
  case False
  then obtain e where "resync_plan env (rs_io t) origin end = errE e"
    using assms(2) by (cases "resync_plan env (rs_io t) origin end")
      (auto simp: resync_def split: sum.splits)
  with assms(2) show ?thesis by (simp add: resync_def)
next
  case True
  then obtain reorg groups requests where
    "resync_plan env (rs_io t) origin end = okE (reorg, groups, requests)" by (metis prod_cases3)
  with assms(2) obtain progress sh1 where groups:
    "propose_groups pv requests (rs_script t) sh = Inr (progress, sh1)"
    "(if progress = InProgress \<or> reorg then Inr (Inr progress, sh1)
      else bindR (verify_proposed (rs_fetch t) (blocks_to_verify groups)) (\<lambda>v.
             case v of Inl e \<Rightarrow> Inr (Inl e, sh1) | Inr _ \<Rightarrow> Inr (Inr Settled, sh1))) = Inr (r, sh')"
    by (auto simp: resync_def bindR_eq_Inr)
  have "sh' = sh1"
    using groups(2) by (auto simp: bindR_eq_Inr dest: either_way split: if_splits)
  moreover have "progress = Settled" using groups(2) assms(3) by (cases progress) auto
  ultimately show ?thesis using propose_groups_pending[OF assms(1)] groups(1) by simp
qed

lemma resync_until_ok_pending:
  assumes "\<not> pc_dry_run (pv_config pv)" "resync_until_ok pv env tries origin end sh = Inr (Settled, sh')"
  shows "current_pending sh' = current_pending sh"
  using assms
proof (induction tries arbitrary: sh)
  case (Cons t ts)
  then obtain r sh1 where t: "resync pv env t origin end sh = Inr (r, sh1)"
    and r: "(case r of Inl e \<Rightarrow> resync_until_ok pv env ts origin end sh1 | Inr p \<Rightarrow> Inr (p, sh1)) = Inr (Settled, sh')"
    by (auto simp: bindR_eq_Inr)
  have "r \<noteq> Inr InProgress" using r by auto
  from resync_pending[OF Cons.prems(1) t this] r Cons.IH Cons.prems(1) show ?case
    by (cases r) auto
qed simp

lemma handle_request_pending:
  assumes "\<not> pc_dry_run (pv_config pv)" "handle_request pv env p script sh = Inr (Settled, sh')"
  shows "current_pending sh' = current_pending sh - of_nat (length (sent_batches [p]))"
proof (cases p)
  case (Batch r)
  with assms propose_batch_pending show ?thesis by (cases script) auto
next
  case (Resync a b)
  with assms resync_until_ok_pending show ?thesis by (cases script) auto
qed


subsection \<open>Both together\<close>

text \<open>\<open>gw_taken\<close> counts the requests that the proposer has finished with.  What a request does to the
  shared flags appears when it is settled; other threads do not touch them.\<close>

record gateway_sys =
  gw_seq :: sequencer
  gw_taken :: nat

datatype 'c gateway_event =
    Outside arrivals
  | Sequence loop_input
  | Propose "'c request_script"

fun gateway_step ::
    "seq_params \<Rightarrow> ('p, 'q, 'c) proposer_env \<Rightarrow> resync_env \<Rightarrow> 'c gateway_event \<Rightarrow> gateway_sys \<Rightarrow>
     gateway_sys run" where
  "gateway_step pr pv env (Outside ar) g =
     Inr (g\<lparr>gw_seq := arrive (ar\<lparr>ar_shared := sq_shared (gw_seq g)\<rparr>) (gw_seq g)\<rparr>)"
| "gateway_step pr pv env (Sequence inp) g =
     bindR (loop_step pr inp (gw_seq g)) (\<lambda>s. Inr (g\<lparr>gw_seq := s\<rparr>))"
| "gateway_step pr pv env (Propose script) g =
     (case drop (gw_taken g) (sp_proposer_tx (sq_spine (gw_seq g))) of
        [] \<Rightarrow> Inr g
      | p # _ \<Rightarrow>
          bindR (handle_request pv env p script (sq_shared (gw_seq g))) (\<lambda>(progress, sh).
            case progress of
              Settled \<Rightarrow> Inr (g\<lparr>gw_seq := (gw_seq g)\<lparr>sq_shared := sh\<rparr>, gw_taken := gw_taken g + 1\<rparr>)
            | InProgress \<Rightarrow> Inr g))"

definition waiting_batches :: "gateway_sys \<Rightarrow> propose_batch_params list" where
  "waiting_batches g = sent_batches (drop (gw_taken g) (sp_proposer_tx (sq_spine (gw_seq g))))"

text \<open>The counter shows the batches that wait to be settled.\<close>

definition pending_exact :: "gateway_sys \<Rightarrow> bool" where
  "pending_exact g \<longleftrightarrow>
     gw_taken g \<le> length (sp_proposer_tx (sq_spine (gw_seq g))) \<and>
     current_pending (sq_shared (gw_seq g)) = of_nat (length (waiting_batches g))"

lemma sent_batches_split: "sent_batches q = sent_batches (take n q) @ sent_batches (drop n q)"
  by (metis append_take_drop_id sent_batches_simps(2))

lemma booked_start: "booked (sp_proposer_tx (sq_spine s)) (books s) s"
  by (simp add: booked_def)

lemma booked_extends:
  assumes "booked (sp_proposer_tx (sq_spine s)) (books s) s'"
  obtains more where "sp_proposer_tx (sq_spine s') = sp_proposer_tx (sq_spine s) @ more"
    "current_pending (sq_shared s') = current_pending (sq_shared s) + of_nat (length (sent_batches more))"
  using assms by (auto simp: booked_def books_def prefix_def algebra_simps)

lemma gateway_step_pending:
  assumes inv: "pending_exact g" and run: "\<not> pc_dry_run (pv_config pv)"
  shows "guarded (\<lambda>_. True) pending_exact (gateway_step pr pv env e g)"
proof (cases e)
  case (Outside ar)
  with inv show ?thesis by (simp add: pending_exact_def waiting_batches_def arrive_def)
next
  case (Sequence inp)
  have "guarded any_panic (booked (sp_proposer_tx (sq_spine (gw_seq g))) (books (gw_seq g)))
      (loop_step pr inp (gw_seq g))"
    by (rule books.loop_step_keeps[OF booked_start refl])
  then have "guarded (\<lambda>_. True) pending_exact
      (bindR (loop_step pr inp (gw_seq g)) (\<lambda>s. Inr (g\<lparr>gw_seq := s\<rparr>)))"
  proof (rule guarded_bind)
    fix s' assume "booked (sp_proposer_tx (sq_spine (gw_seq g))) (books (gw_seq g)) s'"
    then obtain more where
      "sp_proposer_tx (sq_spine s') = sp_proposer_tx (sq_spine (gw_seq g)) @ more"
      "current_pending (sq_shared s') =
         current_pending (sq_shared (gw_seq g)) + of_nat (length (sent_batches more))"
      by (rule booked_extends)
    with inv show "guarded (\<lambda>_. True) pending_exact (Inr (g\<lparr>gw_seq := s'\<rparr>))"
      by (simp add: pending_exact_def waiting_batches_def)
  qed
  with Sequence show ?thesis by simp
next
  case (Propose script)
  show ?thesis
  proof (cases "drop (gw_taken g) (sp_proposer_tx (sq_spine (gw_seq g)))")
    case Nil
    with inv Propose show ?thesis by simp
  next
    case (Cons p rest)
    then have rest: "drop (gw_taken g + 1) (sp_proposer_tx (sq_spine (gw_seq g))) = rest"
      by (metis Suc_eq_plus1 drop_Suc list.sel(3) tl_drop)
    have less: "gw_taken g + 1 \<le> length (sp_proposer_tx (sq_spine (gw_seq g)))"
      using Cons by (metis Suc_eq_plus1 Suc_leI drop_eq_Nil linorder_not_less list.distinct(1))
    show ?thesis
    proof (cases "handle_request pv env p script (sq_shared (gw_seq g))")
      case (Inl m)
      with Propose Cons show ?thesis by simp
    next
      case (Inr b)
      obtain progress sh where b: "b = (progress, sh)" by (cases b)
      show ?thesis
      proof (cases progress)
        case Settled
        with Inr b have "current_pending sh =
            current_pending (sq_shared (gw_seq g)) - of_nat (length (sent_batches [p]))"
          using handle_request_pending[OF run] by simp
        moreover have "current_pending (sq_shared (gw_seq g)) =
            of_nat (length (sent_batches [p]) + length (sent_batches rest))"
          using inv Cons sent_batches_simps(2)[of "[p]" rest] by (simp add: pending_exact_def waiting_batches_def)
        ultimately have "current_pending sh = of_nat (length (sent_batches rest))" by simp
        with Propose Cons Inr b Settled less show ?thesis
          by (simp add: pending_exact_def waiting_batches_def rest[simplified])
      qed (use Propose Cons Inr b inv in simp)
    qed
  qed
qed

interpretation pending: guarded_system "gateway_step pr pv env" "\<lambda>_ _. True"
    "\<lambda>g. pc_dry_run (pv_config pv) \<or> pending_exact g" "\<lambda>_. True" for pr pv env
proof unfold_locales
  fix g e
  assume "pc_dry_run (pv_config pv) \<or> pending_exact g"
  then show "guarded (\<lambda>_. True) (\<lambda>g. pc_dry_run (pv_config pv) \<or> pending_exact g)
      (gateway_step pr pv env e g)"
    using gateway_step_pending[of g pv pr env e]
    by (cases "gateway_step pr pv env e g") auto
qed

lemma legal_run_any: "legal_run step (\<lambda>_ _. True) es s"
  by (induction es arbitrary: s) (auto split: sum.split)


definition fx_gateway :: gateway_sys where
  "fx_gateway =
     \<lparr>gw_seq = fx_ready\<lparr>sq_spine := (sq_spine fx_ready)\<lparr>sp_proposer_tx := [Batch ex_request, Batch ex_request]\<rparr>,
        sq_shared := \<lparr>sh_propose_delayed = False, sh_current_proposals = 2\<rparr>\<rparr>, gw_taken = 0\<rparr>"


subsection \<open>Dry runs\<close>

lemma gateway_step_dry:
  assumes "pc_dry_run (pv_config pv)" "\<nexists>tries. e = Propose (Tries tries)"
    and "gateway_step pr pv env e g = Inr g'"
  shows "\<exists>more. sp_proposer_tx (sq_spine (gw_seq g')) = sp_proposer_tx (sq_spine (gw_seq g)) @ more \<and>
    current_pending (sq_shared (gw_seq g')) =
      current_pending (sq_shared (gw_seq g)) + of_nat (length (sent_batches more))"
proof (cases e)
  case (Outside ar)
  with assms(3) show ?thesis by (auto simp: arrive_def)
next
  case (Sequence inp)
  with assms(3) obtain s' where s': "loop_step pr inp (gw_seq g) = Inr s'" "g' = g\<lparr>gw_seq := s'\<rparr>"
    by (auto simp: bindR_eq_Inr)
  have "guarded any_panic (booked (sp_proposer_tx (sq_spine (gw_seq g))) (books (gw_seq g)))
      (loop_step pr inp (gw_seq g))"
    by (rule books.loop_step_keeps[OF booked_start refl])
  then have "booked (sp_proposer_tx (sq_spine (gw_seq g))) (books (gw_seq g)) s'" by (simp add: s'(1))
  then show ?thesis by (rule booked_extends) (auto simp: s'(2))
next
  case (Propose script)
  with assms(2) obtain attempts where a: "script = Attempts attempts" by (cases script) auto
  have skip: "handle_request pv env p (Attempts attempts) sh = Inr (progress, sh') \<Longrightarrow> sh' = sh" for p sh progress sh'
    using assms(1) by (cases p) (auto simp: propose_batch_def)
  show ?thesis
  proof (cases "drop (gw_taken g) (sp_proposer_tx (sq_spine (gw_seq g)))")
    case Nil
    with assms(3) Propose show ?thesis by simp
  next
    case (Cons p rest)
    with assms(3) Propose a obtain progress sh where
      settled: "handle_request pv env p (Attempts attempts) (sq_shared (gw_seq g)) = Inr (progress, sh)"
      "(case progress of
          Settled \<Rightarrow> Inr (g\<lparr>gw_seq := (gw_seq g)\<lparr>sq_shared := sh\<rparr>, gw_taken := gw_taken g + 1\<rparr>)
        | InProgress \<Rightarrow> Inr g) = (Inr g' :: gateway_sys run)"
      by (auto simp: bindR_eq_Inr)
    with skip[OF settled(1)] show ?thesis by (cases progress) auto
  qed
qed

text \<open>In a dry run the pending counter never falls: the proposer skips every batch without taking it
  off, so as long as it is not asked to resync every batch that was ever sent stays counted.\<close>

theorem dry_run_pending_never_falls:
  assumes "pc_dry_run (pv_config pv)" "\<forall>e \<in> set es. \<nexists>tries. e = Propose (Tries tries)"
    and "run_events (gateway_step pr pv env) es g0 = Inr g"
  shows "\<exists>more. sp_proposer_tx (sq_spine (gw_seq g)) = sp_proposer_tx (sq_spine (gw_seq g0)) @ more \<and>
    current_pending (sq_shared (gw_seq g)) =
      current_pending (sq_shared (gw_seq g0)) + of_nat (length (sent_batches more))"
  using assms(2,3)
proof (induction es arbitrary: g0)
  case (Cons e es)
  then obtain g1 where "gateway_step pr pv env e g0 = Inr g1"
    "run_events (gateway_step pr pv env) es g1 = Inr g" by (auto simp: bindR_eq_Inr)
  with Cons.prems(1) Cons.IH[of g1] gateway_step_dry[OF assms(1), of e pr env g0 g1] show ?case
    by fastforce
qed simp

definition fx_dry_env ::
    "(batch_params, bytes \<times> batch_params, (bytes \<times> batch_params) \<times> bytes \<times> u96) proposer_env" where
  "fx_dry_env = ex_proposer_env\<lparr>pv_config := (pv_config ex_proposer_env)\<lparr>pc_dry_run := True\<rparr>\<rparr>"

theorem dry_run_pending_never_falls_witness:
  "\<exists>g. run_events (gateway_step fx_params fx_dry_env ex_resync_env)
       [Propose (Attempts []), Propose (Attempts [])] fx_gateway = Inr g \<and>
     gw_taken g = 2 \<and> current_pending (sq_shared (gw_seq g)) = 2"
proof -
  have dry: "pc_dry_run (pv_config fx_dry_env)" by (simp add: fx_dry_env_def)
  obtain g where g: "run_events (gateway_step fx_params fx_dry_env ex_resync_env)
      [Propose (Attempts []), Propose (Attempts [])] fx_gateway = Inr g" "gw_taken g = 2"
      "sp_proposer_tx (sq_spine (gw_seq g)) = sp_proposer_tx (sq_spine (gw_seq fx_gateway))"
    by (simp add: fx_gateway_def propose_batch_def dry)
  have "\<forall>e \<in> set [Propose (Attempts []), Propose (Attempts [] :: _ request_script)]. \<nexists>tries. e = Propose (Tries tries)"
    by simp
  from dry_run_pending_never_falls[OF dry this g(1)] g(2,3) g(1) show ?thesis
    by (auto simp: fx_gateway_def current_pending_def)
qed

end
