(* ===== verification/Gw_Config.thy ===== *)
theory Gw_Config
  imports Resync_Plan Complex_Main
begin

text \<open>
  The configuration, \<open>crates/common/src/config.rs\<close>: the file's data, its validation, and the
  configurations of the components that are made from it.

  Urls and paths are strings.  A 64-bit float is a rational or one of the special values, which is
  enough to compare; the rounding of float arithmetic is in \<open>float_ops\<close>.  Reading the file and the
  environment is left out; \<open>url_helper\<close> is what the parser of a list of urls has read.
\<close>

subsection \<open>Floats\<close>

datatype f64 = Finite rat | PosInf | NegInf | NaN

fun f64_le :: "f64 \<Rightarrow> f64 \<Rightarrow> bool" where
  "f64_le NaN y = False"
| "f64_le x NaN = False"
| "f64_le NegInf y = True"
| "f64_le x PosInf = True"
| "f64_le (Finite a) (Finite b) = (a \<le> b)"
| "f64_le _ _ = False"

fun f64_less :: "f64 \<Rightarrow> f64 \<Rightarrow> bool" where
  "f64_less NaN y = False"
| "f64_less x NaN = False"
| "f64_less NegInf y = (y \<noteq> NegInf)"
| "f64_less x PosInf = (x \<noteq> PosInf)"
| "f64_less (Finite a) (Finite b) = (a < b)"
| "f64_less _ _ = False"

text \<open>The comparison operators; NaN is not even equal to itself in their sense.\<close>

instantiation f64 :: ord
begin

definition less_eq_f64 :: "f64 \<Rightarrow> f64 \<Rightarrow> bool" where
  "less_eq_f64 = f64_le"

definition less_f64 :: "f64 \<Rightarrow> f64 \<Rightarrow> bool" where
  "less_f64 = f64_less"

instance ..

end

lemma f64_compare [simp]:
  "(Finite a \<le> Finite b) = (a \<le> b)" "(Finite a < Finite b) = (a < b)"
  "\<not> NaN \<le> x" "\<not> x \<le> NaN" "\<not> NaN < x" "\<not> x < NaN"
  "Finite a \<le> PosInf" "\<not> PosInf < Finite b" "\<not> Finite a \<le> NegInf" "NegInf < Finite b"
  by (cases x; simp add: less_eq_f64_def less_f64_def)+

text \<open>\<open>fo_micros\<close> is \<open>(x * 1000000.0).ceil()\<close> and \<open>fo_scaled\<close> multiplication by \<open>1e18\<close>, both as a
  256-bit integer (the conversion panics on negative values and NaN); \<open>fo_through\<close> is a 256-bit
  integer converted to a float and back; \<open>fo_gwei\<close> is the rounded multiplication by \<open>1e9\<close>.\<close>

record float_ops =
  fo_micros :: "f64 \<Rightarrow> b256 run"
  fo_scaled :: "f64 \<Rightarrow> b256 run"
  fo_through :: "b256 \<Rightarrow> b256 run"
  fo_gwei :: "f64 \<Rightarrow> u128"

subsection \<open>Lists of urls\<close>

type_synonym url = string
type_synonym urls = "url list"

datatype url_helper = One url | Many "url list"

definition urls_from :: "url \<Rightarrow> urls" where
  "urls_from url = [url]"

definition deserialize_urls :: "url_helper \<Rightarrow> urls eyre" where
  "deserialize_urls helper =
     (case helper of
        One url \<Rightarrow> Inr [url]
      | Many urls \<Rightarrow> if urls = [] then Inl ''cannot be an empty vector'' else Inr urls)"

definition serialize_urls :: "urls \<Rightarrow> url_helper" where
  "serialize_urls urls = (if length urls = 1 then One (urls ! 0) else Many urls)"

fun join_urls :: "url list \<Rightarrow> string" where
  "join_urls [] = []"
| "join_urls [url] = url"
| "join_urls (url # urls) = url @ '', '' @ join_urls urls"

definition show_urls :: "urls \<Rightarrow> string" where
  "show_urls urls = (if length urls = 1 then urls ! 0 else ''['' @ join_urls urls @ '']'')"

subsection \<open>The file\<close>

record l1_chain_config =
  l1c_name :: string
  l1c_rpc_url :: url
  l1c_ws_url :: url
  l1c_beacon_url :: url
  l1c_send_tx_rpc_url :: "url option"
  l1c_osaka_fork_info :: "osaka_fork_info option"

record l2_chain_config =
  l2c_name :: string
  l2c_rpc_url :: urls
  l2c_ws_url :: urls
  l2c_taiko_token :: address
  l2c_l1_contract :: address
  l2c_l2_contract :: address
  l2c_router_contract :: address
  l2c_whitelist_contract :: address
  l2c_wrapper_contract :: address

record lookahead_config =
  lc_handover_window_slots :: u64
  lc_handover_start_buffer_ms :: u64

record gateway_config =
  gc_rpc_port :: u16
  gc_simulator_url :: url
  gc_l2_target_block_time_ms :: u64
  gc_dry_run :: bool
  gc_l1_delay_secs :: u64
  gc_l1_safe_lag :: u64
  gc_anchor_batch_lag :: u64
  gc_soft_block_url :: url
  gc_status_url :: url
  gc_lookahead :: lookahead_config
  gc_jwt_secret_path :: string
  gc_coinbase :: address
  gc_max_sims_per_loop :: usize
  gc_throttle_queue_target :: usize
  gc_throttle_factor :: f64
  gc_blob_target :: usize
  gc_min_priority_fee :: f64
  gc_min_orders_before_seal :: u64
  gc_max_block_skips :: u64
  gc_n_batches_bond_threshold :: u64
  gc_auto_deposit_bond_enabled :: bool
  gc_auto_deposit_bond_factor :: f64
  gc_alert_eth_balance_threshold :: f64
  gc_alert_total_token_threshold :: f64
  gc_prover_address :: "address option"
  gc_alert_prover_balance_threshold :: f64
  gc_builder_url :: "url option"
  gc_builder_wait_receipt_blocks :: u64

record static_config =
  st_app_id :: string
  st_l1 :: l1_chain_config
  st_l2 :: l2_chain_config
  st_gateway :: gateway_config

definition validate :: "static_config \<Rightarrow> unit eyre" where
  "validate config =
     bindR (ensureR (Finite 0 \<le> gc_throttle_factor (st_gateway config) \<and>
                     gc_throttle_factor (st_gateway config) < Finite 1)
              ''throttle_factor must be between 0.0 and 1.0'') (\<lambda>_.
       ensureR (\<not> gc_auto_deposit_bond_enabled (st_gateway config) \<or>
                Finite 1 \<le> gc_auto_deposit_bond_factor (st_gateway config))
         ''auto_deposit_bond_factor must be >= 1.0 if auto_deposit_bond_enabled is true'')"

subsection \<open>The configurations of the components\<close>

record rpc_config =
  rc_port :: u16
  rc_rpc_url :: urls
  rc_ws_url :: urls

definition rpc_config_from :: "static_config \<Rightarrow> rpc_config" where
  "rpc_config_from config =
     \<lparr>rc_port = gc_rpc_port (st_gateway config), rc_rpc_url = l2c_rpc_url (st_l2 config),
      rc_ws_url = l2c_ws_url (st_l2 config)\<rparr>"

definition blob_target_size :: "gateway_config \<Rightarrow> usize" where
  "blob_target_size gateway = gc_blob_target gateway * BLOBS_SAFE_SIZE"

text \<open>The configuration of the sequencer in two parts: what the loop reads, and below it the rest,
  which the services of the sequencer read.\<close>

definition sequencer_config_from :: "static_config \<Rightarrow> address \<Rightarrow> sequencer_config" where
  "sequencer_config_from config operator_address =
     (let gateway = st_gateway config in
      \<lparr>sc_target_block_time = from_millis (unat (gc_l2_target_block_time_ms gateway)),
       sc_coinbase_address = gc_coinbase gateway, sc_operator_address = operator_address,
       sc_l1_delay = from_secs (unat (gc_l1_delay_secs gateway)),
       sc_l1_safe_lag = gc_l1_safe_lag gateway, sc_anchor_batch_lag = gc_anchor_batch_lag gateway,
       sc_max_sims_per_loop = gc_max_sims_per_loop gateway,
       sc_throttle_queue_target = gc_throttle_queue_target gateway,
       sc_batch_target_size = blob_target_size gateway,
       sc_min_orders_before_seal = gc_min_orders_before_seal gateway,
       sc_max_block_skips = gc_max_block_skips gateway\<rparr>)"

record services_config =
  sv_simulator_url :: url
  sv_soft_block_url :: url
  sv_status_url :: url
  sv_jwt_secret :: bytes
  sv_throttle_factor :: f64

definition services_config_from :: "static_config \<Rightarrow> bytes \<Rightarrow> services_config" where
  "services_config_from config jwt_secret =
     (let gateway = st_gateway config in
      \<lparr>sv_simulator_url = gc_simulator_url gateway, sv_soft_block_url = gc_soft_block_url gateway,
       sv_status_url = gc_status_url gateway, sv_jwt_secret = jwt_secret,
       sv_throttle_factor = gc_throttle_factor gateway\<rparr>)"

definition proposer_config_from :: "float_ops \<Rightarrow> static_config \<Rightarrow> proposer_config" where
  "proposer_config_from fo config =
     (let gateway = st_gateway config in
      \<lparr>pc_coinbase = gc_coinbase gateway, pc_dry_run = gc_dry_run gateway,
       pc_batch_target_size = blob_target_size gateway,
       pc_min_priority_fee = fo_gwei fo (gc_min_priority_fee gateway),
       pc_builder = (gc_builder_url gateway \<noteq> None),
       pc_builder_wait_receipt_blocks = gc_builder_wait_receipt_blocks gateway,
       pc_osaka_fork_info = l1c_osaka_fork_info (st_l1 config)\<rparr>)"

text \<open>The delay before the reorg check.\<close>

definition reorg_check_delay :: "static_config \<Rightarrow> duration" where
  "reorg_check_delay config = from_secs (unat (gc_l1_safe_lag (st_gateway config) * 12))"

record taiko_config =
  tk_preconf_url :: url
  tk_config :: l2_chain_config
  tk_params :: taiko_chain_params

definition taiko_config_new :: "static_config \<Rightarrow> taiko_chain_params \<Rightarrow> taiko_config" where
  "taiko_config_new config chain_config =
     \<lparr>tk_preconf_url = gc_simulator_url (st_gateway config), tk_config = st_l2 config,
      tk_params = chain_config\<rparr>"

subsection \<open>Defaults\<close>

text \<open>The values of the fields that a file may leave out; \<open>None\<close> is a missing field.\<close>

definition or_default :: "'a \<Rightarrow> 'a option \<Rightarrow> 'a" where
  "or_default d field = (case field of None \<Rightarrow> d | Some x \<Rightarrow> x)"

record optional_fields =
  of_blob_target :: "usize option"
  of_min_priority_fee :: "f64 option"
  of_min_orders_before_seal :: "u64 option"
  of_max_block_skips :: "u64 option"
  of_n_batches_bond_threshold :: "u64 option"
  of_auto_deposit_bond_enabled :: "bool option"
  of_auto_deposit_bond_factor :: "f64 option"
  of_alert_eth_balance_threshold :: "f64 option"
  of_alert_total_token_threshold :: "f64 option"
  of_alert_prover_balance_threshold :: "f64 option"
  of_builder_wait_receipt_blocks :: "u64 option"

definition with_defaults :: "optional_fields \<Rightarrow> gateway_config \<Rightarrow> gateway_config" where
  "with_defaults opt gateway = gateway
     \<lparr>gc_blob_target := or_default 3 (of_blob_target opt),
      gc_min_priority_fee := or_default (Finite 1) (of_min_priority_fee opt),
      gc_min_orders_before_seal := or_default 3 (of_min_orders_before_seal opt),
      gc_max_block_skips := or_default 2 (of_max_block_skips opt),
      gc_n_batches_bond_threshold := or_default 200 (of_n_batches_bond_threshold opt),
      gc_auto_deposit_bond_enabled := or_default True (of_auto_deposit_bond_enabled opt),
      gc_auto_deposit_bond_factor := or_default (Finite 2) (of_auto_deposit_bond_factor opt),
      gc_alert_eth_balance_threshold := or_default (Finite (1 / 2)) (of_alert_eth_balance_threshold opt),
      gc_alert_total_token_threshold := or_default (Finite 1000) (of_alert_total_token_threshold opt),
      gc_alert_prover_balance_threshold :=
        or_default (Finite (1 / 2)) (of_alert_prover_balance_threshold opt),
      gc_builder_wait_receipt_blocks := or_default 2 (of_builder_wait_receipt_blocks opt)\<rparr>"

end
