(* ===== verification/Balance.thy ===== *)
theory Balance
  imports Gw_Config
begin

text \<open>
  The operator's balances, \<open>BalanceManager\<close> of \<open>crates/common/src/balance.rs\<close>: the approval and
  deposit of the bond, and the monitor that tops it up and raises alerts.

  The answers of the contracts are inputs.  256-bit integers wrap around, as those of the sources do.
  Metrics and logs are left out.
\<close>

subsection \<open>The bond\<close>

record balance_env =
  be_gateway :: gateway_config
  be_chain :: taiko_chain_params
  be_float :: float_ops

definition get_min_bond :: "balance_env \<Rightarrow> b256" where
  "get_min_bond env =
     cp_bond_base (be_chain env) * ucast (gc_n_batches_bond_threshold (be_gateway env))"

definition deposit_target :: "balance_env \<Rightarrow> b256 run" where
  "deposit_target env =
     bindR (fo_micros (be_float env) (gc_auto_deposit_bond_factor (be_gateway env))) (\<lambda>mul_factor.
     bindR (fo_through (be_float env) (get_min_bond env * mul_factor)) (\<lambda>x. Inr (x div 1000000)))"

text \<open>What is deposited, if anything, and the result; \<open>deposit\<close> is the answer to the deposit.\<close>

definition ensure_contract_balance ::
    "balance_env \<Rightarrow> b256 eyre \<Rightarrow> b256 \<Rightarrow> b256 \<Rightarrow> (b256 option \<times> unit eyre) run" where
  "ensure_contract_balance env deposit token_balance contract_balance =
     (if get_min_bond env \<le> contract_balance then Inr (None, Inr ())
      else bindR (deposit_target env) (\<lambda>target_amount.
        (let amount_to_deposit = saturating_sub target_amount contract_balance
         in if token_balance < amount_to_deposit
            then Inr (None, Inl ''not enough balance to deposit'')
            else Inr (Some amount_to_deposit, bindR deposit (\<lambda>_. Inr ())))))"

record approve_io =
  ap_token_balance :: "b256 eyre"
  ap_contract_balance :: "b256 eyre"
  ap_allowance :: "b256 eyre"
  ap_approve :: "b256 eyre"
  ap_new_allowance :: "b256 eyre"
  ap_deposit :: "b256 eyre"

definition check_and_approve_balance ::
    "balance_env \<Rightarrow> approve_io \<Rightarrow> b256 option eyre run" where
  "check_and_approve_balance env io =
     (case bindR (ap_token_balance io) (\<lambda>token_balance.
           bindR (ap_contract_balance io) (\<lambda>contract_balance.
           bindR (ap_allowance io) (\<lambda>contract_allowance.
           bindR (if contract_allowance < - 1
                  then bindR (ap_approve io) (\<lambda>_. bindR (ap_new_allowance io) (\<lambda>_. Inr ()))
                  else Inr ()) (\<lambda>_. Inr (token_balance, contract_balance))))) of
        Inl e \<Rightarrow> errE e
      | Inr (token_balance, contract_balance) \<Rightarrow>
          bindR (ensure_contract_balance env (ap_deposit io) token_balance contract_balance)
            (\<lambda>(deposited, r). Inr (bindR r (\<lambda>_. Inr deposited))))"

subsection \<open>The monitor\<close>

datatype alert =
    FetchFailed string
  | LowBalance string b256 b256

definition maybe_alert_balance ::
    "string \<Rightarrow> b256 \<Rightarrow> b256 option \<Rightarrow> b256 \<Rightarrow> alert list \<times> b256 option" where
  "maybe_alert_balance label balance previous threshold =
     (if balance < threshold \<and> (case previous of None \<Rightarrow> True | Some p \<Rightarrow> threshold \<le> p)
      then ([LowBalance label balance threshold], Some balance)
      else ([], previous))"

record thresholds =
  th_eth :: b256
  th_token :: b256
  th_prover :: b256

definition monitor_thresholds :: "balance_env \<Rightarrow> thresholds run" where
  "monitor_thresholds env =
     bindR (fo_scaled (be_float env) (gc_alert_eth_balance_threshold (be_gateway env))) (\<lambda>eth.
     bindR (fo_scaled (be_float env) (gc_alert_total_token_threshold (be_gateway env))) (\<lambda>token.
     bindR (fo_scaled (be_float env) (gc_alert_prover_balance_threshold (be_gateway env))) (\<lambda>prover.
       Inr \<lparr>th_eth = eth, th_token = token, th_prover = prover\<rparr>)))"

record monitor_state =
  mo_previous_eth :: "b256 option"
  mo_previous_token :: "b256 option"
  mo_previous_prover :: "b256 option"

definition monitor_new :: monitor_state where
  "monitor_new = \<lparr>mo_previous_eth = None, mo_previous_token = None, mo_previous_prover = None\<rparr>"

record monitor_io =
  mi_eth :: "b256 eyre"
  mi_token :: "b256 eyre"
  mi_contract :: "b256 eyre"
  mi_deposit :: "b256 eyre"
  mi_prover :: "b256 eyre"

fun fetch_alert :: "string \<Rightarrow> b256 eyre \<Rightarrow> alert list" where
  "fetch_alert what (Inl e) = [FetchFailed (''failed to fetch '' @ what @ '': '' @ e)]"
| "fetch_alert what (Inr _) = []"

text \<open>One round: the new state, the deposit and the alerts.\<close>

definition monitor_step ::
    "balance_env \<Rightarrow> thresholds \<Rightarrow> monitor_io \<Rightarrow> monitor_state \<Rightarrow>
     (monitor_state \<times> b256 option \<times> alert list) run" where
  "monitor_step env th io st =
     (let failed = fetch_alert ''ETH balance'' (mi_eth io) @ fetch_alert ''token balance'' (mi_token io) @
            fetch_alert ''token bond'' (mi_contract io);
          (eth_alerts, eth) =
            (case mi_eth io of
               Inr balance \<Rightarrow> maybe_alert_balance ''ETH Balance'' balance (mo_previous_eth st) (th_eth th)
             | Inl _ \<Rightarrow> ([], mo_previous_eth st));
          (token_alerts, token) =
            (case (mi_token io, mi_contract io) of
               (Inr token_balance, Inr contract_balance) \<Rightarrow>
                 maybe_alert_balance ''TAIKO Token'' (token_balance + contract_balance)
                   (mo_previous_token st) (th_token th)
             | _ \<Rightarrow> ([], mo_previous_token st));
          (prover_alerts, prover) =
            (case (gc_prover_address (be_gateway env), mi_prover io) of
               (Some _, Inr balance) \<Rightarrow>
                 maybe_alert_balance ''Prover ETH Balance'' balance (mo_previous_prover st) (th_prover th)
             | _ \<Rightarrow> ([], mo_previous_prover st))
      in bindR (case (mi_token io, mi_contract io) of
                  (Inr token_balance, Inr contract_balance) \<Rightarrow>
                    if gc_auto_deposit_bond_enabled (be_gateway env)
                    then bindR (ensure_contract_balance env (mi_deposit io) token_balance contract_balance)
                           (\<lambda>(deposited, _). Inr deposited)
                    else Inr None
                | _ \<Rightarrow> Inr None)
           (\<lambda>deposited.
             Inr (\<lparr>mo_previous_eth = eth, mo_previous_token = token, mo_previous_prover = prover\<rparr>,
                  deposited, failed @ eth_alerts @ token_alerts @ prover_alerts)))"

fun monitor_rounds ::
    "balance_env \<Rightarrow> thresholds \<Rightarrow> monitor_io list \<Rightarrow> monitor_state \<Rightarrow>
     (monitor_state \<times> b256 option list \<times> alert list) run" where
  "monitor_rounds env th [] st = Inr (st, [], [])"
| "monitor_rounds env th (io # ios) st =
     bindR (monitor_step env th io st) (\<lambda>(st, deposited, alerts).
     bindR (monitor_rounds env th ios st) (\<lambda>(st, ds, as).
       Inr (st, deposited # ds, alerts @ as)))"

definition start_balance_monitor ::
    "balance_env \<Rightarrow> monitor_io list \<Rightarrow> (monitor_state \<times> b256 option list \<times> alert list) run" where
  "start_balance_monitor env ios =
     bindR (monitor_thresholds env) (\<lambda>th. monitor_rounds env th ios monitor_new)"

end
