(* ===== verification/Services.thy ===== *)
theory Services
  imports Seq_Machine Gw_Config
begin

text \<open>
  What the sequencer says to its peers: the body of a soft block and the transaction list in it
  (\<open>soft_block.rs\<close>, \<open>propose.rs\<close>), the authorization of its requests (\<open>jwt.rs\<close>, \<open>start_sequencer\<close>),
  the two HTTP calls of \<open>sequencer.rs\<close>, and the calls of the simulator client (\<open>simulator.rs\<close>).

  Parameters: the RLP and zlib encoders, the signature of a token, decoding of hex and JSON, and the
  answers of the peers.
\<close>

subsection \<open>Transaction lists\<close>

record codec =
  cd_rlp :: "tx_envelope list \<Rightarrow> bytes"
  cd_zlib :: "bytes \<Rightarrow> bytes"

definition encode_and_compress_tx_list :: "codec \<Rightarrow> tx_envelope list \<Rightarrow> bytes" where
  "encode_and_compress_tx_list cd tx_list = cd_zlib cd (cd_rlp cd tx_list)"

definition encode_and_compress_orders :: "codec \<Rightarrow> order list \<Rightarrow> bytes" where
  "encode_and_compress_orders cd orders = encode_and_compress_tx_list cd (map ord_tx orders)"

subsection \<open>Soft blocks\<close>

text \<open>The fields of a header that only soft blocks need.\<close>

record header_rest =
  hr_extra_data :: bytes
  hr_base_fee_per_gas :: "u64 option"

record executable_data =
  ex_parent_hash :: b256
  ex_fee_recipient :: address
  ex_block_number :: u64
  ex_gas_limit :: u64
  ex_timestamp :: u64
  ex_transactions :: bytes
  ex_extra_data :: bytes
  ex_base_fee_per_gas :: u64

record build_preconf_block_request_body =
  rb_executable_data :: executable_data
  rb_end_of_sequencing :: bool

definition request_body_new ::
    "codec \<Rightarrow> block \<Rightarrow> header_rest \<Rightarrow> bool \<Rightarrow> build_preconf_block_request_body run" where
  "request_body_new cd b rest end_of_sequencing =
     (let tx_list = (case as_transactions b of Some txs \<Rightarrow> map snd txs | None \<Rightarrow> []);
          h = blk_header b
      in case hr_base_fee_per_gas rest of
           None \<Rightarrow> Inl ''called `Option::unwrap()` on a `None` value''
         | Some base_fee \<Rightarrow>
             Inr \<lparr>rb_executable_data =
                    \<lparr>ex_parent_hash = hd_parent_hash h, ex_fee_recipient = hd_beneficiary h,
                     ex_block_number = hd_number h, ex_gas_limit = hd_gas_limit h,
                     ex_timestamp = hd_timestamp h,
                     ex_transactions = encode_and_compress_tx_list cd tx_list,
                     ex_extra_data = hr_extra_data rest, ex_base_fee_per_gas = base_fee\<rparr>,
                  rb_end_of_sequencing = end_of_sequencing\<rparr>)"

subsection \<open>Authorization\<close>

record claims =
  cl_sub :: string
  cl_exp :: usize
  cl_iat :: usize
  cl_iss :: string

definition jwt_claims :: "u64 \<Rightarrow> claims" where
  "jwt_claims now = \<lparr>cl_sub = ''soft-block'', cl_exp = now + 36000, cl_iat = now, cl_iss = ''taiko-gateway''\<rparr>"

definition generate_jwt :: "(bytes \<Rightarrow> claims \<Rightarrow> string eyre) \<Rightarrow> u64 \<Rightarrow> bytes \<Rightarrow> string eyre" where
  "generate_jwt encode now secret = encode secret (jwt_claims now)"

text \<open>\<open>trim\<close> on ASCII text.\<close>

definition is_whitespace :: "char \<Rightarrow> bool" where
  "is_whitespace c \<longleftrightarrow> of_char c \<in> {9 :: nat, 10, 11, 12, 13, 32}"

definition trim :: "string \<Rightarrow> string" where
  "trim s = rev (dropWhile is_whitespace (rev (dropWhile is_whitespace s)))"

definition parse_secret_from_file ::
    "(string \<Rightarrow> bytes eyre) \<Rightarrow> (string \<Rightarrow> string eyre) \<Rightarrow> string \<Rightarrow> bytes eyre" where
  "parse_secret_from_file hex_decode read_file jwt_secret_file =
     (if jwt_secret_file = [] then Inl ''JWT secret file path is empty''
      else bindR (read_file jwt_secret_file) (\<lambda>enc.
           case hex_decode (trim enc) of
             Inl e \<Rightarrow> Inl (''Failed to decode JWT secret as hex: '' @ e)
           | Inr secret \<Rightarrow>
               bindR (ensureR (32 \<le> length secret) ''JWT secret should be at least 32 bytes'') (\<lambda>_.
                 Inr secret)))"

text \<open>How \<open>start_sequencer\<close> gets the secret: a failure is only logged.\<close>

definition load_jwt_secret ::
    "(string \<Rightarrow> bytes eyre) \<Rightarrow> (string \<Rightarrow> string eyre) \<Rightarrow> static_config \<Rightarrow> bytes" where
  "load_jwt_secret hex_decode read_file config =
     (let path = gc_jwt_secret_path (st_gateway config) in
      if path \<noteq> []
      then (case parse_secret_from_file hex_decode read_file path of Inr secret \<Rightarrow> secret | Inl _ \<Rightarrow> [])
      else [])"

definition authorization ::
    "(bytes \<Rightarrow> claims \<Rightarrow> string eyre) \<Rightarrow> u64 \<Rightarrow> bytes \<Rightarrow> string option run" where
  "authorization encode now secret =
     (if secret \<noteq> []
      then (case generate_jwt encode now secret of
              Inl e \<Rightarrow> Inl ''called `Result::unwrap()` on an `Err` value''
            | Inr jwt \<Rightarrow> Inr (Some (''Bearer '' @ jwt)))
      else Inr None)"

subsection \<open>The HTTP calls\<close>

text \<open>A request, and its answer: no response, or a status with the text of the body, if it was read.\<close>

record 'b http_request =
  hq_url :: url
  hq_authorization :: "string option"
  hq_body :: 'b

type_synonym http_answer = "string + u16 \<times> string eyre"

definition is_success_status :: "u16 \<Rightarrow> bool" where
  "is_success_status status \<longleftrightarrow> 200 \<le> status \<and> status < 300"

definition gossip_soft_block ::
    "codec \<Rightarrow> (bytes \<Rightarrow> claims \<Rightarrow> string eyre) \<Rightarrow>
     (build_preconf_block_request_body http_request \<Rightarrow> http_answer) \<Rightarrow> services_config \<Rightarrow> u64 \<Rightarrow>
     block \<Rightarrow> header_rest \<Rightarrow> bool \<Rightarrow> (sequencer_error + unit) run" where
  "gossip_soft_block cd encode post config now b rest end_of_sequencing =
     bindR (request_body_new cd b rest end_of_sequencing) (\<lambda>request.
     bindR (authorization encode now (sv_jwt_secret config)) (\<lambda>auth.
       Inr (case post \<lparr>hq_url = sv_soft_block_url config, hq_authorization = auth, hq_body = request\<rparr> of
              Inl e \<Rightarrow> Inl (ReqwestError e)
            | Inr (_, Inl e) \<Rightarrow> Inl (ReqwestError e)
            | Inr (status, Inr body) \<Rightarrow>
                if is_success_status status then Inr () else Inl (SoftBlock status body))))"

definition get_status_block ::
    "(bytes \<Rightarrow> claims \<Rightarrow> string eyre) \<Rightarrow> (string \<Rightarrow> u64 eyre) \<Rightarrow> (unit http_request \<Rightarrow> http_answer) \<Rightarrow>
     services_config \<Rightarrow> u64 \<Rightarrow> (sequencer_error + u64) run" where
  "get_status_block encode from_json get config now =
     bindR (authorization encode now (sv_jwt_secret config)) (\<lambda>auth.
       Inr (case get \<lparr>hq_url = sv_status_url config, hq_authorization = auth, hq_body = ()\<rparr> of
              Inl e \<Rightarrow> Inl (ReqwestError e)
            | Inr (_, Inl e) \<Rightarrow> Inl (ReqwestError e)
            | Inr (status, Inr body) \<Rightarrow>
                if is_success_status status
                then (case from_json body of Inl e \<Rightarrow> Inl (SerdeJsonError e) | Inr n \<Rightarrow> Inr n)
                else Inl (StatusError status body)))"

subsection \<open>The simulator client\<close>

text \<open>A call over JSON-RPC fails with an error object of the server, or otherwise.\<close>

datatype client_error = ErrorObject string | Transport string

fun client_error_into :: "client_error \<Rightarrow> sequencer_error" where
  "client_error_into (ErrorObject msg) = RpcCall msg"
| "client_error_into (Transport msg) = RpcOther msg"

definition client_seal_block ::
    "(state_id \<Rightarrow> client_error + seal_block_response) \<Rightarrow> state_id \<Rightarrow> sequencer_error + seal_block_response" where
  "client_seal_block call st = (case call st of Inl e \<Rightarrow> Inl (client_error_into e) | Inr res \<Rightarrow> Inr res)"

text \<open>The message that the task of a simulation sends; \<open>took\<close> is its duration.\<close>

definition spawn_sim_tx ::
    "(bytes \<Rightarrow> state_id \<Rightarrow> execution_result eyre) \<Rightarrow> duration \<Rightarrow> order \<Rightarrow> state_id \<Rightarrow>
     string + simulated_order" where
  "spawn_sim_tx call took o1 st =
     (case call (ord_raw o1) st of
        Inl err \<Rightarrow> Inl (''failed simulate tx: '' @ err)
      | Inr res \<Rightarrow> Inr \<lparr>so_origin_state_id = st, so_execution_result = res, so_sim_time = took,
                       so_order = o1\<rparr>)"

end
