(* ===== verification/Startup.thy ===== *)
theory Startup
  imports Balance Services Proposer
begin

text \<open>
  How the gateway starts, \<open>run\<close> of \<open>bin/src/main.rs\<close>: the checks of \<open>taiko/checks.rs\<close>, the bond of the
  operator, the slot clock, the first view of the operator schedule, the L1 client of the proposer, and
  the initial state of the sequencer.

  The answers of nodes, contracts and the beacon API are inputs, in the order in which they are asked
  for.  Tasks that only start here are modelled in their own theories.
\<close>

subsection \<open>The chain configuration\<close>

text \<open>The fields of \<open>pacayaConfig\<close> that are used.\<close>

record pacaya_config =
  pk_chain_id :: u64
  pk_liveness_bond_base :: u96
  pk_liveness_bond_per_block :: u96
  pk_base_fee_config :: base_fee_config
  pk_max_anchor_height_offset :: u64
  pk_block_max_gas_limit :: u32
  pk_max_blocks_per_batch :: u16

record chain_answers =
  ca_l1_chain_id :: "u64 eyre"
  ca_l2_chain_id :: "u64 eyre"
  ca_pacaya_config :: "pacaya_config eyre"
  ca_golden_touch :: "address eyre"
  ca_l1_chain_id_in_l2 :: "u64 eyre"
  ca_operator_count :: "u8 eyre"
  ca_operator :: "nat \<Rightarrow> address eyre"

definition assert_eq :: "'a \<Rightarrow> 'a \<Rightarrow> string \<Rightarrow> unit eyre run" where
  "assert_eq a b msg = (if a = b then okE () else Inl (''assertion `left == right` failed: '' @ msg))"

text \<open>The operators of the whitelist are only logged, but a failing call ends the start.\<close>

definition fetch_operators :: "chain_answers \<Rightarrow> address list eyre run" where
  "fetch_operators io =
     bindE (Inr (ca_operator_count io)) (\<lambda>operator_count.
       map_eyre (\<lambda>i. Inr (ca_operator io i)) [0..<unat operator_count])"

definition get_and_validate_config :: "chain_answers \<Rightarrow> taiko_chain_params eyre run" where
  "get_and_validate_config io =
     bindE (Inr (ca_l1_chain_id io)) (\<lambda>l1_chain_id.
     bindE (Inr (ca_l2_chain_id io)) (\<lambda>l2_chain_id.
     bindE (Inr (ca_pacaya_config io)) (\<lambda>config.
     bindE (assert_eq (pk_chain_id config) l2_chain_id ''l2 chain id in l1 contract'') (\<lambda>_.
     bindE (if pk_liveness_bond_per_block config = 0 then okE ()
            else Inl ''Non-zero liveness bond per block not supported'') (\<lambda>_.
     bindE (Inr (ca_golden_touch io)) (\<lambda>golden_touch.
     bindE (assert_eq golden_touch GOLDEN_TOUCH_ADDRESS ''golden touch address'') (\<lambda>_.
     bindE (Inr (ca_l1_chain_id_in_l2 io)) (\<lambda>chain_id.
     bindE (assert_eq chain_id l1_chain_id ''l1 chain id in l2 contract'') (\<lambda>_.
     bindE (fetch_operators io) (\<lambda>operators.
       okE (taiko_chain_params_new l2_chain_id (pk_base_fee_config config)
              (pk_max_anchor_height_offset config) (ucast (pk_block_max_gas_limit config))
              (ucast (pk_liveness_bond_base config)) (ucast (pk_liveness_bond_per_block config))
              (ucast (pk_max_blocks_per_batch config)))))))))))))"

subsection \<open>The slot clock\<close>

record spec =
  spec_seconds_per_slot :: u64
  spec_slots_per_epoch :: u64

definition init_beacon :: "spec eyre \<Rightarrow> u64 eyre \<Rightarrow> beacon_handle eyre run" where
  "init_beacon spec_answer genesis_answer =
     bindE (Inr spec_answer) (\<lambda>spec.
     bindE (Inr genesis_answer) (\<lambda>genesis_time.
       okE (beacon_new (spec_slots_per_epoch spec) genesis_time (spec_seconds_per_slot spec))))"

subsection \<open>The operator schedule\<close>

text \<open>The wait for a block of the current epoch.  An input is the time of a round and the timestamp of the
  latest block; the answer says whether the wait has ended.\<close>

fun wait_for_block :: "beacon_handle \<Rightarrow> (u64 \<times> u64 option eyre) list \<Rightarrow> bool eyre run" where
  "wait_for_block b [] = okE False"
| "wait_for_block b ((utc, answer) # rounds) =
     bindR (current_epoch utc b) (\<lambda>_.
       case answer of
         Inl e \<Rightarrow> errE e
       | Inr None \<Rightarrow> Inl ''missing last block in lookahead!''
       | Inr (Some timestamp) \<Rightarrow>
           bindR (has_block_in_epoch b utc timestamp) (\<lambda>found.
             if found then okE True else wait_for_block b rounds))"

text \<open>What the loops for the router and the handover window have done so far; a panic ends only the task
  that it happens in, and leaves the shared window as it is.\<close>

fun handover_rounds ::
    "beacon_handle \<Rightarrow> (u64 \<times> 256 word option) list \<Rightarrow> handover_loop \<Rightarrow> handover_loop" where
  "handover_rounds b [] hl = hl"
| "handover_rounds b ((utc, answer) # rounds) hl =
     (case handover_step b utc answer hl of
        Inl _ \<Rightarrow> hl
      | Inr hl \<Rightarrow> handover_rounds b rounds hl)"

record lookahead_answers =
  li_routers :: "address option list"
  li_handovers :: "(u64 \<times> 256 word option) list"
  li_blocks :: "(u64 \<times> u64 option eyre) list"
  li_curr :: whitelist_answer
  li_next :: whitelist_answer
  li_utc :: u64
  li_now :: instant

text \<open>\<open>None\<close>: still waiting.\<close>

definition start_lookahead_loop ::
    "beacon_handle \<Rightarrow> lookahead_config \<Rightarrow> lookahead_answers \<Rightarrow> lookahead_handle option eyre run" where
  "start_lookahead_loop b config io =
     (let router = fold router_step (li_routers io) router_loop_new;
          handover = handover_rounds b (li_handovers io) (handover_loop_new (lc_handover_window_slots config))
      in bindE (wait_for_block b (li_blocks io)) (\<lambda>ready.
           if \<not> ready then okE None
           else (case li_curr io of
                   Operator _ \<Rightarrow>
                     bindR (initial_lookahead b (li_utc io) (li_curr io) (li_next io)) (\<lambda>la.
                       okE (Some (lookahead_handle_new (li_now io) la (rl_preconfs_enabled router)
                             (hl_window_slots handover) (lc_handover_start_buffer_ms config) b)))
                 | _ \<Rightarrow> errE ''getOperatorForCurrentEpoch failed'')))"

subsection \<open>The start\<close>

record start_answers =
  sa_chain :: chain_answers
  sa_approve :: approve_io
  sa_spec :: "spec eyre"
  sa_genesis :: "u64 eyre"
  sa_lookahead :: lookahead_answers
  sa_client_chain_id :: "u64 eyre"
  sa_read_file :: "string \<Rightarrow> string eyre"
  sa_now :: instant

text \<open>\<open>L1Client::new\<close>.\<close>

definition l1_client_new :: "u64 eyre \<Rightarrow> static_config \<Rightarrow> l1_client eyre run" where
  "l1_client_new chain_id_answer config =
     bindE (Inr chain_id_answer) (\<lambda>chain_id.
       okE \<lparr>l1_chain_id = chain_id, l1_router_address = l2c_router_contract (st_l2 config),
            l1_osaka_fork_info = l1c_osaka_fork_info (st_l1 config)\<rparr>)"

text \<open>The proposer with its configuration; \<open>proposer_lib\<close> holds the third-party code that it calls.\<close>

record ('p, 'q, 'c) proposer_lib =
  pl_abi :: "('p, 'q, 'c) abi"
  pl_kzg :: kzg
  pl_max_blobs :: nat
  pl_codec :: codec
  pl_revert :: revert_io
  pl_encoded_2718 :: "tx_envelope \<Rightarrow> bytes"

definition start_proposer ::
    "('p, 'q, 'c) proposer_lib \<Rightarrow> float_ops \<Rightarrow> static_config \<Rightarrow> taiko_config \<Rightarrow> address \<Rightarrow> u64 eyre \<Rightarrow>
     beacon_handle \<Rightarrow> lookahead_handle \<Rightarrow> (('p, 'q, 'c) proposer_env \<times> resync_env) eyre run" where
  "start_proposer lib fo config taiko_config signer chain_id_answer beacon la =
     (let proposer_config = proposer_config_from fo config;
          compress = encode_and_compress_orders (pl_codec lib)
      in bindE (l1_client_new chain_id_answer config) (\<lambda>includer.
           okE (\<lparr>pv_config = proposer_config, pv_client = includer, pv_address = signer,
                 pv_abi = pl_abi lib, pv_kzg = pl_kzg lib, pv_max_blobs = pl_max_blobs lib,
                 pv_compress = compress, pv_revert = pl_revert lib,
                 pv_window = lh_handover_window_slots la\<rparr>,
                \<lparr>ry_config = proposer_config, ry_chain = tk_params taiko_config, ry_beacon = beacon,
                 ry_safe_l1_lag = gc_l1_safe_lag (st_gateway config), ry_enc = pl_encoded_2718 lib,
                 ry_compress = compress\<rparr>)))"

record ('p, 'q, 'c) started =
  go_deposited :: "b256 option"
  go_taiko_config :: taiko_config
  go_proposer :: "('p, 'q, 'c) proposer_env"
  go_resync :: resync_env
  go_services :: services_config
  go_rpc_config :: rpc_config
  go_sequencer :: sequencer

definition start_sequencer ::
    "(string \<Rightarrow> bytes eyre) \<Rightarrow> start_answers \<Rightarrow> static_config \<Rightarrow> taiko_config \<Rightarrow> lookahead_handle \<Rightarrow>
     address \<Rightarrow> services_config \<times> sequencer" where
  "start_sequencer hex_decode io config taiko_config la operator_address =
     (services_config_from config (load_jwt_secret hex_decode (sa_read_file io) config),
      sequencer_new (sa_now io) (sequencer_config_from config operator_address)
        (tk_params taiko_config) (l2c_l2_contract (tk_config taiko_config)) la 0 0 shared_flags_new)"

definition prefix_err :: "string \<Rightarrow> 'a eyre run \<Rightarrow> 'a eyre run" where
  "prefix_err prefix m = bindR m (\<lambda>r. Inr (case r of Inl e \<Rightarrow> Inl (prefix @ e) | Inr x \<Rightarrow> Inr x))"

definition run_gateway ::
    "('p, 'q, 'c) proposer_lib \<Rightarrow> float_ops \<Rightarrow> (string \<Rightarrow> bytes eyre) \<Rightarrow> static_config \<Rightarrow> address \<Rightarrow>
     start_answers \<Rightarrow> ('p, 'q, 'c) started option eyre run" where
  "run_gateway lib fo hex_decode config operator_address io =
     bindE (Inr (validate config)) (\<lambda>_.
     bindE (prefix_err ''get config: '' (get_and_validate_config (sa_chain io))) (\<lambda>chain_config.
     bindE (prefix_err ''balance checks: ''
              (check_and_approve_balance
                 \<lparr>be_gateway = st_gateway config, be_chain = chain_config, be_float = fo\<rparr> (sa_approve io)))
       (\<lambda>deposited.
     bindE (init_beacon (sa_spec io) (sa_genesis io)) (\<lambda>beacon.
     bindE (prefix_err ''lookahead init: ''
              (start_lookahead_loop beacon (gc_lookahead (st_gateway config)) (sa_lookahead io))) (\<lambda>la.
       case la of
         None \<Rightarrow> okE None
       | Some la \<Rightarrow>
           (let taiko_config = taiko_config_new config chain_config in
            bindE (prefix_err ''proposer init: ''
                     (start_proposer lib fo config taiko_config operator_address
                        (sa_client_chain_id io) beacon la)) (\<lambda>(proposer, resync).
              (let (services, sequencer) =
                     start_sequencer hex_decode io config taiko_config la operator_address
               in okE (Some \<lparr>go_deposited = deposited, go_taiko_config = taiko_config,
                             go_proposer = proposer, go_resync = resync,
                             go_services = services, go_rpc_config = rpc_config_from config,
                             go_sequencer = sequencer\<rparr>)))))))))"

end
