(* ===== verification/Config_Props.thy ===== *)
theory Config_Props
  imports Gw_Config
begin

text \<open>
  What the start-up checks of the configuration guarantee, and a configuration for the witnesses.
\<close>

subsection \<open>A configuration\<close>

definition fx_gateway_config :: gateway_config where
  "fx_gateway_config =
     \<lparr>gc_rpc_port = 8545, gc_simulator_url = ''sim'', gc_l2_target_block_time_ms = 2000, gc_dry_run = False,
      gc_l1_delay_secs = 100, gc_l1_safe_lag = 4, gc_anchor_batch_lag = 8, gc_soft_block_url = ''soft'',
      gc_status_url = ''status'',
      gc_lookahead = \<lparr>lc_handover_window_slots = 4, lc_handover_start_buffer_ms = 6000\<rparr>,
      gc_jwt_secret_path = [], gc_coinbase = 9, gc_max_sims_per_loop = 4, gc_throttle_queue_target = 2,
      gc_throttle_factor = Finite (1 / 2), gc_blob_target = 3, gc_min_priority_fee = Finite 1,
      gc_min_orders_before_seal = 3, gc_max_block_skips = 2, gc_n_batches_bond_threshold = 200,
      gc_auto_deposit_bond_enabled = True, gc_auto_deposit_bond_factor = Finite 2,
      gc_alert_eth_balance_threshold = Finite (1 / 2), gc_alert_total_token_threshold = Finite 1000,
      gc_prover_address = None, gc_alert_prover_balance_threshold = Finite (1 / 2),
      gc_builder_url = None, gc_builder_wait_receipt_blocks = 2\<rparr>"

definition fx_static :: static_config where
  "fx_static =
     \<lparr>st_app_id = ''gw'',
      st_l1 = \<lparr>l1c_name = ''l1'', l1c_rpc_url = ''l1'', l1c_ws_url = ''l1ws'', l1c_beacon_url = ''beacon'',
               l1c_send_tx_rpc_url = None, l1c_osaka_fork_info = None\<rparr>,
      st_l2 = \<lparr>l2c_name = ''l2'', l2c_rpc_url = [''l2''], l2c_ws_url = [''l2ws''], l2c_taiko_token = 21,
               l2c_l1_contract = 22, l2c_l2_contract = 23, l2c_router_contract = 24,
               l2c_whitelist_contract = 25, l2c_wrapper_contract = 26\<rparr>,
      st_gateway = fx_gateway_config\<rparr>"

text \<open>Floats that are exact: multiplication in \<open>rat\<close>, and conversions that keep the value.\<close>

definition fx_floats :: float_ops where
  "fx_floats =
     \<lparr>fo_micros = (\<lambda>x. case x of Finite r \<Rightarrow> Inr (of_int (ceiling (r * 1000000))) | _ \<Rightarrow> Inl ''float''),
      fo_scaled = (\<lambda>x. case x of Finite r \<Rightarrow> Inr (of_int (floor (r * 1000000000000000000))) | _ \<Rightarrow> Inl ''float''),
      fo_through = Inr,
      fo_gwei = (\<lambda>x. case x of Finite r \<Rightarrow> of_int (floor (r * 1000000000)) | _ \<Rightarrow> 0)\<rparr>"

subsection \<open>Validation\<close>

lemma f64_between: "Finite a \<le> x \<and> x < Finite b \<longleftrightarrow> (\<exists>r. x = Finite r \<and> a \<le> r \<and> r < b)"
  by (cases x) auto

lemma f64_at_least: "Finite a \<le> x \<longleftrightarrow> x = PosInf \<or> (\<exists>r. x = Finite r \<and> a \<le> r)"
  by (cases x) auto

text \<open>Validation accepts exactly the configurations whose throttle factor is a number from 0 to below 1
  and which, if deposits are automatic, have a deposit factor of at least 1; infinity and NaN are never
  throttle factors, but infinity is accepted as deposit factor.\<close>

theorem validate_iff:
  "validate config = Inr () \<longleftrightarrow>
     (\<exists>r. gc_throttle_factor (st_gateway config) = Finite r \<and> 0 \<le> r \<and> r < 1) \<and>
     (gc_auto_deposit_bond_enabled (st_gateway config) \<longrightarrow>
        gc_auto_deposit_bond_factor (st_gateway config) = PosInf \<or>
        (\<exists>r. gc_auto_deposit_bond_factor (st_gateway config) = Finite r \<and> 1 \<le> r))"
  by (auto simp: validate_def bindR_eq_Inr f64_between f64_at_least)

text \<open>A list of urls that was read is never empty, so that the first url, which all clients use, exists;
  written and read again it is the same list, and a single url is written without brackets.\<close>

theorem urls_nonempty_roundtrip:
  assumes "deserialize_urls helper = Inr urls"
  shows "urls \<noteq> [] \<and> deserialize_urls (serialize_urls urls) = Inr urls \<and>
    (length urls = 1 \<longrightarrow> show_urls urls = hd urls)"
  using assms
  by (cases urls) (auto simp: deserialize_urls_def serialize_urls_def show_urls_def
      split: url_helper.splits if_splits)

theorem urls_nonempty_roundtrip_witness:
  "deserialize_urls (Many [''a'', ''b'']) = Inr [''a'', ''b''] \<and>
   deserialize_urls (serialize_urls [''a'', ''b'']) = Inr [''a'', ''b'']"
proof -
  have "deserialize_urls (Many [''a'', ''b'']) = Inr [''a'', ''b'']" by (simp add: deserialize_urls_def)
  with urls_nonempty_roundtrip[OF this] show ?thesis by simp
qed

end
