(* ===== verification/Balance_Props.thy ===== *)
theory Balance_Props
  imports Balance Config_Props
begin

text \<open>
  What the monitor does: a deposit brings the bond up to the minimum, and a balance is reported as
  low at most once.
\<close>

subsection \<open>Deposits\<close>

text \<open>\<open>through\<close> loses at most one part in \<open>2 ^ 53\<close>, as rounding to a 53 bit mantissa does.\<close>

definition nearly_exact :: "(b256 \<Rightarrow> b256 run) \<Rightarrow> bool" where
  "nearly_exact through \<longleftrightarrow>
     (\<forall>x y. through x = Inr y \<longrightarrow> unat x - unat x div 2 ^ 53 \<le> unat y)"

lemma loss_mono:
  fixes a b N :: nat
  assumes "a \<le> b" "0 < N"
  shows "a - a div N \<le> b - b div N"
proof -
  obtain d where b: "b = a + d" using assms(1) le_Suc_ex by blast
  have "(a + d) div N \<le> (a + d * N) div N" using assms(2) by (intro div_le_mono) simp
  also have "\<dots> = a div N + d" using assms(2) by simp
  finally show ?thesis by (simp add: b)
qed

lemma target_covers:
  fixes threshold mul_factor x :: b256
  assumes "unat threshold * unat mul_factor < 2 ^ 256" "1000000 < unat mul_factor"
    and "unat (threshold * mul_factor) - unat (threshold * mul_factor) div 2 ^ 53 \<le> unat x"
  shows "threshold \<le> x div 1000000"
proof -
  let ?t = "unat threshold" and ?m = "unat mul_factor"
  have prod: "unat (threshold * mul_factor) = ?t * ?m" using assms(1) by (subst unat_times_exact) simp_all
  have "?t * 1000001 \<le> ?t * ?m" using assms(2) by (intro mult_le_mono2) simp
  from loss_mono[OF this, of "2 ^ 53"]
  have "?t * 1000001 - ?t * 1000001 div 2 ^ 53 \<le> ?t * ?m - ?t * ?m div 2 ^ 53" by simp
  moreover have "?t * 1000001 div 2 ^ 53 \<le> ?t * 2 ^ 53 div 2 ^ 53" by (intro div_le_mono mult_le_mono2) simp
  ultimately have "?t * 1000000 \<le> ?t * ?m - ?t * ?m div 2 ^ 53" by simp
  with assms(3) prod have "?t * 1000000 \<le> unat x" by simp
  then have "?t \<le> unat x div 1000000" by (simp add: less_eq_div_iff_mult_less_eq)
  then show ?thesis by (simp add: word_le_nat_alt unat_div)
qed

text \<open>C34: A deposit restores the bond: if the bond is below the minimum and a deposit is made, bond and
  deposit together reach the minimum and the wallet holds the deposit, provided that the deposit
  factor is above one, the product does not overflow and the conversion through a float is as exact as a
  53 bit mantissa is.\<close>

theorem deposit_reaches_bond:
  assumes "ensure_contract_balance env deposit token_balance contract_balance = Inr (Some amount, r)"
    and "fo_micros (be_float env) (gc_auto_deposit_bond_factor (be_gateway env)) = Inr mul_factor"
    and "1000000 < unat mul_factor" "unat (get_min_bond env) * unat mul_factor < 2 ^ 256"
    and "nearly_exact (fo_through (be_float env))"
  shows "contract_balance < get_min_bond env \<and> amount \<le> token_balance \<and>
    unat (get_min_bond env) \<le> unat contract_balance + unat amount"
proof -
  obtain x where x: "fo_through (be_float env) (get_min_bond env * mul_factor) = Inr x"
    "amount = saturating_sub (x div 1000000) contract_balance" "amount \<le> token_balance"
    "contract_balance < get_min_bond env"
    using assms(1,2)
    by (auto simp: ensure_contract_balance_def deposit_target_def bindR_eq_Inr Let_def not_le not_less
        split: if_splits)
  have "get_min_bond env \<le> x div 1000000"
    using target_covers[OF assms(4,3)] assms(5) x(1) by (simp add: nearly_exact_def)
  with x show ?thesis by (simp add: unat_saturating_sub word_le_nat_alt)
qed

text \<open>A chain whose bond is one token, so that the minimum is 200 tokens of \<open>10 ^ 18\<close>.\<close>

definition fx_bond_env :: balance_env where
  "fx_bond_env =
     \<lparr>be_gateway = fx_gateway_config,
      be_chain = taiko_chain_params_new 167
        \<lparr>bf_adjustment_quotient = 8, bf_sharing_pctg = 75, bf_gas_issuance_per_second = 5000000,
         bf_min_gas_excess = 1340000000, bf_max_gas_issuance_per_block = 600000000\<rparr>
        64 240000000 1000000000000000000 0 768,
      be_float = fx_floats\<rparr>"

lemma fx_min_bond: "get_min_bond fx_bond_env = 200000000000000000000"
  by (simp add: get_min_bond_def fx_bond_env_def fx_gateway_config_def taiko_chain_params_new_def)

lemma fx_env_fields [simp]:
  "gc_auto_deposit_bond_enabled (be_gateway fx_bond_env)" "gc_prover_address (be_gateway fx_bond_env) = None"
  by (simp_all add: fx_bond_env_def fx_gateway_config_def)

lemma fx_factor: "fo_micros (be_float fx_bond_env) (gc_auto_deposit_bond_factor (be_gateway fx_bond_env)) = Inr 2000000"
  by (simp add: fx_bond_env_def fx_floats_def fx_gateway_config_def)

lemma fx_through: "fo_through (be_float fx_bond_env) = Inr"
  by (simp add: fx_bond_env_def fx_floats_def)

lemma fx_target: "deposit_target fx_bond_env = Inr 400000000000000000000"
  by (simp add: deposit_target_def fx_factor fx_through fx_min_bond)

theorem deposit_reaches_bond_witness:
  "\<exists>amount. ensure_contract_balance fx_bond_env (Inr 1) (10 ^ 21) 5 = Inr (Some amount, Inr ()) \<and>
     unat (get_min_bond fx_bond_env) \<le> unat (5 :: b256) + unat amount"
proof -
  have run: "ensure_contract_balance fx_bond_env (Inr 1) (10 ^ 21) 5 =
      Inr (Some 399999999999999999995, Inr ())"
    by (simp add: ensure_contract_balance_def fx_min_bond fx_target saturating_sub_def)
  have "nearly_exact (fo_through (be_float fx_bond_env))" by (simp add: nearly_exact_def fx_through)
  from deposit_reaches_bond[OF run fx_factor _ _ this] run show ?thesis by (simp add: fx_min_bond)
qed

text \<open>Why the factor must be above one: with a factor of exactly one, which validation accepts, and a
  conversion that rounds down, the deposit falls short, and so does every later round.\<close>

lemma factor_one_falls_short:
  assumes "fo_micros (be_float env) (gc_auto_deposit_bond_factor (be_gateway env)) = Inr 1000000"
    and "fo_through (be_float env) (get_min_bond env * 1000000) = Inr x" "x div 1000000 < get_min_bond env"
    and "ensure_contract_balance env deposit token_balance contract_balance = Inr (Some amount, r)"
    and "contract_balance \<le> x div 1000000"
  shows "contract_balance + amount < get_min_bond env"
proof -
  have "amount = saturating_sub (x div 1000000) contract_balance"
    using assms(1,2,4)
    by (auto simp: ensure_contract_balance_def deposit_target_def bindR_eq_Inr Let_def split: if_splits)
  with assms(3,5) show ?thesis by (simp add: saturating_sub_def)
qed

subsection \<open>Alerts\<close>

definition is_low :: "string \<Rightarrow> alert \<Rightarrow> bool" where
  "is_low label a \<longleftrightarrow> (\<exists>b t. a = LowBalance label b t)"

lemma is_low_simps [simp]:
  "is_low label (FetchFailed e) = False" "is_low label (LowBalance l b t) = (l = label)"
  by (simp_all add: is_low_def)

lemma maybe_alert_cases:
  assumes "maybe_alert_balance label balance previous threshold = (alerts, previous')"
    and "\<forall>p. previous = Some p \<longrightarrow> p < threshold"
  shows "(\<forall>p. previous' = Some p \<longrightarrow> p < threshold) \<and>
    length (filter (is_low l) alerts) = (if l = label \<and> previous = None \<and> previous' \<noteq> None then 1 else 0) \<and>
    (previous \<noteq> None \<longrightarrow> previous' \<noteq> None)"
  using assms by (cases previous) (auto simp: maybe_alert_balance_def not_le split: if_splits)

lemma no_alert_cases:
  assumes "alerts = [] \<and> previous' = previous" "\<forall>p. previous = Some p \<longrightarrow> p < threshold"
  shows "(\<forall>p. previous' = Some p \<longrightarrow> p < threshold) \<and>
    length (filter (is_low l) alerts) = (if l = label \<and> previous = None \<and> previous' \<noteq> None then 1 else 0) \<and>
    (previous \<noteq> None \<longrightarrow> previous' \<noteq> None)"
  using assms by (cases previous) auto

definition reported :: "string \<Rightarrow> monitor_state \<Rightarrow> bool" where
  "reported label st \<longleftrightarrow>
     (label = ''ETH Balance'' \<and> mo_previous_eth st \<noteq> None) \<or>
     (label = ''TAIKO Token'' \<and> mo_previous_token st \<noteq> None) \<or>
     (label = ''Prover ETH Balance'' \<and> mo_previous_prover st \<noteq> None)"

definition monitor_inv :: "thresholds \<Rightarrow> monitor_state \<Rightarrow> bool" where
  "monitor_inv th st \<longleftrightarrow>
     (\<forall>p. mo_previous_eth st = Some p \<longrightarrow> p < th_eth th) \<and>
     (\<forall>p. mo_previous_token st = Some p \<longrightarrow> p < th_token th) \<and>
     (\<forall>p. mo_previous_prover st = Some p \<longrightarrow> p < th_prover th)"

lemma fetch_alert_not_low [simp]: "filter (is_low label) (fetch_alert what answer) = []"
  by (cases answer) simp_all

lemma monitor_step_alerts:
  assumes "monitor_inv th st" "monitor_step env th io st = Inr (st', deposited, alerts)"
  shows "monitor_inv th st' \<and>
    length (filter (is_low label) alerts) \<le> (if \<not> reported label st \<and> reported label st' then 1 else 0) \<and>
    (reported label st \<longrightarrow> reported label st')"
proof -
  obtain a1 p1 where eth: "(case mi_eth io of
       Inr balance \<Rightarrow> maybe_alert_balance ''ETH Balance'' balance (mo_previous_eth st) (th_eth th)
     | Inl _ \<Rightarrow> ([], mo_previous_eth st)) = (a1, p1)" by fastforce
  obtain a2 p2 where token: "(case (mi_token io, mi_contract io) of
       (Inr token_balance, Inr contract_balance) \<Rightarrow>
         maybe_alert_balance ''TAIKO Token'' (token_balance + contract_balance)
           (mo_previous_token st) (th_token th)
     | _ \<Rightarrow> ([], mo_previous_token st)) = (a2, p2)" by fastforce
  obtain a3 p3 where prover: "(case (gc_prover_address (be_gateway env), mi_prover io) of
       (Some _, Inr balance) \<Rightarrow>
         maybe_alert_balance ''Prover ETH Balance'' balance (mo_previous_prover st) (th_prover th)
     | _ \<Rightarrow> ([], mo_previous_prover st)) = (a3, p3)" by fastforce
  have st': "st' = \<lparr>mo_previous_eth = p1, mo_previous_token = p2, mo_previous_prover = p3\<rparr>"
    and alerts: "alerts = (fetch_alert ''ETH balance'' (mi_eth io) @ fetch_alert ''token balance'' (mi_token io) @
            fetch_alert ''token bond'' (mi_contract io)) @ a1 @ a2 @ a3"
    using assms(2) unfolding monitor_step_def eth token prover by (auto simp: bindR_eq_Inr Let_def)
  let ?one = "\<lambda>name prev prev'. if label = name \<and> prev = None \<and> prev' \<noteq> None then 1 else (0 :: nat)"
  note alert = maybe_alert_cases[where l = label] and no_alert = no_alert_cases[where l = label]
  have prev: "\<forall>p. mo_previous_eth st = Some p \<longrightarrow> p < th_eth th"
    "\<forall>p. mo_previous_token st = Some p \<longrightarrow> p < th_token th"
    "\<forall>p. mo_previous_prover st = Some p \<longrightarrow> p < th_prover th"
    using assms(1) by (simp_all add: monitor_inv_def)
  have 1: "(\<forall>p. p1 = Some p \<longrightarrow> p < th_eth th) \<and>
      length (filter (is_low label) a1) = ?one ''ETH Balance'' (mo_previous_eth st) p1 \<and>
      (mo_previous_eth st \<noteq> None \<longrightarrow> p1 \<noteq> None)"
  proof (cases "mi_eth io")
    case (Inr balance)
    with eth have "maybe_alert_balance ''ETH Balance'' balance (mo_previous_eth st) (th_eth th) = (a1, p1)"
      by (simp only: sum.case)
    from alert[OF this prev(1)] show ?thesis .
  next
    case (Inl e)
    with eth have "a1 = [] \<and> p1 = mo_previous_eth st" by simp
    from no_alert[OF this prev(1)] show ?thesis .
  qed
  have 2: "(\<forall>p. p2 = Some p \<longrightarrow> p < th_token th) \<and>
      length (filter (is_low label) a2) = ?one ''TAIKO Token'' (mo_previous_token st) p2 \<and>
      (mo_previous_token st \<noteq> None \<longrightarrow> p2 \<noteq> None)"
  proof (cases "\<exists>a b. mi_token io = Inr a \<and> mi_contract io = Inr b")
    case True
    then obtain a b where "mi_token io = Inr a" "mi_contract io = Inr b" by blast
    with token have "maybe_alert_balance ''TAIKO Token'' (a + b) (mo_previous_token st) (th_token th) = (a2, p2)"
      by (simp only: sum.case prod.case)
    from alert[OF this prev(2)] show ?thesis .
  next
    case False
    with token have "a2 = [] \<and> p2 = mo_previous_token st"
      by (cases "mi_token io"; cases "mi_contract io") simp_all
    from no_alert[OF this prev(2)] show ?thesis .
  qed
  have 3: "(\<forall>p. p3 = Some p \<longrightarrow> p < th_prover th) \<and>
      length (filter (is_low label) a3) = ?one ''Prover ETH Balance'' (mo_previous_prover st) p3 \<and>
      (mo_previous_prover st \<noteq> None \<longrightarrow> p3 \<noteq> None)"
  proof (cases "\<exists>a b. gc_prover_address (be_gateway env) = Some a \<and> mi_prover io = Inr b")
    case True
    then obtain a b where "gc_prover_address (be_gateway env) = Some a" "mi_prover io = Inr b" by blast
    with prover have "maybe_alert_balance ''Prover ETH Balance'' b (mo_previous_prover st) (th_prover th) = (a3, p3)"
      by (simp only: sum.case prod.case option.case)
    from alert[OF this prev(3)] show ?thesis .
  next
    case False
    with prover have "a3 = [] \<and> p3 = mo_previous_prover st"
      by (cases "gc_prover_address (be_gateway env)"; cases "mi_prover io") simp_all
    from no_alert[OF this prev(3)] show ?thesis .
  qed
  have inv: "monitor_inv th st'" using 1 2 3 by (simp add: st' monitor_inv_def)
  have total: "length (filter (is_low label) alerts) =
      ?one ''ETH Balance'' (mo_previous_eth st) p1 + ?one ''TAIKO Token'' (mo_previous_token st) p2 +
      ?one ''Prover ETH Balance'' (mo_previous_prover st) p3"
    using 1 2 3 by (simp add: alerts)
  have keep: "mo_previous_eth st \<noteq> None \<longrightarrow> p1 \<noteq> None" "mo_previous_token st \<noteq> None \<longrightarrow> p2 \<noteq> None"
    "mo_previous_prover st \<noteq> None \<longrightarrow> p3 \<noteq> None"
    using 1 2 3 by blast+
  consider "label = ''ETH Balance''" | "label = ''TAIKO Token''" | "label = ''Prover ETH Balance''"
    | "label \<notin> {''ETH Balance'', ''TAIKO Token'', ''Prover ETH Balance''}" by blast
  then have "length (filter (is_low label) alerts) \<le> (if \<not> reported label st \<and> reported label st' then 1 else 0) \<and>
    (reported label st \<longrightarrow> reported label st')"
    using total keep by cases (simp_all add: reported_def st')
  with inv show ?thesis by blast
qed

lemma monitor_rounds_alerts:
  assumes "monitor_inv th st" "monitor_rounds env th ios st = Inr (st', ds, alerts)"
  shows "length (filter (is_low label) alerts) \<le> (if reported label st then 0 else 1)"
  using assms
proof (induction ios arbitrary: st st' ds alerts)
  case (Cons io ios)
  from Cons.prems(2) obtain st1 d a as ds' where
    one: "monitor_step env th io st = Inr (st1, d, a)"
    and rest: "monitor_rounds env th ios st1 = Inr (st', ds', as)" "alerts = a @ as"
    by (auto simp: bindR_eq_Inr)
  note step = monitor_step_alerts[OF Cons.prems(1) one, of label]
  from Cons.IH[OF _ rest(1)] step have
    "length (filter (is_low label) as) \<le> (if reported label st1 then 0 else 1)" by blast
  with step rest(2) show ?case by (auto split: if_splits)
qed simp

text \<open>C36: A low balance is reported at most once for as long as the monitor runs, for each of the three
  balances: the value that suppresses repetitions is only set when an alert is raised, so that a balance
  that has recovered and falls again goes unreported.\<close>

theorem alerts_at_most_once:
  assumes "start_balance_monitor env ios = Inr (st, ds, alerts)"
  shows "length (filter (is_low label) alerts) \<le> 1"
proof -
  from assms obtain th where "monitor_rounds env th ios monitor_new = Inr (st, ds, alerts)"
    by (auto simp: start_balance_monitor_def bindR_eq_Inr)
  moreover have "monitor_inv th monitor_new" by (simp add: monitor_inv_def monitor_new_def)
  ultimately show ?thesis using monitor_rounds_alerts[of th monitor_new env ios st ds alerts label]
    by (auto split: if_splits)
qed

definition fx_monitor_io :: "b256 \<Rightarrow> monitor_io" where
  "fx_monitor_io eth =
     \<lparr>mi_eth = Inr eth, mi_token = Inr (10 ^ 22), mi_contract = Inr (10 ^ 21), mi_deposit = Inl ''unused'',
      mi_prover = Inl ''unused''\<rparr>"

definition fx_th :: thresholds where
  "fx_th = \<lparr>th_eth = 5 * 10 ^ 17, th_token = 10 ^ 21, th_prover = 5 * 10 ^ 17\<rparr>"

lemma fx_thresholds: "monitor_thresholds fx_bond_env = Inr fx_th"
  by (simp add: monitor_thresholds_def fx_bond_env_def fx_floats_def fx_gateway_config_def fx_th_def)

theorem alerts_at_most_once_witness:
  "\<exists>st ds alerts. start_balance_monitor fx_bond_env [fx_monitor_io 7, fx_monitor_io (10 ^ 18), fx_monitor_io 7] =
       Inr (st, ds, alerts) \<and>
     LowBalance ''ETH Balance'' 7 (5 * 10 ^ 17) \<in> set alerts \<and>
     length (filter (is_low ''ETH Balance'') alerts) \<le> 1"
proof -
  have step: "monitor_step fx_bond_env fx_th (fx_monitor_io eth) st = Inr
      (let (a, p) = maybe_alert_balance ''ETH Balance'' eth (mo_previous_eth st) (5 * 10 ^ 17)
       in (st\<lparr>mo_previous_eth := p\<rparr>, None, a))" for eth st
    by (cases st) (simp add: monitor_step_def fx_monitor_io_def fx_th_def ensure_contract_balance_def
        fx_min_bond maybe_alert_balance_def Let_def)
  have "start_balance_monitor fx_bond_env [fx_monitor_io 7, fx_monitor_io (10 ^ 18), fx_monitor_io 7] =
      Inr (\<lparr>mo_previous_eth = Some 7, mo_previous_token = None, mo_previous_prover = None\<rparr>,
           [None, None, None], [LowBalance ''ETH Balance'' 7 (5 * 10 ^ 17)])"
    by (simp add: start_balance_monitor_def fx_thresholds step maybe_alert_balance_def monitor_new_def)
  with alerts_at_most_once[OF this, of "''ETH Balance''"] show ?thesis by auto
qed

end
