(* ===== verification/Services_Props.thy ===== *)
theory Services_Props
  imports Services Seq_Fixtures Config_Props
begin

text \<open>
  The sequencer and its peers: which blocks it keeps, what it tells the peers about them, and when it
  authorizes itself.
\<close>

subsection \<open>Authorization\<close>

lemma failing_case_eq_Inr:
  "(case v of Inl e \<Rightarrow> Inl (f e) | Inr x \<Rightarrow> g x) = Inr y \<longleftrightarrow> (\<exists>x. v = Inr x \<and> g x = Inr y)"
  by (cases v) auto

lemma parse_secret_eq:
  "parse_secret_from_file hex read path = Inr secret \<longleftrightarrow>
     path \<noteq> [] \<and> (\<exists>enc. read path = Inr enc \<and> hex (trim enc) = Inr secret \<and> 32 \<le> length secret)"
  by (auto simp: parse_secret_from_file_def bindR_eq_Inr failing_case_eq_Inr)

lemma authorization_iff:
  "authorization encode now secret = Inr auth \<Longrightarrow> auth \<noteq> None \<longleftrightarrow> secret \<noteq> []"
  by (auto simp: authorization_def split: if_splits sum.splits)

text \<open>Requests carry a token exactly if a secret file is configured, can be read, and holds at least 32
  bytes in hex; in every other case, a broken file included, the gateway goes on without authorization.\<close>

theorem requests_authorized_iff:
  assumes "authorization encode now (load_jwt_secret hex read config) = Inr auth"
  shows "auth \<noteq> None \<longleftrightarrow>
    (\<exists>enc secret. gc_jwt_secret_path (st_gateway config) \<noteq> [] \<and>
       read (gc_jwt_secret_path (st_gateway config)) = Inr enc \<and> hex (trim enc) = Inr secret \<and>
       32 \<le> length secret)"
proof -
  let ?path = "gc_jwt_secret_path (st_gateway config)"
  have "load_jwt_secret hex read config \<noteq> [] \<longleftrightarrow>
      (\<exists>secret. parse_secret_from_file hex read ?path = Inr secret)"
  proof (cases "parse_secret_from_file hex read ?path")
    case (Inr secret)
    then have "?path \<noteq> []" "secret \<noteq> []" by (auto simp: parse_secret_eq)
    with Inr show ?thesis by (simp add: load_jwt_secret_def)
  qed (simp add: load_jwt_secret_def Let_def)
  with authorization_iff[OF assms] show ?thesis by (auto simp: parse_secret_eq)
qed

definition fx_hex :: "string \<Rightarrow> bytes eyre" where
  "fx_hex s = Inr (replicate (length s div 2) 0)"

definition fx_jwt :: "bytes \<Rightarrow> claims \<Rightarrow> string eyre" where
  "fx_jwt secret c = Inr (cl_sub c)"

definition fx_secured :: static_config where
  "fx_secured = fx_static\<lparr>st_gateway := fx_gateway_config\<lparr>gc_jwt_secret_path := ''jwt''\<rparr>\<rparr>"

lemma trim_zeros: "trim (replicate n (CHR ''0'')) = replicate n (CHR ''0'')"
proof -
  have "dropWhile is_whitespace (replicate n (CHR ''0'')) = replicate n (CHR ''0'')"
    by (cases n) (simp_all add: is_whitespace_def)
  then show ?thesis by (simp add: trim_def)
qed

theorem requests_authorized_iff_witness:
  "authorization fx_jwt 5 (load_jwt_secret fx_hex (\<lambda>_. Inr (replicate 64 (CHR ''0''))) fx_secured) =
     Inr (Some ''Bearer soft-block'') \<and>
   (\<exists>secret. fx_hex (trim (replicate 64 (CHR ''0''))) = Inr secret \<and> 32 \<le> length secret)"
proof -
  have "authorization fx_jwt 5 (load_jwt_secret fx_hex (\<lambda>_. Inr (replicate 64 (CHR ''0''))) fx_secured) =
     Inr (Some ''Bearer soft-block'')"
    by (simp add: authorization_def load_jwt_secret_def parse_secret_from_file_def trim_zeros fx_hex_def
        fx_secured_def fx_static_def fx_gateway_config_def generate_jwt_def fx_jwt_def jwt_claims_def
        del: replicate.simps replicate_Suc)
  with requests_authorized_iff[OF this] show ?thesis by auto
qed

subsection \<open>Blocks that are kept\<close>

lemma gossip_accepted:
  assumes "gossip_soft_block cd encode post config now b rest eos = Inr (Inr ())"
  shows "\<exists>request auth status body.
    request_body_new cd b rest eos = Inr request \<and>
    authorization encode now (sv_jwt_secret config) = Inr auth \<and>
    post \<lparr>hq_url = sv_soft_block_url config, hq_authorization = auth, hq_body = request\<rparr> = Inr (status, Inr body) \<and>
    is_success_status status"
proof -
  obtain request auth where parts: "request_body_new cd b rest eos = Inr request"
    "authorization encode now (sv_jwt_secret config) = Inr auth"
    using assms by (auto simp: gossip_soft_block_def bindR_eq_Inr)
  let ?answer = "post \<lparr>hq_url = sv_soft_block_url config, hq_authorization = auth, hq_body = request\<rparr>"
  from assms parts obtain status body where "?answer = Inr (status, Inr body)" "is_success_status status"
    by (cases ?answer) (auto simp: gossip_soft_block_def split: sum.splits if_splits)
  with parts show ?thesis by blast
qed

lemma request_body_transactions:
  assumes "request_body_new cd b rest eos = Inr request" "blk_full b"
    and "inflate (encode_and_compress_tx_list cd (map snd (blk_txs b))) = map snd (blk_txs b)"
  shows "ex_block_number (rb_executable_data request) = hd_number (blk_header b) \<and>
    ex_parent_hash (rb_executable_data request) = hd_parent_hash (blk_header b) \<and>
    ex_timestamp (rb_executable_data request) = hd_timestamp (blk_header b) \<and>
    inflate (ex_transactions (rb_executable_data request)) = map snd (blk_txs b) \<and>
    rb_end_of_sequencing request = eos"
  using assms by (auto simp: request_body_new_def as_transactions_def Let_def split: option.splits)

lemma sealed_was_gossiped:
  assumes "seal_block pr inp sd s = Inr (None, s')"
  shows "\<exists>res. in_seal inp (sd_state_id sd) = Inr res \<and> in_gossip inp (sr_built_block res) False = Inr ()"
  using assms by (auto simp: seal_block_def Let_def split: sum.splits)

text \<open>C14: A block is added to the pending batch only after the peers have accepted it: if a seal succeeds,
  the simulator has sealed a block, and the soft block url has answered with a 2xx status to a request
  with the number, parent, timestamp and all transactions of that block, in order, which carries a token
  iff there is a secret.  The transaction list of the
  block is one that the codec encodes without loss.\<close>

theorem kept_blocks_were_accepted:
  assumes "seal_block pr inp sd s = Inr (None, s')"
    and "\<And>st. in_seal inp st = client_seal_block call st"
    and "\<And>b eos. gossip_soft_block cd encode post config now b (rest b) eos = Inr (in_gossip inp b eos)"
    and "\<And>res. call (sd_state_id sd) = Inr res \<Longrightarrow>
      inflate (encode_and_compress_tx_list cd (map snd (blk_txs (sr_built_block res)))) =
        map snd (blk_txs (sr_built_block res))"
  shows "\<exists>res q status body. call (sd_state_id sd) = Inr res \<and> hq_url q = sv_soft_block_url config \<and>
    post q = Inr (status, Inr body) \<and> is_success_status status \<and>
    ex_block_number (rb_executable_data (hq_body q)) = hd_number (blk_header (sr_built_block res)) \<and>
    ex_parent_hash (rb_executable_data (hq_body q)) = hd_parent_hash (blk_header (sr_built_block res)) \<and>
    ex_timestamp (rb_executable_data (hq_body q)) = hd_timestamp (blk_header (sr_built_block res)) \<and>
    (blk_full (sr_built_block res) \<longrightarrow>
       inflate (ex_transactions (rb_executable_data (hq_body q))) = map snd (blk_txs (sr_built_block res))) \<and>
    (hq_authorization q \<noteq> None \<longleftrightarrow> sv_jwt_secret config \<noteq> [])"
proof -
  obtain res where res: "in_seal inp (sd_state_id sd) = Inr res" "in_gossip inp (sr_built_block res) False = Inr ()"
    using sealed_was_gossiped[OF assms(1)] by blast
  let ?b = "sr_built_block res"
  have call: "call (sd_state_id sd) = Inr res"
    using res(1) assms(2) by (auto simp: client_seal_block_def split: sum.splits)
  obtain request auth status body where g:
    "request_body_new cd ?b (rest ?b) False = Inr request"
    "authorization encode now (sv_jwt_secret config) = Inr auth"
    "post \<lparr>hq_url = sv_soft_block_url config, hq_authorization = auth, hq_body = request\<rparr> = Inr (status, Inr body)"
    "is_success_status status"
    using gossip_accepted assms(3)[of ?b False] res(2) by (metis (no_types))
  have fields: "ex_block_number (rb_executable_data request) = hd_number (blk_header ?b) \<and>
    ex_parent_hash (rb_executable_data request) = hd_parent_hash (blk_header ?b) \<and>
    ex_timestamp (rb_executable_data request) = hd_timestamp (blk_header ?b)"
    using g(1) by (auto simp: request_body_new_def Let_def split: option.splits)
  show ?thesis
    using call g(3,4) fields request_body_transactions[OF g(1), of inflate] assms(4)[OF call] authorization_iff[OF g(2)]
    by (intro exI[of _ res] exI[of _ "\<lparr>hq_url = sv_soft_block_url config, hq_authorization = auth, hq_body = request\<rparr>"]
        exI[of _ status] exI[of _ body]) simp
qed

text \<open>A seal whose peers answer 200 to everything, for the witness.\<close>

definition fx_codec :: codec where
  "fx_codec = \<lparr>cd_rlp = map (\<lambda>tx. ucast (tx_nonce tx)), cd_zlib = id\<rparr>"

definition fx_services :: services_config where
  "fx_services = services_config_from fx_static []"

definition fx_rest :: "block \<Rightarrow> header_rest" where
  "fx_rest b = \<lparr>hr_extra_data = [], hr_base_fee_per_gas = Some 10\<rparr>"

definition fx_call :: "state_id \<Rightarrow> client_error + seal_block_response" where
  "fx_call st = Inr \<lparr>sr_cumulative_builder_payment = 0, sr_cumulative_gas_used = 0,
                     sr_built_block = fx_block 6 60 50 9 2002\<rparr>"

definition fx_seal_input :: loop_input where
  "fx_seal_input = fx_input 0 2000 (fx_block 6 60 50 9 2002) None"

definition fx_sorted :: sort_data where
  "fx_sorted = sort_data_new 0
     \<lparr>bi_anchor_params = \<lparr>ap_block_id = 100, ap_state_root = 0, ap_created_at = 2000\<rparr>, bi_block_number = 6,
      bi_base_fee = 10, bi_parent_hash = 50\<rparr> (StateId 1) ao_empty 240000000 0 375000 0 2"

definition fx_post :: "build_preconf_block_request_body http_request \<Rightarrow> http_answer" where
  "fx_post q = Inr (200, Inr [])"

theorem kept_blocks_were_accepted_witness:
  "\<exists>s' q. seal_block fx_params fx_seal_input fx_sorted fx_seq = Inr (None, s') \<and>
     fx_post q = Inr (200, Inr []) \<and> ex_block_number (rb_executable_data (hq_body q)) = 6"
proof -
  obtain s' where seal: "seal_block fx_params fx_seal_input fx_sorted fx_seq = Inr (None, s')"
    by (simp add: fx_seal_input_def fx_sorted_def fx_ops fx_data)
  have sim: "in_seal fx_seal_input st = client_seal_block fx_call st" for st
    by (simp add: fx_seal_input_def fx_input_def client_seal_block_def fx_call_def)
  have peers: "gossip_soft_block fx_codec fx_jwt fx_post fx_services 0 b (fx_rest b) eos =
      Inr (in_gossip fx_seal_input b eos)" for b eos
    by (simp add: fx_seal_input_def fx_input_def gossip_soft_block_def request_body_new_def fx_rest_def
        authorization_def fx_services_def services_config_from_def fx_post_def is_success_status_def Let_def)
  have list: "fx_call (sd_state_id fx_sorted) = Inr res \<Longrightarrow> [fx_anchor_tx] = map snd (blk_txs (sr_built_block res))" for res
    by (auto simp: fx_call_def fx_block_def)
  from kept_blocks_were_accepted[OF seal sim peers, of "\<lambda>_. [fx_anchor_tx]", OF list]
  obtain res q status body where "fx_call (sd_state_id fx_sorted) = Inr res" "fx_post q = Inr (status, Inr body)"
    "ex_block_number (rb_executable_data (hq_body q)) = hd_number (blk_header (sr_built_block res))"
    by blast
  with seal show ?thesis by (auto simp: fx_post_def fx_call_def fx_block_def fx_header_def)
qed

subsection \<open>Blocks that are refused\<close>

text \<open>C28: A block that the peers refuse is dropped without a trace: after an answer that is not 2xx the
  sequencer goes back to waiting with the pending batch, the chain view, the channels and the pending
  counter as they were and the pool kept but for its nonces; after a failed request it stops.\<close>

theorem refused_blocks_are_dropped:
  assumes "in_seal inp (sd_state_id sd) = Inr res"
    and "gossip_soft_block cd encode post config now (sr_built_block res) rest False =
           Inr (in_gossip inp (sr_built_block res) False)"
    and "in_gossip inp (sr_built_block res) False = Inl e"
  shows "(case e of
      SoftBlock status body \<Rightarrow> \<not> is_success_status status \<and>
        transition_seal pr inp sd s =
          Inr (sequencer_state_default, s\<lparr>sq_tx_pool := clear_nonces (sq_tx_pool s)\<rparr>)
    | _ \<Rightarrow> transition_seal pr inp sd s = Inl ''failed seal block'')"
proof -
  have seal: "seal_block pr inp sd s = Inr (Some e, s)" using assms(1,3) by (simp add: seal_block_def)
  obtain q where q: "(case post q of
      Inl e \<Rightarrow> Inl (ReqwestError e)
    | Inr (_, Inl e) \<Rightarrow> Inl (ReqwestError e)
    | Inr (status, Inr body) \<Rightarrow>
        if is_success_status status then Inr () else Inl (SoftBlock status body)) = Inl e"
    using assms(2,3) by (auto simp: gossip_soft_block_def bindR_eq_Inr)
  then consider err where "e = ReqwestError err"
    | status body where "e = SoftBlock status body" "\<not> is_success_status status"
    by (cases "post q") (auto split: sum.splits if_splits)
  then show ?thesis by cases (simp_all add: transition_seal_def seal)
qed

theorem refused_blocks_are_dropped_witness:
  "\<exists>inp. transition_seal fx_params inp fx_sorted fx_seq =
     Inr (sequencer_state_default, fx_seq\<lparr>sq_tx_pool := clear_nonces (sq_tx_pool fx_seq)\<rparr>)"
proof -
  let ?inp = "fx_input 0 2000 (fx_block 6 60 50 9 2002) (Some (SoftBlock 500 []))"
  let ?post = "\<lambda>q. Inr (500, Inr [])"
  let ?res = "\<lparr>sr_cumulative_builder_payment = 0, sr_cumulative_gas_used = 0,
               sr_built_block = fx_block 6 60 50 9 2002\<rparr>"
  have "in_seal ?inp (sd_state_id fx_sorted) = Inr ?res" by (simp add: fx_input_def)
  moreover have "in_gossip ?inp (sr_built_block ?res) False = Inl (SoftBlock 500 [])"
    by (simp add: fx_input_def)
  moreover have "gossip_soft_block fx_codec fx_jwt ?post fx_services 0 (sr_built_block ?res) (fx_rest (sr_built_block ?res)) False =
      Inr (in_gossip ?inp (sr_built_block ?res) False)"
    by (simp add: fx_input_def gossip_soft_block_def request_body_new_def fx_rest_def authorization_def
        fx_services_def services_config_from_def is_success_status_def Let_def)
  ultimately show ?thesis
    using refused_blocks_are_dropped[of ?inp fx_sorted ?res fx_codec fx_jwt ?post fx_services 0
        "fx_rest (sr_built_block ?res)" "SoftBlock 500 []" fx_params fx_seq] by auto
qed

end
