(* ===== verification/Startup_Props.thy ===== *)
theory Startup_Props
  imports Startup Balance_Props Services_Props Pending_Books
begin

text \<open>
  What a gateway that has started can rely on, and the safety of everything that it does from then on.
\<close>

subsection \<open>The parts\<close>

lemma prefix_err_ok [simp]: "prefix_err p m = okE x \<longleftrightarrow> m = okE x"
proof (cases m)
  case (Inr r)
  then show ?thesis by (cases r) (simp_all add: prefix_err_def)
qed (simp add: prefix_err_def)

lemma assert_eq_ok [simp]: "assert_eq a b msg = okE u \<longleftrightarrow> a = b"
  by (simp add: assert_eq_def)

lemma current_epoch_divisors:
  "current_epoch utc b = Inr e \<Longrightarrow> bh_seconds_per_slot b \<noteq> 0 \<and> bh_slots_per_epoch b \<noteq> 0"
  by (auto simp: current_epoch_def current_slot_def div_u64_def bindR_eq_Inr split: if_splits)

lemma waited_divisors:
  "wait_for_block b rounds = okE True \<Longrightarrow> bh_seconds_per_slot b \<noteq> 0 \<and> bh_slots_per_epoch b \<noteq> 0"
  by (induction b rounds rule: wait_for_block.induct)
     (auto simp: bindR_eq_Inr dest: current_epoch_divisors)

lemma lookahead_started:
  assumes "start_lookahead_loop b config io = okE (Some la)"
  shows "lh_beacon la = b \<and> beacon_sane la"
proof -
  have "wait_for_block b (li_blocks io) = okE True"
    and "lh_beacon la = b"
    using assms
    by (auto simp: start_lookahead_loop_def Let_def bindE_eq_ok bindR_eq_Inr lookahead_handle_new_def
        split: if_splits whitelist_answer.splits)
  with waited_divisors show ?thesis by (simp add: beacon_sane_def)
qed

lemma config_checked:
  assumes "get_and_validate_config io = okE cp"
  shows "ca_l2_chain_id io = Inr (cp_chain_id cp) \<and> ca_l1_chain_id_in_l2 io = ca_l1_chain_id io \<and>
    ca_golden_touch io = Inr GOLDEN_TOUCH_ADDRESS \<and> cp_bond_per_block cp = 0 \<and>
    (\<exists>config. ca_pacaya_config io = Inr config \<and> pk_chain_id config = cp_chain_id cp)"
  using assms
  by (auto simp: get_and_validate_config_def bindE_eq_ok taiko_chain_params_new_def split: if_splits)

lemma balance_checked:
  assumes "check_and_approve_balance env io = okE deposited"
  shows "\<exists>contract_balance. ap_contract_balance io = Inr contract_balance \<and>
    (case deposited of None \<Rightarrow> get_min_bond env \<le> contract_balance
     | Some amount \<Rightarrow> contract_balance < get_min_bond env \<and> (\<exists>tx. ap_deposit io = Inr tx))"
  using assms
  by (auto simp: check_and_approve_balance_def ensure_contract_balance_def bindR_eq_Inr Let_def not_le
      split: sum.splits if_splits)

lemma started_parts:
  assumes "run_gateway lib fo hex config operator io = okE (Some g)"
  shows "\<exists>cp b la. pc_dry_run (pv_config (go_proposer g)) = gc_dry_run (st_gateway config) \<and> validate config = Inr () \<and> get_and_validate_config (sa_chain io) = okE cp \<and>
    check_and_approve_balance \<lparr>be_gateway = st_gateway config, be_chain = cp, be_float = fo\<rparr> (sa_approve io) =
      okE (go_deposited g) \<and>
    start_lookahead_loop b (gc_lookahead (st_gateway config)) (sa_lookahead io) = okE (Some la) \<and>
    go_sequencer g = sequencer_new (sa_now io) (sequencer_config_from config operator) cp
      (l2c_l2_contract (st_l2 config)) la 0 0 shared_flags_new"
  using assms
  by (auto simp: run_gateway_def bindE_eq_ok start_sequencer_def start_proposer_def taiko_config_new_def
      proposer_config_from_def Let_def split: option.splits) blast

lemma started_exact: "pending_exact \<lparr>gw_seq = sequencer_new now config cp c la l2o l1n shared_flags_new, gw_taken = 0\<rparr>"
  by (simp add: pending_exact_def sequencer_new_def spine_new_def waiting_batches_def shared_flags_new_def
      current_pending_def)

subsection \<open>Guarantees of a start\<close>


text \<open>Everything from the start on is safe: whatever the nodes and contracts answer, if the gateway
  starts at all, then each run of its sequencer on Taiko blocks either goes on, with every sealed block in
  exactly one batch, or stops in one of the panics that its authors intend.\<close>

theorem started_gateway_safe:
  assumes "run_gateway lib fo hex config operator io = okE (Some g)"
    and "legal_run (seq_step pr) seq_legal es (seq_sys_new (go_sequencer g))"
  shows "case run_events (seq_step pr) es (seq_sys_new (go_sequencer g)) of
      Inl m \<Rightarrow> deliberate m \<and> m \<notin> set internal_assertions
    | Inr y \<Rightarrow> \<exists>segs. concat segs = ys_hist y \<and>
        list_all2 (represents (pr_est pr) (sc_coinbase_address (sq_config (ys_seq y))))
          (batches_of (ys_seq y)) segs"
proof -
  obtain b la cp where la: "start_lookahead_loop b (gc_lookahead (st_gateway config)) (sa_lookahead io) = okE (Some la)"
    and seq: "go_sequencer g = sequencer_new (sa_now io) (sequencer_config_from config operator) cp
      (l2c_l2_contract (st_l2 config)) la 0 0 shared_flags_new"
    using started_parts[OF assms(1)] by blast
  have "sys_inv pr (seq_sys_new (go_sequencer g))"
    unfolding seq by (rule sys_inv_new) (use lookahead_started[OF la] in blast)
  from gateway.run_guarded[OF this assms(2)] show ?thesis
    using internal_not_deliberate
    by (auto simp: sys_inv_def seq_inv_def history_ok_def split: sum.splits)
qed

text \<open>The counter stays exact in every run of sequencer and proposer of a started gateway, unless it does
  dry runs.\<close>

lemma started_pending_exact:
  assumes "run_gateway lib fo hex config operator io = okE (Some g)" "\<not> gc_dry_run (st_gateway config)"
    and "run_events (gateway_step pr (go_proposer g) (go_resync g)) es
           \<lparr>gw_seq = go_sequencer g, gw_taken = 0\<rparr> = Inr y"
  shows "pending_exact y"
proof -
  have "pending_exact \<lparr>gw_seq = go_sequencer g, gw_taken = 0\<rparr>" "\<not> pc_dry_run (pv_config (go_proposer g))"
    using started_parts[OF assms(1)] assms(2) by (auto simp: started_exact)
  with pending.guarded_run_inv[OF _ legal_run_any assms(3)] show ?thesis by blast
qed

subsection \<open>A start\<close>

definition fx_lib :: "(batch_params, bytes \<times> batch_params, (bytes \<times> batch_params) \<times> bytes \<times> u96) proposer_lib" where
  "fx_lib =
     \<lparr>pl_abi = ex_abi, pl_kzg = ex_kzg, pl_max_blobs = 6, pl_codec = fx_codec, pl_revert = ex_revert_io,
      pl_encoded_2718 = (\<lambda>_. [])\<rparr>"

definition fx_chain_answers :: chain_answers where
  "fx_chain_answers =
     \<lparr>ca_l1_chain_id = Inr 1, ca_l2_chain_id = Inr 167,
      ca_pacaya_config = Inr
        \<lparr>pk_chain_id = 167, pk_liveness_bond_base = 1000000000000000000, pk_liveness_bond_per_block = 0,
         pk_base_fee_config =
           \<lparr>bf_adjustment_quotient = 8, bf_sharing_pctg = 75, bf_gas_issuance_per_second = 5000000,
            bf_min_gas_excess = 1340000000, bf_max_gas_issuance_per_block = 600000000\<rparr>,
         pk_max_anchor_height_offset = 64, pk_block_max_gas_limit = 240000000, pk_max_blocks_per_batch = 768\<rparr>,
      ca_golden_touch = Inr GOLDEN_TOUCH_ADDRESS, ca_l1_chain_id_in_l2 = Inr 1, ca_operator_count = Inr 2,
      ca_operator = (\<lambda>i. Inr (of_nat i))\<rparr>"

definition fx_answers :: start_answers where
  "fx_answers =
     \<lparr>sa_chain = fx_chain_answers,
      sa_approve = \<lparr>ap_token_balance = Inr (10 ^ 21), ap_contract_balance = Inr (10 ^ 21),
                    ap_allowance = Inr (- 1), ap_approve = Inl ''unused'', ap_new_allowance = Inl ''unused'',
                    ap_deposit = Inl ''unused''\<rparr>,
      sa_spec = Inr \<lparr>spec_seconds_per_slot = 12, spec_slots_per_epoch = 32\<rparr>, sa_genesis = Inr 1000,
      sa_lookahead = \<lparr>li_routers = [Some 24], li_handovers = [(2000, Some 8)],
                      li_blocks = [(2000, Inr (Some 1700)), (2000, Inr (Some 1900))],
                      li_curr = Operator 7, li_next = InvalidOperatorCount, li_utc = 2000, li_now = 0\<rparr>,
      sa_client_chain_id = Inr 1, sa_read_file = (\<lambda>_. Inl ''unused''), sa_now = 0\<rparr>"

lemma fx_chain_checked: "get_and_validate_config fx_chain_answers = okE (be_chain fx_bond_env)"
  by (simp add: get_and_validate_config_def fx_chain_answers_def assert_eq_def fetch_operators_def
      fx_bond_env_def taiko_chain_params_new_def upt_rec)

lemma fx_balances_checked: "check_and_approve_balance fx_bond_env (sa_approve fx_answers) = okE None"
  by (simp add: check_and_approve_balance_def fx_answers_def ensure_contract_balance_def fx_min_bond)

lemma fx_lookahead_started:
  "\<exists>la. start_lookahead_loop (beacon_new 32 1000 12) (gc_lookahead fx_gateway_config) (sa_lookahead fx_answers) =
     okE (Some la)"
  by (simp add: start_lookahead_loop_def fx_answers_def fx_gateway_config_def beacon_new_def current_epoch_def
      current_slot_def div_u64_def has_block_in_epoch_def slot_for_timestamp_def slot_epoch_start_def
      initial_lookahead_def Let_def)

lemma fx_started: "\<exists>g. run_gateway fx_lib fx_floats fx_hex fx_static 7 fx_answers = okE (Some g)"
proof -
  have env: "\<lparr>be_gateway = st_gateway fx_static, be_chain = be_chain fx_bond_env, be_float = fx_floats\<rparr> = fx_bond_env"
    by (simp add: fx_bond_env_def fx_static_def)
  have valid: "validate fx_static = Inr ()" by (simp add: validate_def fx_static_def fx_gateway_config_def)
  have "sa_chain fx_answers = fx_chain_answers" "init_beacon (sa_spec fx_answers) (sa_genesis fx_answers) =
      okE (beacon_new 32 1000 12)"
    "st_gateway fx_static = fx_gateway_config" for e
    by (simp_all add: fx_answers_def init_beacon_def l1_client_new_def fx_static_def)
  moreover obtain client where "l1_client_new (sa_client_chain_id fx_answers) fx_static = okE client"
    by (simp add: fx_answers_def l1_client_new_def)
  moreover obtain la where
    "start_lookahead_loop (beacon_new 32 1000 12) (gc_lookahead fx_gateway_config) (sa_lookahead fx_answers) =
     okE (Some la)" using fx_lookahead_started by blast
  ultimately show ?thesis
    using fx_balances_checked fx_chain_checked env valid
    by (simp add: run_gateway_def prefix_err_def start_sequencer_def start_proposer_def Let_def)
qed


theorem started_gateway_safe_witness:
  "\<exists>g. run_gateway fx_lib fx_floats fx_hex fx_static 7 fx_answers = okE (Some g) \<and>
     (case run_events (seq_step fx_params) fx_events (seq_sys_new (go_sequencer g)) of
        Inl m \<Rightarrow> deliberate m
      | Inr y \<Rightarrow> \<exists>segs. concat segs = ys_hist y)"
proof -
  obtain g where g: "run_gateway fx_lib fx_floats fx_hex fx_static 7 fx_answers = okE (Some g)"
    using fx_started by blast
  have "legal_run (seq_step fx_params) seq_legal fx_events (seq_sys_new (go_sequencer g))"
    by (rule legal_run_always)
       (auto simp: fx_events_def fx_arrive_def fx_arrivals_def input_ok_def fx_input_def fx_taiko)
  from started_gateway_safe[OF g this] g show ?thesis by (auto split: sum.splits)
qed

end
