(* ===== verification/Block_Feed.thy ===== *)
theory Block_Feed
  imports Gw_Orders Eyre
begin

text \<open>
  The tasks that feed the block channels, \<open>BlockFetcher\<close> of \<open>crates/sequencer/src/fetcher.rs\<close>: the
  L1 headers, the preconfirmed L2 blocks, and the headers of confirmed L2 blocks.

  A task has as input what the node answers, call by call; its output is the list of items it sends.
  An input that ends leaves the task waiting for the next answer.  Delays, logs and metrics are
  left out.
\<close>

subsection \<open>Ranges of blocks\<close>

text \<open>\<open>fetch_last_headers\<close> and \<open>fetch_last_blocks\<close>: items are sent one by one, up to the first
  failure.\<close>

fun fetch_each :: "(u64 \<Rightarrow> 'b option eyre) \<Rightarrow> u64 list \<Rightarrow> 'b list \<times> unit eyre" where
  "fetch_each get [] = ([], Inr ())"
| "fetch_each get (i # is) =
     (case get i of
        Inl e \<Rightarrow> ([], Inl e)
      | Inr None \<Rightarrow> ([], Inl ''failed to fetch latest block'')
      | Inr (Some b) \<Rightarrow> (let (sent, r) = fetch_each get is in (b # sent, r)))"

definition fetch_last_blocks ::
    "(u64 \<Rightarrow> block option eyre) \<Rightarrow> u64 \<Rightarrow> u64 \<Rightarrow> block list \<times> unit eyre" where
  "fetch_last_blocks get start_block end_block = fetch_each get (block_range start_block end_block)"

definition fetch_last_headers ::
    "(u64 \<Rightarrow> block option eyre) \<Rightarrow> u64 \<Rightarrow> u64 \<Rightarrow> header list \<times> unit eyre" where
  "fetch_last_headers get start_block end_block =
     fetch_each (\<lambda>i. map_sum id (map_option blk_header) (get i)) (block_range start_block end_block)"

subsection \<open>New blocks\<close>

text \<open>The loop around the first fetch, which starts over after a failure.  The flag says whether it
  has ended.\<close>

fun retry_fetch :: "('a \<Rightarrow> 'b list \<times> unit eyre) \<Rightarrow> 'a list \<Rightarrow> 'b list \<times> bool" where
  "retry_fetch fetch [] = ([], False)"
| "retry_fetch fetch (get # gets) =
     (case fetch get of
        (sent, Inr _) \<Rightarrow> (sent, True)
      | (sent, Inl _) \<Rightarrow> (let (more, ended) = retry_fetch fetch gets in (sent @ more, ended)))"

text \<open>\<open>subscribe_headers\<close>: one session of the subscription, or a failed connection.\<close>

definition subscribe_headers :: "header list eyre \<Rightarrow> header list \<times> unit eyre" where
  "subscribe_headers session =
     (case session of Inl e \<Rightarrow> ([], Inl e) | Inr received \<Rightarrow> (received, Inr ()))"

text \<open>\<open>subscribe_blocks\<close>: every header comes with the answer to the request for its block.\<close>

fun fetch_received :: "(header \<times> block option eyre) list \<Rightarrow> block list \<times> unit eyre" where
  "fetch_received [] = ([], Inr ())"
| "fetch_received ((h, answer) # rest) =
     (case answer of
        Inl e \<Rightarrow> ([], Inl e)
      | Inr None \<Rightarrow> ([], Inl ''missing block'')
      | Inr (Some b) \<Rightarrow> (let (sent, r) = fetch_received rest in (b # sent, r)))"

definition subscribe_blocks ::
    "(header \<times> block option eyre) list eyre \<Rightarrow> block list \<times> unit eyre" where
  "subscribe_blocks session =
     (case session of Inl e \<Rightarrow> ([], Inl e) | Inr received \<Rightarrow> fetch_received received)"

definition run_fetch ::
    "u64 eyre \<Rightarrow> u64 \<Rightarrow> (u64 \<Rightarrow> block option eyre) list \<Rightarrow> header list eyre list \<Rightarrow> header list run" where
  "run_fetch block_number fetch_last gets sessions =
     (case block_number of
        Inl e \<Rightarrow> Inl ''failed to fetch last block''
      | Inr last_block \<Rightarrow>
          (let (sent, ended) =
                 retry_fetch (\<lambda>get. fetch_last_headers get (last_block - fetch_last) last_block) gets
           in Inr (if ended then sent @ concat (map (fst \<circ> subscribe_headers) sessions) else sent)))"

definition run_full_fetch ::
    "u64 eyre \<Rightarrow> u64 \<Rightarrow> (u64 \<Rightarrow> block option eyre) list \<Rightarrow>
     (header \<times> block option eyre) list eyre list \<Rightarrow> block list run" where
  "run_full_fetch block_number fetch_last gets sessions =
     (case block_number of
        Inl e \<Rightarrow> Inl ''failed to fetch last block''
      | Inr last_block \<Rightarrow>
          (let (sent, ended) =
                 retry_fetch (\<lambda>get. fetch_last_blocks get (last_block - fetch_last) last_block) gets
           in Inr (if ended then sent @ concat (map (fst \<circ> subscribe_blocks) sessions) else sent)))"

subsection \<open>Confirmed blocks\<close>

text \<open>\<open>L1Origin::block_number\<close>.\<close>

definition origin_block_number :: "b256 \<Rightarrow> u64 run" where
  "origin_block_number block_id =
     (if unat block_id < 2 ^ 64 then Inr (ucast block_id)
      else Inl ''called `Result::unwrap()` on an `Err` value'')"

text \<open>One round of the loop: the head that the node reports, and its answers to requests for blocks.\<close>

record origin_poll =
  op_head :: "b256 eyre"
  op_get :: "u64 \<Rightarrow> block option eyre"

fun origin_polls :: "origin_poll list \<Rightarrow> u64 \<Rightarrow> (u64 \<times> header list \<times> unit eyre) run" where
  "origin_polls [] l2_origin = Inr (l2_origin, [], Inr ())"
| "origin_polls (p # ps) l2_origin =
     (case op_head p of
        Inl e \<Rightarrow> Inr (l2_origin, [], Inl e)
      | Inr block_id \<Rightarrow>
          bindR (origin_block_number block_id) (\<lambda>l2_new_origin.
            if l2_origin < l2_new_origin
            then (case fetch_last_headers (op_get p) (l2_origin + 1) l2_new_origin of
                    (sent, Inl e) \<Rightarrow> Inr (l2_new_origin, sent, Inl e)
                  | (sent, Inr _) \<Rightarrow>
                      bindR (origin_polls ps l2_new_origin) (\<lambda>(l2_origin, more, r).
                        Inr (l2_origin, sent @ more, r)))
            else origin_polls ps l2_new_origin))"

text \<open>\<open>fetch_origin_blocks\<close>; \<open>l2_origin\<close> is the shared atomic.\<close>

definition fetch_origin_blocks ::
    "b256 eyre \<times> origin_poll list \<Rightarrow> u64 \<Rightarrow> (u64 \<times> header list \<times> unit eyre) run" where
  "fetch_origin_blocks session l2_origin =
     (case fst session of
        Inl e \<Rightarrow> Inr (l2_origin, [], Inl e)
      | Inr block_id \<Rightarrow>
          bindR (origin_block_number block_id) (\<lambda>l2_new_origin.
            origin_polls (snd session) l2_new_origin))"

fun run_origin_fetch ::
    "(b256 eyre \<times> origin_poll list) list \<Rightarrow> u64 \<Rightarrow> (u64 \<times> header list) run" where
  "run_origin_fetch [] l2_origin = Inr (l2_origin, [])"
| "run_origin_fetch (session # sessions) l2_origin =
     bindR (fetch_origin_blocks session l2_origin) (\<lambda>(l2_origin, sent, r).
       case r of
         Inr _ \<Rightarrow> Inr (l2_origin, sent)
       | Inl _ \<Rightarrow> bindR (run_origin_fetch sessions l2_origin) (\<lambda>(l2_origin, more).
                    Inr (l2_origin, sent @ more)))"

end
