(* ===== verification/Feed_Props.thy ===== *)
theory Feed_Props
  imports Block_Feed
begin

text \<open>
  Which confirmed blocks reach the sequencer: all of them, in order and once, as long as no request
  fails; after a failed request the blocks that it was for are never asked for again.
\<close>

subsection \<open>Fetching\<close>

text \<open>The node answers a request for a block with the block of that number, if any.\<close>

definition numbered :: "(u64 \<Rightarrow> block option eyre) \<Rightarrow> bool" where
  "numbered get \<longleftrightarrow> (\<forall>i b. get i = Inr (Some b) \<longrightarrow> hd_number (blk_header b) = i)"

lemma fetch_each_all:
  "\<forall>i \<in> set is. get i = Inr (Some (f i)) \<Longrightarrow> fetch_each get is = (map f is, Inr ())"
  by (induction "is") auto

lemma fetch_each_sent:
  "fetch_each get is = (sent, r) \<Longrightarrow> b \<in> set sent \<Longrightarrow> \<exists>i \<in> set is. get i = Inr (Some b)"
  by (induction "is" arbitrary: sent r) (auto simp: Let_def split: sum.splits option.splits prod.splits)

lemma fetch_each_missing:
  "fetch_each get is = (sent, r) \<Longrightarrow> i \<in> set is \<Longrightarrow> \<nexists>b. get i = Inr (Some b) \<Longrightarrow> \<exists>e. r = Inl e"
  by (induction "is" arbitrary: sent r) (auto simp: Let_def split: sum.splits option.splits prod.splits)

lemma headers_sent:
  assumes "fetch_last_headers get a b = (sent, r)" "numbered get" "h \<in> set sent"
  shows "a \<le> hd_number h \<and> hd_number h \<le> b \<and> (\<exists>x. get (hd_number h) = Inr (Some x))"
proof -
  obtain i where i: "i \<in> set (block_range a b)" "map_sum id (map_option blk_header) (get i) = Inr (Some h)"
    using fetch_each_sent[OF assms(1)[unfolded fetch_last_headers_def] assms(3)] by blast
  then obtain x where x: "get i = Inr (Some x)" "h = blk_header x" by (cases "get i") auto
  with assms(2) have "hd_number h = i" by (simp add: numbered_def)
  with i(1) x block_range_bounds show ?thesis by auto
qed

subsection \<open>Sessions\<close>

definition head_from :: "u64 \<Rightarrow> b256 eyre \<Rightarrow> bool" where
  "head_from m head \<longleftrightarrow>
     (\<forall>block_id n. head = Inr block_id \<longrightarrow> origin_block_number block_id = Inr n \<longrightarrow> m \<le> n)"

definition poll_from :: "u64 \<Rightarrow> origin_poll \<Rightarrow> bool" where
  "poll_from m p \<longleftrightarrow> head_from m (op_head p) \<and> numbered (op_get p)"

definition session_from :: "u64 \<Rightarrow> b256 eyre \<times> origin_poll list \<Rightarrow> bool" where
  "session_from m session \<longleftrightarrow> head_from m (fst session) \<and> (\<forall>p \<in> set (snd session). poll_from m p)"

lemma polls_above:
  assumes "\<forall>p \<in> set ps. poll_from m p" "m \<le> origin"
    and "origin_polls ps origin = Inr (origin', sent, r)"
  shows "m \<le> origin' \<and> (\<forall>h \<in> set sent. m < hd_number h)"
  using assms
proof (induction ps arbitrary: origin origin' sent r)
  case (Cons p ps)
  have rest: "\<forall>p \<in> set ps. poll_from m p" using Cons.prems(1) by simp
  show ?case
  proof (cases "op_head p")
    case (Inl e)
    with Cons.prems show ?thesis by simp
  next
    case (Inr block_id)
    then obtain new where new: "origin_block_number block_id = Inr new"
      using Cons.prems(3) by (auto simp: bindR_eq_Inr)
    then have m: "m \<le> new" using Cons.prems(1) Inr by (simp add: poll_from_def head_from_def)
    show ?thesis
    proof (cases "origin < new")
      case False
      with Inr new Cons.prems(3) have "origin_polls ps new = Inr (origin', sent, r)" by simp
      from Cons.IH[OF rest m this] show ?thesis .
    next
      case True
      obtain s1 r1 where f: "fetch_last_headers (op_get p) (origin + 1) new = (s1, r1)" by fastforce
      have "origin \<noteq> - 1" using True by (auto simp: word_order.extremum_strict)
      then have "origin < origin + 1" by (simp add: word_less_nat_alt unat_next)
      then have s1: "\<forall>h \<in> set s1. m < hd_number h"
        using headers_sent[OF f] Cons.prems(1,2) by (fastforce simp: poll_from_def)
      show ?thesis
      proof (cases r1)
        case (Inl e)
        with True Inr new m f s1 Cons.prems(3) show ?thesis by auto
      next
        case ok: (Inr u)
        with True Inr new f Cons.prems(3) obtain more where
          "origin_polls ps new = Inr (origin', more, r)" "sent = s1 @ more"
          by (auto simp: bindR_eq_Inr)
        with Cons.IH[OF rest m this(1)] s1 show ?thesis by auto
      qed
    qed
  qed
qed simp

lemma sessions_above:
  assumes "\<forall>session \<in> set sessions. session_from m session" "m \<le> origin"
    and "run_origin_fetch sessions origin = Inr (origin', sent)"
  shows "\<forall>h \<in> set sent. m < hd_number h"
  using assms
proof (induction sessions arbitrary: origin origin' sent)
  case (Cons session sessions)
  obtain o1 s1 r1 where one: "fetch_origin_blocks session origin = Inr (o1, s1, r1)"
    and rest: "(case r1 of Inr _ \<Rightarrow> Inr (o1, s1)
       | Inl _ \<Rightarrow> bindR (run_origin_fetch sessions o1) (\<lambda>(l2_origin, more).
                    Inr (l2_origin, s1 @ more))) = Inr (origin', sent)"
    using Cons.prems(3) by (auto simp: bindR_eq_Inr)
  have above: "m \<le> o1 \<and> (\<forall>h \<in> set s1. m < hd_number h)"
  proof (cases "fst session")
    case (Inl e)
    with one Cons.prems(2) show ?thesis by (simp add: fetch_origin_blocks_def)
  next
    case (Inr block_id)
    with one obtain new where new: "origin_block_number block_id = Inr new"
      "origin_polls (snd session) new = Inr (o1, s1, r1)"
      by (auto simp: fetch_origin_blocks_def bindR_eq_Inr)
    then have "m \<le> new" using Inr Cons.prems(1) by (simp add: session_from_def head_from_def)
    moreover have "\<forall>p \<in> set (snd session). poll_from m p" using Cons.prems(1) by (simp add: session_from_def)
    ultimately show ?thesis using polls_above new(2) by blast
  qed
  show ?case
  proof (cases r1)
    case (Inr u)
    with rest above show ?thesis by simp
  next
    case (Inl e)
    with rest obtain more where more: "run_origin_fetch sessions o1 = Inr (origin', more)" "sent = s1 @ more"
      by (auto simp: bindR_eq_Inr)
    have "\<forall>h \<in> set more. m < hd_number h"
      using Cons.IH[OF _ _ more(1)] Cons.prems(1) above by simp
    with more above show ?thesis by auto
  qed
qed simp

subsection \<open>Complete without failures\<close>

definition answered :: "(u64 \<Rightarrow> block) \<Rightarrow> u64 \<Rightarrow> origin_poll" where
  "answered chain n = \<lparr>op_head = Inr (ucast n), op_get = (\<lambda>i. Inr (Some (chain i)))\<rparr>"

lemma answered_head [simp]: "op_head (answered chain n) = Inr (ucast n)"
  by (simp add: answered_def)

lemma origin_block_number_ucast [simp]: "origin_block_number (ucast (n :: u64)) = Inr n"
  using unat_u64_less[of n]
  by (simp add: origin_block_number_def unsigned_ucast_eq take_bit_nat_eq_self take_bit_word_eq_self
      unsigned_word_eqI)

lemma polls_complete:
  assumes "sorted (n # ns)" "last (n # ns) \<noteq> - 1"
  shows "origin_polls (map (answered chain) ns) n =
    Inr (last (n # ns), map (blk_header \<circ> chain) (block_range (n + 1) (last (n # ns))), Inr ())"
  using assms
proof (induction ns arbitrary: n)
  case Nil
  then have "n < n + 1" by (simp add: word_less_nat_alt unat_next)
  then show ?case by (simp add: block_range_empty)
next
  case (Cons k ns)
  have le: "n \<le> k" "k \<le> last (k # ns)" using Cons.prems(1) by (auto simp: last_in_set)
  have all: "fetch_last_headers (op_get (answered chain k)) (n + 1) k =
      (map (blk_header \<circ> chain) (block_range (n + 1) k), Inr ())"
    by (simp add: fetch_last_headers_def answered_def fetch_each_all[where f = "blk_header \<circ> chain"])
  have split: "block_range (n + 1) (last (k # ns)) = block_range (n + 1) k @ block_range (k + 1) (last (k # ns))"
    using block_range_split[OF le] Cons.prems(2) by simp
  have rest: "origin_polls (map (answered chain) ns) k =
    Inr (last (k # ns), map (blk_header \<circ> chain) (block_range (k + 1) (last (k # ns))), Inr ())"
    using Cons.IH[of k] Cons.prems by simp
  show ?case
  proof (cases "n < k")
    case True
    with all rest split show ?thesis by simp
  next
    case False
    with le have "k = n" by simp
    with rest show ?thesis by simp
  qed
qed

lemma complete_feed:
  assumes "sorted (n # ns)" "last (n # ns) \<noteq> - 1"
  shows "run_origin_fetch [(Inr (ucast n), map (answered chain) ns)] start =
    Inr (last (n # ns), map (blk_header \<circ> chain) (block_range (n + 1) (last (n # ns))))"
  using polls_complete[OF assms, of chain] by (simp add: fetch_origin_blocks_def)


definition fx_feed :: "u64 \<Rightarrow> block" where
  "fx_feed n =
     \<lparr>blk_header = \<lparr>hd_number = n, hd_hash = ucast n, hd_parent_hash = ucast (n - 1), hd_state_root = 0,
        hd_beneficiary = 9, hd_timestamp = 100 + n, hd_gas_used = 0, hd_gas_limit = 0\<rparr>,
      blk_full = False, blk_txs = []\<rparr>"


text \<open>A failed request loses confirmed blocks: the next session starts from the head again.\<close>

lemma lost_blocks:
  assumes "op_head p = Inr (ucast new)" "numbered (op_get p)"
    and "origin < bad" "bad \<le> new" "\<nexists>b. op_get p bad = Inr (Some b)"
    and "\<forall>session \<in> set later. session_from new session"
    and "run_origin_fetch ((Inr (ucast origin), [p]) # later) l2_origin = Inr (origin', sent)"
  shows "\<forall>h \<in> set sent. hd_number h \<noteq> bad"
proof -
  obtain s1 r1 where f: "fetch_last_headers (op_get p) (origin + 1) new = (s1, r1)" by fastforce
  have "bad \<in> set (block_range (origin + 1) new)"
  proof -
    have "origin \<noteq> - 1" using assms(3) by (auto simp: word_order.extremum_strict)
    then have "unat (origin + 1) \<le> unat bad" "unat bad \<le> unat new"
      using assms(3,4) by (simp_all add: unat_next word_less_nat_alt word_le_nat_alt)
    then have "unat bad \<in> {unat (origin + 1)..<Suc (unat new)}" by simp
    then have "of_nat (unat bad) \<in> set (block_range (origin + 1) new)"
      unfolding block_range_def by (simp only: set_map set_upt imageI)
    then show ?thesis by simp
  qed
  then obtain e where r1: "r1 = Inl e"
    using fetch_each_missing[OF f[unfolded fetch_last_headers_def], of bad] assms(5)
    by (cases "op_get p bad") (auto split: option.splits)
  have less: "origin < new" using assms(3,4) by simp
  with f r1 assms(1,7) obtain more where
    more: "run_origin_fetch later new = Inr (origin', more)" "sent = s1 @ more"
    by (auto simp: fetch_origin_blocks_def bindR_eq_Inr)
  have "\<forall>h \<in> set s1. hd_number h \<noteq> bad" using headers_sent[OF f assms(2)] assms(5) by blast
  moreover have "\<forall>h \<in> set more. new < hd_number h"
    using sessions_above[OF assms(6) order_refl more(1)] .
  ultimately show ?thesis using more(2) assms(4) by auto
qed

end
