(* ===== verification/Confirmation.thy ===== *)
theory Confirmation
  imports Feed_Props Seq_Context_Props
begin

text \<open>
  The feed of confirmed blocks and the chain view together: which of our own blocks are checked against
  the chain.
\<close>

subsection \<open>Headers in order\<close>

abbreviation confirm_all :: "(bytes \<Rightarrow> u64 option) \<Rightarrow> header list \<Rightarrow> seq_context \<Rightarrow> seq_context run" where
  "confirm_all decode hs cx \<equiv> run_events (ctx_step decode) (map OriginBlock hs) cx"

lemma confirm_one:
  assumes "ctx_inv cx" "new_origin_l2_block h cx = Inr cx'"
  shows "confirms h cx \<and> bt_get (cx_to_verify cx') (hd_number h) = None \<and>
    (\<forall>k > hd_number h. bt_get (cx_to_verify cx') k = bt_get (cx_to_verify cx) k)"
proof -
  have "bt_wf (cx_to_verify cx)" using assms(1) by (simp add: ctx_inv_def keyed_by_number_def)
  with assms(2) show ?thesis
    by (auto simp: new_origin_eq bt.get_remove bt.get_retain split: if_splits)
qed

lemma confirm_all_ok:
  assumes "ctx_inv cx" "sorted_wrt (<) (map hd_number hs)" "confirm_all decode hs cx = Inr cx'"
  shows "(\<forall>h \<in> set hs. confirms h cx) \<and> (\<forall>k. (\<forall>h \<in> set hs. hd_number h < k) \<longrightarrow>
    bt_get (cx_to_verify cx') k = bt_get (cx_to_verify cx) k)"
  using assms
proof (induction hs arbitrary: cx)
  case (Cons h hs)
  then obtain cx1 where one: "new_origin_l2_block h cx = Inr cx1" and rest: "confirm_all decode hs cx1 = Inr cx'"
    by (auto simp: bindR_eq_Inr)
  note step = confirm_one[OF Cons.prems(1) one]
  have above: "\<forall>h' \<in> set hs. hd_number h < hd_number h'" using Cons.prems(2) by simp
  have ih: "(\<forall>h \<in> set hs. confirms h cx1) \<and> (\<forall>k. (\<forall>h \<in> set hs. hd_number h < k) \<longrightarrow>
      bt_get (cx_to_verify cx') k = bt_get (cx_to_verify cx1) k)"
    using Cons.IH[OF new_origin_inv[OF Cons.prems(1) one] _ rest] Cons.prems(2) by simp
  have "\<forall>h' \<in> set hs. confirms h' cx" using ih step above by (simp add: confirms_def)
  with ih step show ?case by auto
qed simp

lemma confirm_all_panic:
  assumes "ctx_inv cx" "sorted_wrt (<) (map hd_number hs)" "confirm_all decode hs cx = Inl m"
  shows "m = ''block verify mismatch'' \<and> (\<exists>h \<in> set hs. \<not> confirms h cx)"
  using assms
proof (induction hs arbitrary: cx)
  case (Cons h hs)
  show ?case
  proof (cases "new_origin_l2_block h cx")
    case (Inl m')
    with Cons.prems(3) show ?thesis by (auto simp: new_origin_eq split: if_splits)
  next
    case (Inr cx1)
    note step = confirm_one[OF Cons.prems(1) Inr]
    obtain h' where h': "m = ''block verify mismatch''" "h' \<in> set hs" "\<not> confirms h' cx1"
      using Cons.IH[OF new_origin_inv[OF Cons.prems(1) Inr]] Cons.prems(2,3) Inr by auto
    have "hd_number h < hd_number h'" using Cons.prems(2) h'(2) by simp
    with step h'(3) have "\<not> confirms h' cx" by (simp add: confirms_def)
    with h'(1,2) show ?thesis by auto
  qed
qed simp

lemma sorted_block_range: "sorted_wrt (<) (block_range a b)"
proof -
  have "sorted_wrt (\<lambda>x y. (of_nat x :: u64) < of_nat y) [unat a..<Suc (unat b)]"
  proof (rule sorted_wrt_mono_rel[of _ "(<)"])
    fix x y
    assume xy: "x \<in> set [unat a..<Suc (unat b)]" "y \<in> set [unat a..<Suc (unat b)]" "x < y"
    have "unat b < 2 ^ 64" by (rule unat_u64_less)
    with xy have "x < 2 ^ 64" "y < 2 ^ 64" by (auto simp only: set_upt atLeastLessThan_iff)
    with xy(3) show "(of_nat x :: u64) < of_nat y"
      by (simp add: word_less_nat_alt unsigned_of_nat take_bit_nat_eq_self)
  qed (rule sorted_wrt_upt)
  then show ?thesis by (simp add: block_range_def sorted_wrt_map)
qed

lemma block_range_mem: "a \<le> k \<Longrightarrow> k \<le> b \<Longrightarrow> k \<in> set (block_range a b)"
proof -
  assume "a \<le> k" "k \<le> b"
  then have "unat k \<in> {unat a..<Suc (unat b)}" by (simp add: word_le_nat_alt)
  then have "of_nat (unat k) \<in> set (block_range a b)"
    unfolding block_range_def by (simp only: set_map set_upt imageI)
  then show ?thesis by simp
qed

subsection \<open>The feed and the chain view\<close>



subsection \<open>Examples\<close>

text \<open>Our block 6 is on a fork of the chain of the fixture.\<close>

definition fx_own :: header where
  "fx_own = (blk_header (fx_feed 6))\<lparr>hd_hash := 66\<rparr>"

definition fx_view :: seq_context where
  "fx_view = (seq_context_new 0 1 5 0 9)\<lparr>cx_to_verify := [(6, fx_own)]\<rparr>"

lemma fx_view_inv: "ctx_inv fx_view"
  by (simp add: ctx_inv_def fx_view_def seq_context_new_def keyed_by_number_def fx_own_def fx_feed_def
      bt_wf_def)

lemma fx_feed_number [simp]: "hd_number (blk_header (fx_feed i)) = i"
  by (simp add: fx_feed_def)



end
