(* ===== verification/Intake.thy ===== *)
theory Intake
  imports Gw_Orders Eyre
begin

text \<open>
  How transactions come in, \<open>crates/rpc/src\<close>: the JSON-RPC method \<open>eth_sendRawTransaction\<close>, the
  subscription to the mempool of an L2 node, and the repeated fetch of its transaction pool.

  Parameters: decoding of transactions and JSON, recovery of the sender, and what the node sends.  The
  channels to the sequencer are unbounded, so that sending never fails while the sequencer runs.
\<close>

subsection \<open>The RPC server\<close>

datatype rpc_error = FailedParsing | ClientError string

text \<open>The code and message of the error object that a client gets.\<close>

fun error_object :: "rpc_error \<Rightarrow> int \<times> string" where
  "error_object FailedParsing = (- 32700, ''failed parsing raw transaction'')"
| "error_object (ClientError e) = (- 32603, e)"

record decoder =
  dc_rlp_decode :: "bytes \<Rightarrow> string + tx_envelope"
  dc_encoded_2718 :: "tx_envelope \<Rightarrow> bytes"
  dc_recover_signer :: "tx_envelope \<Rightarrow> string + address"

definition decode_order :: "decoder \<Rightarrow> bytes \<Rightarrow> string + order" where
  "decode_order dc raw = order_decode (dc_rlp_decode dc) (dc_encoded_2718 dc) (dc_recover_signer dc) raw"

definition send_raw_transaction ::
    "decoder \<Rightarrow> bytes \<Rightarrow> order list \<Rightarrow> (rpc_error + b256) \<times> order list" where
  "send_raw_transaction dc raw_tx sequence_tx =
     (case decode_order dc raw_tx of
        Inl _ \<Rightarrow> (Inl FailedParsing, sequence_tx)
      | Inr order \<Rightarrow> (Inr (tx_hash (ord_tx order)), sequence_tx @ [order]))"

text \<open>The server, request by request.\<close>

fun serve :: "decoder \<Rightarrow> bytes list \<Rightarrow> order list \<Rightarrow> (rpc_error + b256) list \<times> order list" where
  "serve dc [] sequence_tx = ([], sequence_tx)"
| "serve dc (raw # raws) sequence_tx =
     (let (answer, sequence_tx) = send_raw_transaction dc raw sequence_tx;
          (answers, sequence_tx) = serve dc raws sequence_tx
      in (answer # answers, sequence_tx))"

subsection \<open>The mempool subscription\<close>

datatype ws_message =
    WsText string
  | WsPing bytes
  | WsClose "string option"
  | WsOther

text \<open>What a session does: it hands over orders and writes pongs.\<close>

datatype session_action = Order_Received order | Pong bytes

record session_io =
  si_connect :: "unit eyre"
  si_subscribe :: "unit eyre"
  si_pong :: "bytes \<Rightarrow> unit eyre"
  si_parse :: "string \<Rightarrow> (tx_envelope \<times> address) eyre"
  si_encoded_2718 :: "tx_envelope \<Rightarrow> bytes"

fun read_messages :: "session_io \<Rightarrow> ws_message eyre list \<Rightarrow> session_action list \<times> string" where
  "read_messages io [] = ([], ''mempool subscription disconnected'')"
| "read_messages io (Inl e # rest) = ([], ''ws connection error: '' @ e)"
| "read_messages io (Inr (WsText raw) # rest) =
     (case si_parse io raw of
        Inl _ \<Rightarrow> read_messages io rest
      | Inr (tx, tx_from) \<Rightarrow>
          (let (actions, e) = read_messages io rest
           in (Order_Received (order_new_with_sender (si_encoded_2718 io) tx tx_from) # actions, e)))"
| "read_messages io (Inr (WsPing bs) # rest) =
     (case si_pong io bs of
        Inl e \<Rightarrow> ([], e)
      | Inr _ \<Rightarrow> (let (actions, e) = read_messages io rest in (Pong bs # actions, e)))"
| "read_messages io (Inr (WsClose (Some frame)) # rest) =
     ([], ''received close frame with data: '' @ frame)"
| "read_messages io (Inr (WsClose None) # rest) = ([], ''ws server closed the connection'')"
| "read_messages io (Inr WsOther # rest) = read_messages io rest"

text \<open>The first message, the confirmation of the subscription, is skipped.  A session never succeeds: the
  answer is the error that ends it.\<close>

definition subscribe_mempool ::
    "session_io \<Rightarrow> ws_message eyre list \<Rightarrow> session_action list \<times> string" where
  "subscribe_mempool io messages =
     (case si_connect io of
        Inl e \<Rightarrow> ([], e)
      | Inr _ \<Rightarrow>
          (case si_subscribe io of
             Inl e \<Rightarrow> ([], e)
           | Inr _ \<Rightarrow> read_messages io (tl messages)))"

text \<open>The loop around it starts a session after another.\<close>

definition mempool_sessions ::
    "(session_io \<times> ws_message eyre list) list \<Rightarrow> session_action list" where
  "mempool_sessions sessions = concat (map (\<lambda>(io, messages). fst (subscribe_mempool io messages)) sessions)"

definition orders_of :: "session_action list \<Rightarrow> order list" where
  "orders_of actions = concat (map (\<lambda>a. case a of Order_Received o1 \<Rightarrow> [o1] | Pong _ \<Rightarrow> []) actions)"

subsection \<open>The transaction pool\<close>

text \<open>The transactions by sender and nonce, in the order of the maps.\<close>

type_synonym pool_content = "(address \<times> (string \<times> tx_envelope \<times> address) list) list"

record txpool_content =
  tc_pending :: pool_content
  tc_queued :: pool_content

definition content_orders :: "(tx_envelope \<Rightarrow> bytes) \<Rightarrow> pool_content \<Rightarrow> order list" where
  "content_orders encoded_2718 content =
     concat (map (\<lambda>(_, txs). map (\<lambda>(_, tx, tx_from). order_new_with_sender encoded_2718 tx tx_from) txs)
       content)"

definition fetch_txpool ::
    "(tx_envelope \<Rightarrow> bytes) \<Rightarrow> txpool_content eyre \<Rightarrow> order list \<Rightarrow> unit eyre \<times> order list" where
  "fetch_txpool encoded_2718 answer mempool_tx =
     (case answer of
        Inl e \<Rightarrow> (Inl e, mempool_tx)
      | Inr txpool \<Rightarrow>
          (Inr (), mempool_tx @ content_orders encoded_2718 (tc_pending txpool) @
                     content_orders encoded_2718 (tc_queued txpool)))"

subsection \<open>What reaches the sequencer\<close>

lemma serve_orders:
  "serve dc raws q = (answers, q') \<Longrightarrow>
     q' = q @ [o1. Inr o1 \<leftarrow> map (decode_order dc) raws] \<and>
     answers = map (\<lambda>raw. case decode_order dc raw of Inl _ \<Rightarrow> Inl FailedParsing
                     | Inr o1 \<Rightarrow> Inr (tx_hash (ord_tx o1))) raws"
proof (induction raws arbitrary: q answers q')
  case (Cons raw raws)
  obtain a1 q1 where one: "send_raw_transaction dc raw q = (a1, q1)" by fastforce
  obtain as q2 where rest: "serve dc raws q1 = (as, q2)" by fastforce
  have out: "answers = a1 # as" "q' = q2" using Cons.prems one rest by simp_all
  show ?case
    using one out Cons.IH[OF rest] by (cases "decode_order dc raw") (auto simp: send_raw_transaction_def)
qed simp

text \<open>Every raw transaction that can be decoded is handed to the sequencer exactly once and in order, with
  its signer as sender, and answered with its hash; any other is answered with a parse error and changes
  nothing.\<close>

theorem raw_transactions_served:
  "serve dc raws [] =
     (map (\<lambda>raw. case decode_order dc raw of Inl _ \<Rightarrow> Inl FailedParsing
             | Inr o1 \<Rightarrow> Inr (tx_hash (ord_tx o1))) raws,
      [o1. Inr o1 \<leftarrow> map (decode_order dc) raws])"
  using serve_orders[of dc raws "[]"] by (metis append_Nil prod.exhaust)

text \<open>Reference view of a session: each message on its own, up to the first that ends the session.\<close>

definition ends_session :: "session_io \<Rightarrow> ws_message eyre \<Rightarrow> bool" where
  "ends_session io m = (case m of
     Inl _ \<Rightarrow> True
   | Inr (WsClose _) \<Rightarrow> True
   | Inr (WsPing bs) \<Rightarrow> (case si_pong io bs of Inl _ \<Rightarrow> True | Inr _ \<Rightarrow> False)
   | Inr _ \<Rightarrow> False)"

definition action_of :: "session_io \<Rightarrow> ws_message eyre \<Rightarrow> session_action list" where
  "action_of io m = (case m of
     Inr (WsText raw) \<Rightarrow>
       (case si_parse io raw of
          Inl _ \<Rightarrow> []
        | Inr (tx, tx_from) \<Rightarrow> [Order_Received (order_new_with_sender (si_encoded_2718 io) tx tx_from)])
   | Inr (WsPing bs) \<Rightarrow> [Pong bs]
   | _ \<Rightarrow> [])"

lemma ends_session_simps [simp]:
  "ends_session io (Inl e)" "ends_session io (Inr (WsClose f))"
  "\<not> ends_session io (Inr (WsText raw))" "\<not> ends_session io (Inr WsOther)"
  "ends_session io (Inr (WsPing bs)) \<longleftrightarrow> (\<exists>e. si_pong io bs = Inl e)"
  by (auto simp: ends_session_def split: sum.splits)

lemma action_of_simps [simp]:
  "action_of io (Inr (WsPing bs)) = [Pong bs]" "action_of io (Inr WsOther) = []"
  "si_parse io raw = Inl e \<Longrightarrow> action_of io (Inr (WsText raw)) = []"
  "si_parse io raw = Inr (tx, tx_from) \<Longrightarrow>
     action_of io (Inr (WsText raw)) = [Order_Received (order_new_with_sender (si_encoded_2718 io) tx tx_from)]"
  by (simp_all add: action_of_def)

lemma read_messages_actions:
  "fst (read_messages io ms) = concat (map (action_of io) (takeWhile (\<lambda>m. \<not> ends_session io m) ms))"
proof (induction io ms rule: read_messages.induct)
  case (3 io raw rest)
  then show ?case by (cases "si_parse io raw") (auto simp: Let_def split: prod.splits)
next
  case (4 io bs rest)
  then show ?case by (cases "si_pong io bs") (auto simp: Let_def split: prod.splits)
qed simp_all

text \<open>A mempool session handles each message on its own: after the confirmation, every transaction that
  can be parsed is handed over and every ping is answered, in order, up to the first message that ends
  the session; a message that cannot be parsed is skipped and does not end it.\<close>

theorem mempool_session_complete:
  assumes "si_connect io = Inr ()" "si_subscribe io = Inr ()"
  shows "fst (subscribe_mempool io messages) =
    concat (map (action_of io) (takeWhile (\<lambda>m. \<not> ends_session io m) (tl messages)))"
  using assms by (simp add: subscribe_mempool_def read_messages_actions)

definition fx_session :: session_io where
  "fx_session =
     \<lparr>si_connect = Inr (), si_subscribe = Inr (), si_pong = (\<lambda>_. Inr ()),
      si_parse = (\<lambda>raw. if raw = ''tx''
        then Inr (\<lparr>tx_nonce = 1, tx_max_fee_per_gas = 10, tx_priority_fee_or_price = 0, tx_hash = 5, tx_input = []\<rparr>, 77)
        else Inl ''json''),
      si_encoded_2718 = (\<lambda>_. [])\<rparr>"

theorem mempool_session_complete_witness:
  "length (fst (subscribe_mempool fx_session
     [Inr (WsText ''confirmed''), Inr (WsText ''bad''), Inr (WsPing [1]), Inr (WsText ''tx''), Inr (WsClose None),
      Inr (WsText ''tx'')])) = 2"
  using mempool_session_complete[of fx_session
     "[Inr (WsText ''confirmed''), Inr (WsText ''bad''), Inr (WsPing [1]), Inr (WsText ''tx''), Inr (WsClose None),
      Inr (WsText ''tx'')]"]
  by (simp add: fx_session_def action_of_def)

end
