(* ===== verification/Utilities.thy ===== *)
theory Utilities
  imports Eyre
begin

text \<open>
  Two utilities with logic of their own: the signature of anchor transactions with a fixed nonce,
  \<open>crates/common/src/taiko/fixed_signer.rs\<close>, and the text of alerts, \<open>alert_discord\<close> of
  \<open>crates/common/src/utils.rs\<close>.
\<close>

unbundle bit_operations_syntax

subsection \<open>Signatures with a fixed nonce\<close>

text \<open>The ECDSA library: conversion of a hash to a scalar, signing of a scalar with a key and a nonce, which
  answers with the signature and whether y is odd, and the low-s form of a signature that is not low.\<close>

record ('key, 'z, 'sig) ecdsa =
  ec_bits2field :: "b256 \<Rightarrow> 'z eyre"
  ec_sign_prehashed :: "'key \<Rightarrow> nat \<Rightarrow> 'z \<Rightarrow> ('sig \<times> bool) eyre"
  ec_normalize_s :: "'sig \<times> bool \<Rightarrow> ('sig \<times> bool) option"

definition sign_fixed_k ::
    "('key, 'z, 'sig) ecdsa \<Rightarrow> b256 \<Rightarrow> 'key \<Rightarrow> ('sig \<times> bool) eyre" where
  "sign_fixed_k ec prehash scalar =
     bindR (ec_bits2field ec prehash) (\<lambda>z.
     bindR (case ec_sign_prehashed ec scalar 1 z of
              Inr res \<Rightarrow> Inr res
            | Inl _ \<Rightarrow> (case ec_sign_prehashed ec scalar 2 z of
                         Inr res \<Rightarrow> Inr res
                       | Inl _ \<Rightarrow> Inl ''failed to sign anchor using K=1 and K=2'')) (\<lambda>sig.
       Inr (case ec_normalize_s ec sig of Some normalized \<Rightarrow> normalized | None \<Rightarrow> sig)))"

text \<open>A signature exists iff one of the two nonces works, and it is in low-s form, provided that
  normalization gives that form.\<close>

lemma sign_fixed_k_total:
  "ec_bits2field ec prehash = Inr z \<Longrightarrow>
   (\<exists>sig. sign_fixed_k ec prehash scalar = Inr sig) \<longleftrightarrow>
     (\<exists>k \<in> {1, 2}. \<exists>sig. ec_sign_prehashed ec scalar k z = Inr sig)"
  by (auto simp: sign_fixed_k_def split: sum.splits)

lemma sign_fixed_k_low:
  assumes "\<And>sig sig'. ec_normalize_s ec sig = Some sig' \<Longrightarrow> ec_normalize_s ec sig' = None"
    and "sign_fixed_k ec prehash scalar = Inr sig"
  shows "ec_normalize_s ec sig = None"
proof -
  from assms(2) obtain raw where "sig = (case ec_normalize_s ec raw of Some normalized \<Rightarrow> normalized | None \<Rightarrow> raw)"
    by (auto simp: sign_fixed_k_def bindR_eq_Inr simp del: split_paired_Ex)
  with assms(1) show ?thesis by (cases "ec_normalize_s ec raw") simp_all
qed

subsection \<open>Alerts\<close>

text \<open>The statics that are set once at the start.  Texts are UTF-8.\<close>

record alert_statics =
  as_app_id :: "bytes option"
  as_webhook_url :: "string option"
  as_user :: "bytes option"

definition ascii :: "string \<Rightarrow> bytes" where
  "ascii s = map of_char s"

definition is_char_boundary :: "bytes \<Rightarrow> nat \<Rightarrow> bool" where
  "is_char_boundary s i \<longleftrightarrow>
     i = 0 \<or> i = length s \<or> (i < length s \<and> (s ! i) AND 0xC0 \<noteq> 0x80)"

definition alert_discord :: "alert_statics \<Rightarrow> bytes \<Rightarrow> (string \<times> bytes) option run" where
  "alert_discord st message =
     (let app_id = (case as_app_id st of Some a \<Rightarrow> a | None \<Rightarrow> ascii ''unknown'') in
      case as_webhook_url st of
        None \<Rightarrow> Inr None
      | Some webhook_url \<Rightarrow>
          (let user_tag = (case as_user st of Some u \<Rightarrow> u | None \<Rightarrow> []);
               max_len = min 1850 (length message)
           in if is_char_boundary message max_len
              then Inr (Some (webhook_url, user_tag @ [10] @ ascii ''APP_ID: `'' @ app_id @ ascii ''`'' @ [10] @
                                take max_len message))
              else Inl ''byte index is not a char boundary''))"

text \<open>An alert panics exactly if a webhook is set and the cut at 1850 bytes is inside a character.\<close>

lemma alert_panics_iff:
  "(\<exists>m. alert_discord st message = Inl m) \<longleftrightarrow>
     as_webhook_url st \<noteq> None \<and> 1850 < length message \<and> message ! 1850 AND 0xC0 = 0x80"
  by (auto simp: alert_discord_def is_char_boundary_def Let_def min_def not_le split: option.splits if_splits)

lemma ascii_not_continuation:
  fixes b :: u8
  assumes "b < 128"
  shows "b AND 0xC0 \<noteq> 0x80"
proof
  assume "b AND 0xC0 = 0x80"
  then have "0x80 \<le> b" using word_and_le2[of b "0xC0"] by simp
  with assms show False by simp
qed

lemma ascii_alerts_are_sent:
  assumes "\<forall>b \<in> set message. b < 128"
  shows "\<exists>r. alert_discord st message = Inr r"
proof (cases "alert_discord st message")
  case (Inl m)
  then have "1850 < length message" "message ! 1850 AND 0xC0 = 0x80"
    using alert_panics_iff[of st message] by blast+
  moreover have "message ! 1850 < 128" using assms calculation(1) nth_mem by blast
  ultimately show ?thesis using ascii_not_continuation by blast
qed simp

end
