(* ===== verification/Pool_Spec.thy ===== *)
theory Pool_Spec
  imports Pool_Props
begin

text \<open>
  The transaction pool as a finite map.  The abstract state knows, for every sender and nonce, the
  order in the pool, for every sender the next nonce if it is known, and the block for which these
  nonces hold.  \<open>pool_abs\<close> forgets how the pool stores this (one list per sender, dropped when it is
  empty); every operation of the pool commutes with it.
\<close>

subsection \<open>The specification\<close>

record pool_spec =
  ps_orders :: "address \<Rightarrow> u64 \<Rightarrow> order option"
  ps_known :: "address \<Rightarrow> u64 option"
  ps_block :: u64

definition ps_empty :: pool_spec where
  "ps_empty = \<lparr>ps_orders = (\<lambda>_ _. None), ps_known = (\<lambda>_. None), ps_block = 0\<rparr>"

definition stale_for :: "(address \<Rightarrow> u64 option) \<Rightarrow> address \<Rightarrow> u64 \<Rightarrow> bool" where
  "stale_for known s k \<longleftrightarrow> (case known s of Some n \<Rightarrow> k < n | None \<Rightarrow> False)"

definition forget :: "pool_spec \<Rightarrow> pool_spec" where
  "forget P = P\<lparr>ps_known := (\<lambda>_. None)\<rparr>"

text \<open>What is known of the nonces of another block is forgotten.\<close>

definition known_for :: "u64 \<Rightarrow> pool_spec \<Rightarrow> address \<Rightarrow> u64 option" where
  "known_for block P = (if ps_block P = block then ps_known P else (\<lambda>_. None))"

definition accept_order :: "order \<Rightarrow> (address \<Rightarrow> u64 \<Rightarrow> order option) \<Rightarrow> address \<Rightarrow> u64 \<Rightarrow> order option" where
  "accept_order tx orders s k = (if s = ord_sender tx \<and> k = order_nonce tx then Some tx else orders s k)"

text \<open>Nonces are learned: what was known of the same block is kept, and the orders below a learned
  nonce leave the pool.\<close>

definition learn ::
    "u64 \<Rightarrow> (address \<Rightarrow> u64 option) \<Rightarrow> (address \<Rightarrow> u64 \<Rightarrow> bool) \<Rightarrow> pool_spec \<Rightarrow> pool_spec" where
  "learn block nonces drops P =
     \<lparr>ps_orders = (\<lambda>s k. if drops s k then None else ps_orders P s k),
      ps_known = known_for block P ++ nonces, ps_block = block\<rparr>"

text \<open>Sorting reports the nonces of the state and those of the orders it has applied.  A pool that
  already has nonces for the block learns both, one after the other.\<close>

definition sealed_drops :: "sorting_nonces \<Rightarrow> pool_spec \<Rightarrow> address \<Rightarrow> u64 \<Rightarrow> bool" where
  "sealed_drops sn P s k \<longleftrightarrow> stale_for (get_nonce sn) s k \<or>
     ps_block P = valid_block sn \<and> stale_for (sn_get (srt_state sn)) s k"

fun ps_apply :: "pool_op \<Rightarrow> pool_spec \<Rightarrow> pool_spec" where
  "ps_apply (PutTx tx parent) P =
     (let known = known_for (parent + 1) P
      in if stale_for known (ord_sender tx) (order_nonce tx) then P
         else P\<lparr>ps_orders := accept_order tx (ps_orders P), ps_known := known\<rparr>)"
| "ps_apply (ActiveOrders block f) P = P\<lparr>ps_known := known_for block P\<rparr>"
| "ps_apply (NewBlock sn) P =
     (learn (valid_block sn) (get_nonce sn) (sealed_drops sn P) P)\<lparr>ps_block := valid_block sn + 1\<rparr>"
| "ps_apply (ResetTo sn) P =
     learn (valid_block sn) (sn_get (srt_state sn)) (stale_for (sn_get (srt_state sn))) P"
| "ps_apply ClearNonces P = forget P"
| "ps_apply (SanityCheck parent sim now) P = P"

text \<open>The sanity check looks at one sender of the pool: it may forget the nonces, but only if the
  simulator contradicts a nonce that is known of a sender with an order in the pool.\<close>

definition contradicted :: "u64 \<Rightarrow> (address \<Rightarrow> u64 option) \<Rightarrow> pool_spec \<Rightarrow> bool" where
  "contradicted parent sim P \<longleftrightarrow> (\<exists>s k n m. ps_orders P s k \<noteq> None \<and>
     known_for (parent + 1) P s = Some n \<and> sim s = Some m \<and> n \<noteq> m)"

fun ps_step :: "pool_op \<Rightarrow> pool_spec \<Rightarrow> pool_spec \<Rightarrow> bool" where
  "ps_step (SanityCheck parent sim now) P P' \<longleftrightarrow> P' = P \<or> contradicted parent sim P \<and> P' = forget P"
| "ps_step e P P' \<longleftrightarrow> P' = ps_apply e P"

fun ps_run :: "pool_op list \<Rightarrow> pool_spec \<Rightarrow> pool_spec \<Rightarrow> bool" where
  "ps_run [] P P' \<longleftrightarrow> P' = P"
| "ps_run (e # es) P P' \<longleftrightarrow> (\<exists>Q. ps_step e P Q \<and> ps_run es Q P')"

subsection \<open>The abstraction\<close>

definition pool_abs :: "tx_pool \<Rightarrow> pool_spec" where
  "pool_abs tp = \<lparr>ps_orders = pool_lookup tp, ps_known = sn_get (tp_nonces tp),
     ps_block = sn_valid_block (tp_nonces tp)\<rparr>"

lemma pool_abs_simps [simp]:
  "ps_orders (pool_abs tp) = pool_lookup tp" "ps_known (pool_abs tp) = sn_get (tp_nonces tp)"
  "ps_block (pool_abs tp) = sn_valid_block (tp_nonces tp)"
  by (simp_all add: pool_abs_def)

lemma pool_abs_eqI:
  assumes "\<And>s k. pool_lookup tp s k = ps_orders P s k" "sn_get (tp_nonces tp) = ps_known P"
    and "sn_valid_block (tp_nonces tp) = ps_block P"
  shows "pool_abs tp = P"
proof -
  have "pool_lookup tp = ps_orders P" using assms(1) by (simp add: fun_eq_iff)
  with assms(2,3) show ?thesis by (simp add: pool_abs_def)
qed

lemma learn_simps [simp]:
  "ps_orders (learn block nonces drops P) s k = (if drops s k then None else ps_orders P s k)"
  "ps_known (learn block nonces drops P) = known_for block P ++ nonces"
  "ps_block (learn block nonces drops P) = block"
  by (simp_all add: learn_def)

lemma pool_lookup_frame [simp]:
  "pool_lookup (tp\<lparr>tp_nonces := sn\<rparr>) = pool_lookup tp"
  "pool_lookup (tp\<lparr>tp_discarded_orders := d\<rparr>) = pool_lookup tp"
  by (simp_all add: pool_lookup_def)

lemma pool_abs_new: "pool_abs tx_pool_new = ps_empty"
  by (auto simp: pool_abs_def ps_empty_def tx_pool_new_def pool_lookup_def lists_lookup_def fun_eq_iff)

lemma forward_sender_lookup:
  assumes "lists_wf tls"
  shows "lists_lookup (forward_sender s n tls) s' k =
    (if s' = s \<and> k < n then None else lists_lookup tls s' k)"
proof (cases "hm_get tls s")
  case None
  then show ?thesis by (simp add: forward_sender_def lists_lookup_def)
next
  case (Some l)
  then have "bt_wf (tl_txs l)" using lists_wf_get[OF assms] by (auto simp: tl_wf_def)
  then have "bt_get (bt_retain (\<lambda>nonce. n \<le> nonce) (tl_txs l)) k = (if k < n then None else bt_get (tl_txs l) k)"
    by (auto simp: bt.get_retain)
  with Some show ?thesis
    by (auto simp: forward_sender_def tl_forward_def lists_lookup_def Let_def bt_get_def split: if_splits)
qed

definition dropped_by :: "(address \<times> u64) list \<Rightarrow> address \<Rightarrow> u64 \<Rightarrow> bool" where
  "dropped_by kvs s k \<longleftrightarrow> (\<exists>n. (s, n) \<in> set kvs \<and> k < n)"

lemma forward_all_lookup:
  "lists_wf tls \<Longrightarrow> lists_lookup (forward_all kvs tls) s k =
     (if dropped_by kvs s k then None else lists_lookup tls s k)"
proof (induction kvs tls rule: forward_all.induct)
  case (2 s' n rest tls)
  with forward_sender_wf[OF "2.prems", of s' n] forward_sender_lookup[OF "2.prems", of s' n s k]
  show ?case by (auto simp: dropped_by_def)
qed (simp add: dropped_by_def)

lemma merge_nonces_lists: "tp_tx_lists (merge_nonces kvs tp) = forward_all kvs (tp_tx_lists tp)"
  by (induction kvs tp rule: merge_nonces.induct) simp_all

lemma dropped_by_cache: "hm_wf m \<Longrightarrow> dropped_by m = stale_for (hm_get m)"
  by (auto simp: dropped_by_def stale_for_def fun_eq_iff dest: hm_in_get intro: hm_get_in split: option.splits)

lemma dropped_by_append: "dropped_by (a @ b) s k \<longleftrightarrow> dropped_by a s k \<or> dropped_by b s k"
  by (auto simp: dropped_by_def)

lemma merge_known:
  "hm_wf kvs \<Longrightarrow> sn_get (tp_nonces (merge_nonces kvs tp)) = sn_get (tp_nonces tp) ++ hm_get kvs"
  by (auto simp: merge_nonces_get map_of_rev_distinct hm_wf_def hm_get_def map_add_def fun_eq_iff
      split: option.splits)

subsection \<open>Every operation commutes with the abstraction\<close>

lemma put_commutes:
  assumes "pool_wf tp" "tp_put tx parent tp = Inr tp'"
  shows "pool_abs tp' = ps_apply (PutTx tx parent) (pool_abs tp)"
proof -
  obtain tls where tls: "put_list tx (tp_tx_lists tp) = Inr tls"
    "\<And>s k. lists_lookup tls s k = accept_order tx (pool_lookup tp) s k"
    using put_list_lookup assms(1) unfolding pool_wf_def pool_lookup_def accept_order_def by metis
  have stale: "stale_for (known_for (parent + 1) (pool_abs tp)) (ord_sender tx) (order_nonce tx) \<longleftrightarrow>
      is_valid_parent (tp_nonces tp) parent \<and>
      (\<exists>n. sn_get (tp_nonces tp) (ord_sender tx) = Some n \<and> order_nonce tx < n)"
    by (auto simp: stale_for_def known_for_def is_valid_parent_def split: option.splits)
  show ?thesis
  proof (cases "stale_for (known_for (parent + 1) (pool_abs tp)) (ord_sender tx) (order_nonce tx)")
    case True
    with stale assms(2) have "tp' = tp\<lparr>tp_discarded_orders := tp_discarded_orders tp + 1\<rparr>"
      by (auto simp: tp_put_def)
    with True show ?thesis by (simp add: Let_def)
  next
    case False
    with stale tls(1) assms(2) have
      "tp_tx_lists tp' = tls" "sn_valid_block (tp_nonces tp') = sn_valid_block (tp_nonces tp)"
      "sn_get (tp_nonces tp') = known_for (parent + 1) (pool_abs tp)"
      by (auto simp: tp_put_def Let_def known_for_def is_valid_parent_def sn_get_empty
          split: option.splits if_splits)
    with False tls(2) show ?thesis
      by (intro pool_abs_eqI) (simp_all add: Let_def pool_lookup_def)
  qed
qed

lemma active_commutes:
  assumes "pool_wf tp" "tp_active_orders block f tp = Inr (tp', r)"
  shows "pool_abs tp' = ps_apply (ActiveOrders block f) (pool_abs tp)"
proof -
  obtain tp1 r1 where "tp_active_orders block f tp = Inr (tp1, r1)"
    "tp1 = (if is_valid_block (tp_nonces tp) block then tp else clear_nonces tp)"
    using tp_active_orders_cases[OF assms(1), of block f] by metis
  with assms(2) have tp': "tp' = (if is_valid_block (tp_nonces tp) block then tp else clear_nonces tp)"
    by simp
  show ?thesis
    by (rule pool_abs_eqI) (simp_all add: tp' known_for_def is_valid_block_def clear_nonces_def)
qed

lemma reset_commutes:
  assumes "pool_wf tp" "sorting_nonces_wf sn"
  shows "pool_abs (update_reset sn tp) = ps_apply (ResetTo sn) (pool_abs tp)"
proof -
  have wf: "hm_wf (sn_nonces (srt_state sn))" using assms(2) by (simp add: sorting_nonces_wf_def)
  have look: "lists_lookup (forward_all (sn_nonces (srt_state sn)) (tp_tx_lists tp)) s k =
      (if stale_for (sn_get (srt_state sn)) s k then None else pool_lookup tp s k)" for s k
    using assms(1) dropped_by_cache[OF wf]
    by (simp add: forward_all_lookup pool_wf_def pool_lookup_def sn_get_def)
  have known: "sn_get (tp_nonces (update_reset sn tp)) = known_for (valid_block sn) (pool_abs tp) ++ sn_get (srt_state sn)"
    using merge_known[OF wf, of tp] by (simp add: update_reset_def known_for_def sn_get_def)
  show ?thesis
    by (rule pool_abs_eqI)
      (simp_all add: known, simp_all add: update_reset_def pool_lookup_def merge_nonces_lists look[unfolded pool_lookup_def]
        valid_block_def)
qed

lemma new_block_commutes:
  assumes "pool_wf tp" "sorting_nonces_wf sn"
  shows "pool_abs (update_new_block sn tp) = ps_apply (NewBlock sn) (pool_abs tp)"
proof -
  have wf: "hm_wf (sn_nonces (srt_state sn))" "hm_wf (sn_nonces (srt_sorting sn))"
    using assms(2) by (simp_all add: sorting_nonces_wf_def)
  have merged: "hm_wf (sn_nonces (all_merged sn))" using wf by (simp add: all_merged_def hm_wf_extend)
  have get: "hm_get (sn_nonces (all_merged sn)) = get_nonce sn"
    using all_merged_get[OF wf(2)] by (simp add: sn_get_def)
  have look: "lists_lookup (forward_all kvs (tp_tx_lists tp)) s k =
      (if dropped_by kvs s k then None else pool_lookup tp s k)" for kvs s k
    using assms(1) by (simp add: forward_all_lookup pool_wf_def pool_lookup_def)
  have same: "dropped_by (all_iter sn) s k = sealed_drops sn (pool_abs tp) s k"
    if "sn_valid_block (tp_nonces tp) = valid_block sn" for s k
    using that wf
    by (auto simp: all_iter_def dropped_by_append dropped_by_cache sealed_drops_def stale_for_def
        get_nonce_def sn_get_def split: option.splits)
  have other: "dropped_by (sn_nonces (all_merged sn)) s k = sealed_drops sn (pool_abs tp) s k"
    if "sn_valid_block (tp_nonces tp) \<noteq> valid_block sn" for s k
    using that by (simp add: dropped_by_cache[OF merged] get sealed_drops_def)
  have known: "sn_get (tp_nonces (update_new_block sn tp)) = known_for (valid_block sn) (pool_abs tp) ++ get_nonce sn"
  proof (cases "sn_valid_block (tp_nonces tp) = valid_block sn")
    case True
    then have "sn_get (tp_nonces (update_new_block sn tp)) s =
        (known_for (valid_block sn) (pool_abs tp) ++ get_nonce sn) s" for s
      using all_iter_lookup[OF assms(2), of s]
      by (auto simp: update_new_block_def Let_def known_for_def sn_get_bump merge_nonces_get map_add_def
          split: option.splits)
    then show ?thesis by (rule ext)
  next
    case False
    with all_merged_get[OF wf(2)] show ?thesis
      by (simp add: update_new_block_def Let_def known_for_def sn_get_bump)
  qed
  have lists: "tp_tx_lists (update_new_block sn tp) = forward_all
      (if sn_valid_block (tp_nonces tp) = valid_block sn then all_iter sn else sn_nonces (all_merged sn)) (tp_tx_lists tp)"
    by (simp add: update_new_block_def Let_def merge_nonces_lists)
  show ?thesis
  proof (rule pool_abs_eqI)
    fix s k
    have "pool_lookup (update_new_block sn tp) s k =
        (if sealed_drops sn (pool_abs tp) s k then None else pool_lookup tp s k)"
      unfolding pool_lookup_def[of "update_new_block sn tp"] lists look using same other by simp
    then show "pool_lookup (update_new_block sn tp) s k = ps_orders (ps_apply (NewBlock sn) (pool_abs tp)) s k"
      by simp
  qed (simp_all add: known, simp add: update_new_block_def Let_def)
qed

lemma sampled_in_bounds:
  assumes "xs \<noteq> []"
  shows "unat (now mod len64 xs) < length xs"
proof (cases "len64 xs = 0")
  case True
  then have "2 ^ 64 dvd length xs" by (simp add: len64_def word_of_nat_eq_0_iff)
  with assms have "2 ^ 64 \<le> length xs" by (simp add: dvd_imp_le)
  with True show ?thesis using unat_u64_less[of now] by simp
next
  case False
  then have "unat (now mod len64 xs) < unat (len64 xs)"
    by (simp add: unat_mod unat_gt_0)
  also have "\<dots> \<le> length xs" by (simp add: len64_def unsigned_of_nat take_bit_eq_mod)
  finally show ?thesis .
qed

lemma pooled_order:
  assumes "lists_wf tls" "(s, l) \<in> set tls"
  shows "\<exists>k tx. lists_lookup tls s k = Some tx"
proof -
  have l: "hm_get tls s = Some l" "tl_wf l" "tl_txs l \<noteq> []"
    using assms by (auto simp: lists_wf_def intro: hm_in_get)
  obtain k tx where "(k, tx) \<in> set (tl_txs l)" using l(3) by (cases "tl_txs l") auto
  with l have "bt_get (tl_txs l) k = Some tx" by (simp add: tl_wf_def bt_in_get)
  with l(1) show ?thesis by (auto simp: lists_lookup_def)
qed

lemma sanity_commutes:
  assumes "pool_wf tp"
  shows "ps_step (SanityCheck parent sim now) (pool_abs tp) (pool_abs (report_and_sanity_check parent sim now tp))"
proof (cases "report_and_sanity_check parent sim now tp = tp")
  case False
  define i where "i = unat (now mod len64 (tp_tx_lists tp))"
  define addr where "addr = fst (tp_tx_lists tp ! i)"
  from False obtain n m where
    ne: "tp_tx_lists tp \<noteq> []" and seen: "is_valid_parent (tp_nonces tp) parent"
      "sn_get (tp_nonces tp) addr = Some n" "sim addr = Some m" "n \<noteq> m"
    and eq: "report_and_sanity_check parent sim now tp = clear_nonces tp"
    by (auto simp: report_and_sanity_check_def Let_def i_def addr_def split: option.splits if_splits)
  have "tp_tx_lists tp ! i \<in> set (tp_tx_lists tp)"
    using sampled_in_bounds[OF ne] by (simp add: i_def)
  then obtain k tx where "pool_lookup tp addr k = Some tx"
    using pooled_order[of "tp_tx_lists tp" addr "snd (tp_tx_lists tp ! i)"] assms
    by (auto simp: addr_def pool_wf_def pool_lookup_def)
  with seen have "contradicted parent sim (pool_abs tp)"
    unfolding contradicted_def
    by (intro exI[of _ addr] exI[of _ k] exI[of _ n] exI[of _ m])
      (simp add: known_for_def is_valid_parent_def)
  then show ?thesis by (simp add: eq clear_nonces_def forget_def pool_abs_def)
qed simp

lemma pool_step_commutes:
  assumes "pool_wf tp" "pool_legal e tp" "pool_step e tp = Inr tp'"
  shows "ps_step e (pool_abs tp) (pool_abs tp')"
proof (cases e)
  case (PutTx tx parent)
  with assms put_commutes[of tp tx parent tp'] show ?thesis by simp
next
  case (ActiveOrders block f)
  with assms(3) obtain r where "tp_active_orders block f tp = Inr (tp', r)"
    by (auto simp: bindR_eq_Inr)
  from active_commutes[OF assms(1) this] ActiveOrders show ?thesis by simp
next
  case (NewBlock sn)
  with assms new_block_commutes[of tp sn] show ?thesis by simp
next
  case (ResetTo sn)
  with assms reset_commutes[of tp sn] show ?thesis by simp
next
  case ClearNonces
  with assms(3) show ?thesis by (auto simp: clear_nonces_def forget_def pool_abs_def)
next
  case (SanityCheck parent sim now)
  with assms sanity_commutes[of tp parent sim now] show ?thesis by simp
qed

lemma pool_run_commutes:
  assumes "pool_wf tp \<and> pool_synced tp" "legal_run pool_step pool_legal es tp"
    "run_events pool_step es tp = Inr tp'"
  shows "ps_run es (pool_abs tp) (pool_abs tp')"
  using assms
proof (induction es arbitrary: tp)
  case (Cons e es)
  then obtain tp1 where tp1: "pool_step e tp = Inr tp1" "run_events pool_step es tp1 = Inr tp'"
    by (auto simp: bindR_eq_Inr)
  from Cons.prems(2) tp1(1) have "pool_legal e tp" "legal_run pool_step pool_legal es tp1" by simp_all
  moreover have "pool_wf tp1 \<and> pool_synced tp1"
    using pool_step_safe[OF Cons.prems(1) \<open>pool_legal e tp\<close>] tp1(1) by auto
  ultimately show ?case
    using Cons.IH[OF _ _ tp1(2)] pool_step_commutes[OF _ _ tp1(1)] Cons.prems(1) by auto
qed simp

subsection \<open>The refinement\<close>

text \<open>C23: The pool is a map from sender and nonce to orders.  From the empty pool, every sequence of its
  operations (with nonce caches that are proper hash maps) runs without a panic and corresponds to a
  run of the specification: an order is accepted unless a higher nonce of its sender is known for the
  parent block, and then replaces the order with its nonce; sealed blocks and resets teach nonces and
  drop exactly the orders below them; nonces of other blocks are forgotten before they are used; the
  sanity check forgets nonces only if the simulator contradicts one.  No known nonce is above an
  order in the pool.\<close>

theorem pool_refines_map:
  assumes "legal_run pool_step pool_legal ops tx_pool_new"
  shows "\<exists>tp. run_events pool_step ops tx_pool_new = Inr tp \<and> ps_run ops ps_empty (pool_abs tp) \<and>
    (\<forall>s k tx n. ps_orders (pool_abs tp) s k = Some tx \<and> ps_known (pool_abs tp) s = Some n \<longrightarrow> n \<le> k)"
proof -
  obtain tp where tp: "run_events pool_step ops tx_pool_new = Inr tp" "pool_wf tp" "pool_synced tp"
    using pool.run_safe[of tx_pool_new ops] assms by auto
  have "ps_run ops ps_empty (pool_abs tp)"
    using pool_run_commutes[OF _ assms tp(1)] by (simp add: pool_abs_new)
  moreover have "n \<le> k" if "pool_lookup tp s k = Some tx" "sn_get (tp_nonces tp) s = Some n" for s k tx n
    using that tp(3) lists_aboveD[of "sn_get (tp_nonces tp)" "tp_tx_lists tp" s]
    by (auto simp: pool_lookup_def lists_lookup_def pool_synced_def dest: bt_get_in split: option.splits)
  ultimately show ?thesis using tp(1) by auto
qed

theorem pool_refines_map_witness:
  "\<exists>tp. run_events pool_step ex_ops tx_pool_new = Inr tp \<and>
     ps_orders (pool_abs tp) 7 4 = None \<and> ps_orders (pool_abs tp) 7 5 = Some (ex_tx 7 5 6) \<and>
     ps_orders (pool_abs tp) 8 2 = Some (ex_tx 8 2 9) \<and> ps_known (pool_abs tp) 7 = Some 5"
proof -
  have "legal_run pool_step pool_legal ex_ops tx_pool_new"
    by (auto simp: ex_ops_def ex_nonces_wf split: sum.splits)
  from pool_refines_map[OF this] obtain tp where
    tp: "run_events pool_step ex_ops tx_pool_new = Inr tp" "ps_run ex_ops ps_empty (pool_abs tp)" by blast
  have nonces: "valid_block ex_nonces = 9" "get_nonce ex_nonces 7 = Some 5" "get_nonce ex_nonces 8 = Some 2"
    by (simp_all add: ex_nonces_def get_nonce_def)
  have "ps_orders (pool_abs tp) 7 4 = None" "ps_orders (pool_abs tp) 7 5 = Some (ex_tx 7 5 6)"
    "ps_orders (pool_abs tp) 8 2 = Some (ex_tx 8 2 9)" "ps_known (pool_abs tp) 7 = Some 5"
    using tp(2)
    by (simp_all add: ex_ops_def ps_empty_def known_for_def stale_for_def accept_order_def nonces Let_def
        sealed_drops_def ex_tx_def map_add_Some_iff del: pool_abs_simps)
  with tp(1) show ?thesis by blast
qed

end
