(* ===== verification/Sort_Report.thy ===== *)
theory Sort_Report
  imports Sort_Props
begin

text \<open>
  The report on the simulations of a block, \<open>SortingTelemetry::report\<close> of \<open>sorting.rs\<close>, which
  \<open>seal_block\<close> makes before it seals.  The counters behind it are exactly the answers of the
  simulator to requests for this block, by kind; what was sent is what came back and what is still
  in flight.  With them the rates of the report add up, and the divisions of the report are defined.

  A rate of the source is an \<open>f64\<close>, the quotient of an integer by 100; here it is that integer, the rate in
  hundredths of a percent.  The source only adds up six of them and rounds the sum times 100 back to an
  integer, which gives the sum of the integers.
\<close>

subsection \<open>The report\<close>

definition get_rate :: "usize \<Rightarrow> usize \<Rightarrow> usize" where
  "get_rate n n_total = (if n_total = 0 then 0 else n * 10000 div n_total)"

record sort_report =
  rp_n_sims_sent :: usize
  rp_success_rate :: usize
  rp_revert_rate :: usize
  rp_invalid_rate_nonce_too_low :: usize
  rp_invalid_rate_nonce_too_high :: usize
  rp_invalid_rate_insufficient_funds :: usize
  rp_invalid_rate_other :: usize
  rp_stale_rate :: int
  rp_avg_sim_time :: duration

text \<open>The cast of a float to \<open>u32\<close> saturates; the one of \<open>n_sims_sent\<close> cuts off.\<close>

definition saturate_u32 :: "nat \<Rightarrow> u32" where
  "saturate_u32 n = (if n < 2 ^ 32 then of_nat n else - 1)"

definition div_duration :: "duration \<Rightarrow> u32 \<Rightarrow> duration run" where
  "div_duration d n =
     (if n = 0 then Inl ''divide by zero error when dividing duration by scalar'' else Inr (d div unat n))"

definition telemetry_report :: "telemetry \<Rightarrow> sort_report run" where
  "telemetry_report te =
     (let sent = te_n_sims_sent te;
          success_rate = get_rate (te_n_sims_success te) sent;
          revert_rate = get_rate (te_n_sims_revert te) sent;
          invalid_rate_nonce_too_low = get_rate (te_n_invalid_nonce_too_low te) sent;
          invalid_rate_nonce_too_high = get_rate (te_n_invalid_nonce_too_high te) sent;
          invalid_rate_insufficient_funds = get_rate (te_n_invalid_insufficient_funds te) sent;
          invalid_rate_other = get_rate (te_n_invalid_other te) sent;
          received_rate = unat success_rate + unat revert_rate + unat invalid_rate_nonce_too_low +
            unat invalid_rate_nonce_too_high + unat invalid_rate_insufficient_funds +
            unat invalid_rate_other;
          stale_rate = 10000 - int received_rate
      in bindR (if 0 < received_rate \<and> 0 < sent
                then bindR (div_duration (te_tot_sim_time te) (ucast sent)) (\<lambda>d.
                     bindR (div_duration d (saturate_u32 received_rate)) (\<lambda>d. Inr (d * 10000)))
                else Inr (from_secs 0)) (\<lambda>avg_sim_time.
         Inr \<lparr>rp_n_sims_sent = sent, rp_success_rate = success_rate, rp_revert_rate = revert_rate,
              rp_invalid_rate_nonce_too_low = invalid_rate_nonce_too_low,
              rp_invalid_rate_nonce_too_high = invalid_rate_nonce_too_high,
              rp_invalid_rate_insufficient_funds = invalid_rate_insufficient_funds,
              rp_invalid_rate_other = invalid_rate_other, rp_stale_rate = stale_rate,
              rp_avg_sim_time = avg_sim_time\<rparr>))"

definition sort_data_report :: "sort_data \<Rightarrow> sort_report run" where
  "sort_data_report sd = telemetry_report (sd_telemetry sd)"

subsection \<open>The counters\<close>

text \<open>The counters of results in the order of the report, and the counter that a result belongs to.\<close>

definition tally :: "telemetry \<Rightarrow> usize list" where
  "tally te = [te_n_sims_success te, te_n_sims_revert te, te_n_invalid_nonce_too_low te,
     te_n_invalid_nonce_too_high te, te_n_invalid_insufficient_funds te, te_n_invalid_other te]"

fun result_kind :: "execution_result \<Rightarrow> nat" where
  "result_kind (Success _ _ _) = 0"
| "result_kind (Revert _ _ _) = 1"
| "result_kind (Invalid (NonceTooLow _ _)) = 2"
| "result_kind (Invalid (NonceTooHigh _ _)) = 3"
| "result_kind (Invalid (InsufficientFunds _ _)) = 4"
| "result_kind (Invalid _) = 5"

lemma result_kind_less: "result_kind r < 6"
  by (cases r rule: result_kind.cases) simp_all

definition of_kind :: "nat \<Rightarrow> execution_result list \<Rightarrow> nat" where
  "of_kind k rs = length (filter (\<lambda>r. result_kind r = k) rs)"

lemma of_kind_simps [simp]:
  "of_kind k [] = 0" "of_kind k (rs @ rs') = of_kind k rs + of_kind k rs'"
  "of_kind k (r # rs) = (if result_kind r = k then 1 else 0) + of_kind k rs"
  by (simp_all add: of_kind_def)

definition kinds :: "execution_result list \<Rightarrow> usize list" where
  "kinds rs = map (\<lambda>k. of_nat (of_kind k rs)) [0..<6]"

lemma six: "[0..<6] = [0, 1, 2, 3, 4, 5 :: nat]"
  by (simp add: upt_rec)

lemma tally_record:
  "tally (record_execution_result r te) = map2 (+) (tally te) (kinds [r])"
  by (cases r rule: result_kind.cases) (simp_all add: tally_def kinds_def six)

lemma tally_kinds:
  "map2 (+) (map2 (+) (tally te) (kinds rs)) (kinds rs') = map2 (+) (tally te) (kinds (rs @ rs'))"
  by (simp add: tally_def kinds_def six add.assoc)

lemma tally_no_kinds [simp]: "map2 (+) (tally te) (kinds []) = tally te"
  by (simp add: tally_def kinds_def six)

lemma sum_kinds: "(\<Sum>k\<leftarrow>[0..<6]. of_kind k rs) = length rs"
proof (induction rs)
  case (Cons r rs)
  then show ?case using result_kind_less[of r] by (cases r rule: result_kind.cases) (simp_all add: six)
qed (simp add: six)

subsection \<open>The counters along a run\<close>

definition answer_of :: "sort_event \<Rightarrow> execution_result list" where
  "answer_of e = (case e of SimReturns i res t took \<Rightarrow> [res] | _ \<Rightarrow> [])"

definition answers :: "sort_event list \<Rightarrow> execution_result list" where
  "answers es = concat (map answer_of es)"

abbreviation tele :: "sort_sys \<Rightarrow> telemetry" where
  "tele s \<equiv> sd_telemetry (ss_sd s)"

text \<open>Between two states, the answers \<open>rs\<close> have come back.\<close>

definition counted :: "execution_result list \<Rightarrow> sort_sys \<Rightarrow> sort_sys \<Rightarrow> bool" where
  "counted rs s s' \<longleftrightarrow>
     tally (tele s') = map2 (+) (tally (tele s)) (kinds rs) \<and>
     te_n_sims_sent (tele s') - len64 (ss_pend s') = te_n_sims_sent (tele s) - len64 (ss_pend s) + len64 rs"

lemma counted_trans: "counted rs s t \<Longrightarrow> counted rs' t u \<Longrightarrow> counted (rs @ rs') s u"
  by (simp add: counted_def tally_kinds len64_def add.assoc)

lemma handle_new_tx_tally:
  "handle_new_tx took o1 sd = Inr sd' \<Longrightarrow>
     tally (sd_telemetry sd') = tally (sd_telemetry sd) \<and>
     te_n_sims_sent (sd_telemetry sd') = te_n_sims_sent (sd_telemetry sd)"
  by (auto simp: handle_new_tx_def handle_new_tx_core_def bindR_eq_Inr tally_def split: if_splits)

lemma handle_valid_tally:
  "handle_valid st gas pay sim sd = Inr sd' \<Longrightarrow> sd_telemetry sd' = sd_telemetry sd"
  by (auto simp: handle_valid_def Let_def bindR_eq_Inr split: if_splits option.splits)

lemma handle_invalid_tally [simp]: "sd_telemetry (handle_invalid r o1 sd) = sd_telemetry sd"
  by (cases r) simp_all

lemma handle_sim_core_tally:
  assumes "handle_sim_core sim sd = Inr sd'" "so_origin_state_id sim = sd_state_id sd"
  shows "sd_telemetry sd' = record_execution_result (so_execution_result sim)
    ((sd_telemetry sd)\<lparr>te_tot_sim_time := te_tot_sim_time (sd_telemetry sd) + so_sim_time sim\<rparr>)"
  using assms
  by (cases "so_execution_result sim") (auto simp: handle_sim_core_def sd_is_valid_def Let_def dest!: handle_valid_tally)

lemma tally_times [simp]:
  "tally (te\<lparr>te_tot_sim_time := t\<rparr>) = tally te" "tally (te\<lparr>te_tot_handle_sim_time := t\<rparr>) = tally te"
  "tally (te\<lparr>te_tot_maybe_sim_next := t\<rparr>) = tally te" "tally (te\<lparr>te_n_sims_sent := n\<rparr>) = tally te"
  by (simp_all add: tally_def)

lemma record_sent [simp]: "te_n_sims_sent (record_execution_result r te) = te_n_sims_sent te"
  by (cases r rule: result_kind.cases) simp_all

lemma handle_sim_tally:
  assumes "handle_sim took sim sd = Inr sd'" "so_origin_state_id sim = sd_state_id sd"
  shows "tally (sd_telemetry sd') = map2 (+) (tally (sd_telemetry sd)) (kinds [so_execution_result sim]) \<and>
    te_n_sims_sent (sd_telemetry sd') = te_n_sims_sent (sd_telemetry sd)"
  using assms by (auto simp: handle_sim_def bindR_eq_Inr tally_record dest!: handle_sim_core_tally)

lemma handle_sim_stale_tally:
  assumes "handle_sim took sim sd = Inr sd'" "so_origin_state_id sim \<noteq> sd_state_id sd"
  shows "tally (sd_telemetry sd') = tally (sd_telemetry sd) \<and>
    te_n_sims_sent (sd_telemetry sd') = te_n_sims_sent (sd_telemetry sd)"
  using assms by (auto simp: handle_sim_def handle_sim_core_def sd_is_valid_def)

lemma apply_best_tally: "apply_best est nb sd = Inr sd' \<Longrightarrow> sd_telemetry sd' = sd_telemetry sd"
  by (auto simp: apply_best_def Let_def split: if_splits)

lemma maybe_apply_next_tally: "maybe_apply_next est now sd = Inr sd' \<Longrightarrow> sd_telemetry sd' = sd_telemetry sd"
  by (auto simp: maybe_apply_next_def bindR_eq_Inr dest!: apply_best_tally split: option.splits)

lemma maybe_sim_next_batch_tally:
  assumes "maybe_sim_next_batch est mx now took sd = Inr (sd', sent)"
  shows "tally (sd_telemetry sd') = tally (sd_telemetry sd) \<and>
    te_n_sims_sent (sd_telemetry sd') = te_n_sims_sent (sd_telemetry sd) + len64 sent"
  using assms
  by (auto simp: maybe_sim_next_batch_def maybe_sim_next_batch_core_def bindR_eq_Inr Let_def len64_def
      dest!: maybe_apply_next_tally split: if_splits prod.splits)

lemma sort_step_counted:
  assumes inv: "sort_inv a g s" and legal: "sort_legal e s" and step: "sort_step est mx e s = Inr s'"
  shows "counted (answer_of e) s s'"
proof (cases e)
  case (NewTxArrives o1 took)
  with step show ?thesis
    by (auto simp: counted_def answer_of_def bindR_eq_Inr len64_def dest!: handle_new_tx_tally)
next
  case (SimReturns i res t took)
  let ?sim = "returned_sim (ss_pend s) i res t"
  from SimReturns step obtain sd where sd: "handle_sim took ?sim (ss_sd s) = Inr sd"
    "s' = s\<lparr>ss_sd := sd, ss_pend := drop_nth i (ss_pend s)\<rparr>" by (auto simp: bindR_eq_Inr)
  have i: "i < length (ss_pend s)" using legal SimReturns by simp
  then have "ss_pend s ! i \<in> set (ss_pend s)" by simp
  with inv have "so_origin_state_id ?sim = sd_state_id (ss_sd s)"
    by (auto simp: sort_inv_def flight_ok_def returned_sim_def)
  from handle_sim_tally[OF sd(1) this] SimReturns sd(2) i show ?thesis
    by (cases "ss_pend s") (auto simp: counted_def answer_of_def returned_sim_def len64_def length_drop_nth)
next
  case (StaleSimReturns sim took)
  with step legal show ?thesis
    by (auto simp: counted_def answer_of_def bindR_eq_Inr len64_def dest!: handle_sim_stale_tally)
next
  case (SimBatch now took)
  with step show ?thesis
    by (auto simp: counted_def answer_of_def bindR_eq_Inr len64_def dest!: maybe_sim_next_batch_tally)
next
  case SealRequested
  with step show ?thesis by (auto simp: counted_def answer_of_def set_should_seal_def len64_def)
qed

lemma sort_run_counted:
  assumes "sort_inv a g s" "legal_run (sort_step est mx) sort_legal es s"
    and "run_events (sort_step est mx) es s = Inr s'"
  shows "counted (answers es) s s'"
  using assms
proof (induction es arbitrary: s)
  case Nil
  then show ?case by (simp add: counted_def answers_def len64_def)
next
  case (Cons e es)
  from sorting.step_safe[of a g s e est mx] Cons.prems obtain s1 where
    s1: "sort_step est mx e s = Inr s1" "sort_inv a g s1" by auto
  with Cons have "counted (answers es) s1 s'" by simp
  moreover have "counted (answer_of e) s s1" using sort_step_counted s1(1) Cons.prems by auto
  ultimately show ?case using counted_trans by (fastforce simp: answers_def)
qed

subsection \<open>The report adds up\<close>

lemma get_rate_exact: "unat n < 2 ^ 32 \<Longrightarrow> unat (get_rate n m) = unat n * 10000 div unat m"
  by (auto simp: get_rate_def unat_div unat_word_ariths unat_eq_0)

lemma rate_bounds: "n * 10000 div m * m \<le> n * 10000 \<and> n * 10000 \<le> n * 10000 div m * m + (m - 1) \<or> m = (0 :: nat)"
proof (cases "m = 0")
  case False
  then have "n * 10000 mod m \<le> m - 1" by (metis Suc_pred' less_Suc_eq_le mod_less_divisor neq0_conv)
  then show ?thesis using div_mult_mod_eq[of "n * 10000" m] by linarith
qed simp

lemma six_rates:
  fixes sent :: nat
  assumes "sent = length rs + pend"
  defines "K \<equiv> (\<Sum>k\<leftarrow>[0..<6]. of_kind k rs * 10000 div sent)"
  shows "K * sent \<le> length rs * 10000 \<and> length rs * 10000 \<le> K * sent + 6 * (sent - 1)"
proof (cases "sent = 0")
  case True
  with assms(1) show ?thesis by simp
next
  case False
  define q where "q k = of_kind k rs * 10000 div sent * sent" for k
  have b: "q k \<le> of_kind k rs * 10000 \<and> of_kind k rs * 10000 \<le> q k + (sent - 1)" for k
    using rate_bounds[of "of_kind k rs" sent] False by (auto simp: q_def)
  have "K * sent = q 0 + q 1 + q 2 + q 3 + q 4 + q 5"
    by (simp add: K_def six distrib_right q_def)
  moreover have "length rs = of_kind 0 rs + of_kind 1 rs + of_kind 2 rs + of_kind 3 rs + of_kind 4 rs + of_kind 5 rs"
    using sum_kinds[of rs] by (simp add: six)
  ultimately show ?thesis
    using b[of 0] b[of 1] b[of 2] b[of 3] b[of 4] b[of 5] by linarith
qed

lemma stale_bounds:
  fixes K n r p :: nat
  assumes "n = r + p" "K * n \<le> r * 10000 \<and> r * 10000 \<le> K * n + 6 * (n - 1)"
  shows "int p * 10000 \<le> (10000 - int K) * int n" "(10000 - int K) * int n \<le> int p * 10000 + 6 * int (n - 1)"
proof -
  have "(10000 - int K) * int n = 10000 * int n - int (K * n)" by (simp add: left_diff_distrib)
  with assms show "int p * 10000 \<le> (10000 - int K) * int n"
    "(10000 - int K) * int n \<le> int p * 10000 + 6 * int (n - 1)" by linarith+
qed

lemma div_duration_ok: "n \<noteq> 0 \<Longrightarrow> div_duration d n = Inr (d div unat n)"
  by (simp add: div_duration_def)

lemma of_nat_word_neq0: "0 < n \<Longrightarrow> n < 2 ^ 32 \<Longrightarrow> (of_nat n :: u32) \<noteq> 0"
  by (simp add: unat_eq_0[symmetric] unat_of_nat)

lemma unat_small: "n < 2 ^ 32 \<Longrightarrow> unat (of_nat n :: u64) = n"
  by (simp add: unat_of_nat)

text \<open>A report on known counters.\<close>

lemma report_ok:
  assumes tally: "tally te = kinds rs" and sent: "te_n_sims_sent te = of_nat (length rs + pend)"
    and small: "length rs + pend < 2 ^ 32"
  shows "\<exists>rp. telemetry_report te = Inr rp \<and> unat (rp_n_sims_sent rp) = length rs + pend \<and>
    map unat [rp_success_rate rp, rp_revert_rate rp, rp_invalid_rate_nonce_too_low rp,
        rp_invalid_rate_nonce_too_high rp, rp_invalid_rate_insufficient_funds rp, rp_invalid_rate_other rp] =
      map (\<lambda>k. of_kind k rs * 10000 div (length rs + pend)) [0..<6] \<and>
    rp_stale_rate rp = 10000 - int (\<Sum>k\<leftarrow>[0..<6]. of_kind k rs * 10000 div (length rs + pend))"
proof -
  let ?n = "length rs + pend"
  have n: "unat (te_n_sims_sent te) = ?n" unfolding sent by (rule unat_small[OF small])
  have few: "of_kind k rs < 2 ^ 32" for k
    using small by (simp add: of_kind_def) (meson add_lessD1 le_less_trans length_filter_le)
  have unat: "unat (of_nat (of_kind k rs) :: u64) = of_kind k rs" for k
    using few[of k] by (simp add: unat_small)
  have rate: "unat (get_rate (of_nat (of_kind k rs)) (te_n_sims_sent te)) = of_kind k rs * 10000 div ?n" for k
    using get_rate_exact[of "of_nat (of_kind k rs)" "te_n_sims_sent te"] few[of k] unat[of k] n by simp
  have fields: "te_n_sims_success te = of_nat (of_kind 0 rs)" "te_n_sims_revert te = of_nat (of_kind 1 rs)"
    "te_n_invalid_nonce_too_low te = of_nat (of_kind 2 rs)" "te_n_invalid_nonce_too_high te = of_nat (of_kind 3 rs)"
    "te_n_invalid_insufficient_funds te = of_nat (of_kind 4 rs)" "te_n_invalid_other te = of_nat (of_kind 5 rs)"
    using tally by (simp_all add: tally_def kinds_def six)
  define K where "K = (\<Sum>k\<leftarrow>[0..<6]. of_kind k rs * 10000 div ?n)"
  have sum: "of_kind 0 rs * 10000 div ?n + of_kind 1 rs * 10000 div ?n + of_kind 2 rs * 10000 div ?n +
      of_kind 3 rs * 10000 div ?n + of_kind 4 rs * 10000 div ?n + of_kind 5 rs * 10000 div ?n = K"
    by (simp add: K_def six)
  have avg: "\<exists>d. (if 0 < K \<and> 0 < te_n_sims_sent te
      then bindR (div_duration (te_tot_sim_time te) (ucast (te_n_sims_sent te))) (\<lambda>d.
             bindR (div_duration d (saturate_u32 K)) (\<lambda>d. Inr (d * 10000)))
      else Inr (from_secs 0)) = Inr d"
  proof (cases "0 < K \<and> 0 < te_n_sims_sent te")
    case True
    have "K * ?n \<le> length rs * 10000" using six_rates[OF refl, of rs pend] by (simp add: K_def)
    also have "\<dots> \<le> 10000 * ?n" by simp
    finally have "K * ?n \<le> 10000 * ?n" .
    moreover have "?n \<noteq> 0" using True n by (metis unat_eq_0 word_gt_0)
    ultimately have "K \<le> 10000" by (metis mult_le_cancel2 neq0_conv)
    then have "saturate_u32 K \<noteq> 0" using True by (simp add: saturate_u32_def of_nat_word_neq0)
    moreover have "(ucast (te_n_sims_sent te) :: u32) = of_nat ?n"
      unfolding n[symmetric] by simp
    then have "(ucast (te_n_sims_sent te) :: u32) \<noteq> 0"
      using of_nat_word_neq0[of ?n] small True n by (simp add: word_gt_0 unat_eq_0[symmetric])
    ultimately show ?thesis using True by (simp add: div_duration_ok)
  qed auto
  then obtain d where d: "(if 0 < K \<and> 0 < te_n_sims_sent te
      then bindR (div_duration (te_tot_sim_time te) (ucast (te_n_sims_sent te))) (\<lambda>d.
             bindR (div_duration d (saturate_u32 K)) (\<lambda>d. Inr (d * 10000)))
      else Inr (from_secs 0)) = Inr d" by blast
  show ?thesis
    unfolding telemetry_report_def Let_def fields rate sum d bindR_simps K_def[symmetric]
    by (simp add: rate n six)
qed

text \<open>C40: The report on a block is made without a panic and adds up, for every interleaving of new
  transactions, answers and iterations with fewer than \<open>2 ^ 32\<close> simulations.  What was sent is what came
  back and what is still in flight; each rate is the exact share of the answers of its kind, rounded down,
  answers to requests for earlier blocks left out; and the stale rate is the share of what is still in
  flight, up to the rounding of the six rates.\<close>

theorem sorting_report_adds_up:
  assumes "ao_wf ao"
    and "legal_run (sort_step est mx) sort_legal es
           (sort_sys_new (sort_data_new now bi a ao g bt mbs mo ms))"
    and "run_events (sort_step est mx) es (sort_sys_new (sort_data_new now bi a ao g bt mbs mo ms)) = Inr s"
    and "length (answers es) + length (ss_pend s) < 2 ^ 32"
  shows "\<exists>rp. sort_data_report (ss_sd s) = Inr rp \<and>
    unat (rp_n_sims_sent rp) = length (answers es) + length (ss_pend s) \<and>
    map unat [rp_success_rate rp, rp_revert_rate rp, rp_invalid_rate_nonce_too_low rp,
        rp_invalid_rate_nonce_too_high rp, rp_invalid_rate_insufficient_funds rp, rp_invalid_rate_other rp] =
      map (\<lambda>k. of_kind k (answers es) * 10000 div (length (answers es) + length (ss_pend s))) [0..<6] \<and>
    int (length (ss_pend s)) * 10000 \<le> rp_stale_rate rp * int (unat (rp_n_sims_sent rp)) \<and>
    rp_stale_rate rp * int (unat (rp_n_sims_sent rp)) \<le>
      int (length (ss_pend s)) * 10000 + 6 * int (unat (rp_n_sims_sent rp) - 1)"
proof -
  have zero: "tele (sort_sys_new (sort_data_new now bi a ao g bt mbs mo ms)) = telemetry_default"
    "ss_pend (sort_sys_new (sort_data_new now bi a ao g bt mbs mo ms)) = []"
    by (simp_all add: sort_sys_new_def sort_data_new_def)
  have "counted (answers es) (sort_sys_new (sort_data_new now bi a ao g bt mbs mo ms)) s"
    by (rule sort_run_counted[OF sort_inv_new[OF assms(1)] assms(2,3)])
  then have tally: "tally (tele s) = kinds (answers es)"
    and "te_n_sims_sent (tele s) - len64 (ss_pend s) = len64 (answers es)"
    unfolding counted_def zero by (simp_all add: tally_def telemetry_default_def kinds_def six len64_def)
  then have sent: "te_n_sims_sent (tele s) = of_nat (length (answers es) + length (ss_pend s))"
    by (simp add: len64_def diff_eq_eq)
  from report_ok[OF tally sent assms(4)] obtain rp where rp: "telemetry_report (tele s) = Inr rp"
    "unat (rp_n_sims_sent rp) = length (answers es) + length (ss_pend s)"
    "map unat [rp_success_rate rp, rp_revert_rate rp, rp_invalid_rate_nonce_too_low rp,
        rp_invalid_rate_nonce_too_high rp, rp_invalid_rate_insufficient_funds rp, rp_invalid_rate_other rp] =
      map (\<lambda>k. of_kind k (answers es) * 10000 div (length (answers es) + length (ss_pend s))) [0..<6]"
    "rp_stale_rate rp = 10000 - int (\<Sum>k\<leftarrow>[0..<6]. of_kind k (answers es) * 10000 div
        (length (answers es) + length (ss_pend s)))" by (elim exE conjE) (rule that)
  have "int (length (ss_pend s)) * 10000 \<le> rp_stale_rate rp * int (unat (rp_n_sims_sent rp)) \<and>
    rp_stale_rate rp * int (unat (rp_n_sims_sent rp)) \<le>
      int (length (ss_pend s)) * 10000 + 6 * int (unat (rp_n_sims_sent rp) - 1)"
    unfolding rp(4) using stale_bounds[OF rp(2)] six_rates[OF rp(2)] by (simp only: rp(2) simp_thms)
  with rp(1-3) show ?thesis unfolding sort_data_report_def by blast
qed

text \<open>Four simulations of the concrete run have come back, three with success.\<close>

theorem sorting_report_adds_up_witness:
  "\<exists>s rp. run_events ex_step ex_events
      (sort_sys_new (sort_data_new 0 ex_info (StateId 100) ex_active 1000000 1000 10000 3 2)) = Inr s \<and>
    sort_data_report (ss_sd s) = Inr rp \<and> unat (rp_n_sims_sent rp) = 4 \<and>
    unat (rp_success_rate rp) = 7500 \<and> unat (rp_revert_rate rp) = 2500"
proof -
  have "\<exists>s. run_events ex_step ex_events ex_start = Inr s \<and> ss_pend s = []"
    by (simp add: ex_eval del: hm_get_insert)
  then obtain s where s: "run_events ex_step ex_events
      (sort_sys_new (sort_data_new 0 ex_info (StateId 100) ex_active 1000000 1000 10000 3 2)) = Inr s"
    "ss_pend s = []" unfolding ex_start_eq by blast
  have ans: "answers ex_events = [Success (StateId 101) 21000 50, Revert (StateId 102) 30000 60,
      Success (StateId 103) 21000 50, Success (StateId 104) 21000 50]"
    by (simp add: answers_def answer_of_def ex_events_def)
  have "length (answers ex_events) + length (ss_pend s) < 2 ^ 32" by (simp add: ans s(2))
  from sorting_report_adds_up[OF ex_active_wf ex_legal_new s(1) this] obtain rp where
    "sort_data_report (ss_sd s) = Inr rp" "unat (rp_n_sims_sent rp) = 4"
    "map unat [rp_success_rate rp, rp_revert_rate rp, rp_invalid_rate_nonce_too_low rp,
        rp_invalid_rate_nonce_too_high rp, rp_invalid_rate_insufficient_funds rp, rp_invalid_rate_other rp] =
      [7500, 2500, 0, 0, 0, 0]"
    unfolding ans s(2) by (auto simp: six)
  with s(1) show ?thesis by auto
qed

text \<open>A block can be sealed before anything was simulated; the report then says that all simulations are
  stale.\<close>

lemma empty_report_stale:
  "\<exists>rp. sort_data_report (sort_data_new now bi a ao g bt mbs mo ms) = Inr rp \<and> rp_stale_rate rp = 10000"
  by (simp add: sort_data_report_def telemetry_report_def sort_data_new_def telemetry_default_def get_rate_def
      from_secs_def)

text \<open>The number of simulations is cut to 32 bits before it divides.\<close>

lemma report_cuts_count:
  "telemetry_report (telemetry_default\<lparr>te_n_sims_sent := 2 ^ 32, te_n_sims_success := 2 ^ 32\<rparr>) =
     Inl ''divide by zero error when dividing duration by scalar''"
  by (simp add: telemetry_report_def telemetry_default_def get_rate_def div_duration_def Let_def)

end
