(* ===== verification/Ledger.thy ===== *)
theory Ledger
  imports Startup_Props
begin

text \<open>
  The gateway as a ledger.  The abstract specification has three sections: the batches that the
  proposer has settled, the batches that wait for it, and the open batch of the sequencer.  A step
  seals a block into the open batch, closes the open batch, or settles the batch that has waited
  longest.  The refinement theorem: whatever arrives, whatever sequencer and proposer do, in any
  interleaving, the requests of the running gateway describe a ledger that was reached by such steps.
\<close>

subsection \<open>The specification\<close>

record ledger =
  lg_settled :: "sealed list"
  lg_waiting :: "sealed list"
  lg_open :: sealed

definition ledger_empty :: ledger where
  "ledger_empty = \<lparr>lg_settled = [], lg_waiting = [], lg_open = []\<rparr>"

inductive ledger_step :: "ledger \<Rightarrow> ledger \<Rightarrow> bool" where
  seal: "ledger_step L (L\<lparr>lg_open := lg_open L @ [x]\<rparr>)"
| close: "lg_open L \<noteq> [] \<Longrightarrow> ledger_step L (L\<lparr>lg_waiting := lg_waiting L @ [lg_open L], lg_open := []\<rparr>)"
| settle: "lg_waiting L = w # ws \<Longrightarrow>
    ledger_step L (L\<lparr>lg_settled := lg_settled L @ [w], lg_waiting := ws\<rparr>)"

inductive_cases ledger_stepE: "ledger_step L L'"

abbreviation ledger_run :: "ledger \<Rightarrow> ledger \<Rightarrow> bool" where
  "ledger_run \<equiv> ledger_step\<^sup>*\<^sup>*"

text \<open>The blocks of a ledger, in the order in which they were sealed.\<close>

definition lg_blocks :: "ledger \<Rightarrow> sealed" where
  "lg_blocks L = concat (lg_settled L) @ concat (lg_waiting L) @ lg_open L"

text \<open>What is settled stays settled, blocks are only added, at the end, and no batch is empty.\<close>

lemma ledger_run_settled: "ledger_run L L' \<Longrightarrow> prefix (lg_settled L) (lg_settled L')"
  by (induction rule: rtranclp_induct) (auto elim!: ledger_stepE intro: prefix_order.trans)

lemma ledger_step_blocks: "ledger_step L L' \<Longrightarrow> prefix (lg_blocks L) (lg_blocks L')"
  by (auto elim!: ledger_stepE simp: lg_blocks_def)

lemma ledger_run_blocks: "ledger_run L L' \<Longrightarrow> prefix (lg_blocks L) (lg_blocks L')"
  by (induction rule: rtranclp_induct) (auto intro: prefix_order.trans ledger_step_blocks)

definition no_empty_batch :: "ledger \<Rightarrow> bool" where
  "no_empty_batch L \<longleftrightarrow> [] \<notin> set (lg_settled L) \<and> [] \<notin> set (lg_waiting L)"

lemma ledger_run_nonempty: "ledger_run L L' \<Longrightarrow> no_empty_batch L \<Longrightarrow> no_empty_batch L'"
  by (induction rule: rtranclp_induct) (auto elim!: ledger_stepE simp: no_empty_batch_def)

subsection \<open>The sequencer keeps a ledger\<close>

abbreviation describes :: "(usize \<Rightarrow> usize) \<Rightarrow> sequencer \<Rightarrow> propose_batch_params \<Rightarrow> sealed \<Rightarrow> bool" where
  "describes est s \<equiv> represents est (sc_coinbase_address (sq_config s))"

fun open_batch :: "(propose_batch_params \<Rightarrow> sealed \<Rightarrow> bool) \<Rightarrow> propose_batch_params option \<Rightarrow> sealed \<Rightarrow> bool" where
  "open_batch R None seg = (seg = [])"
| "open_batch R (Some r) seg = R r seg"

text \<open>\<open>n\<close> requests have been settled.\<close>

definition seq_ledger :: "(usize \<Rightarrow> usize) \<Rightarrow> nat \<Rightarrow> sequencer \<Rightarrow> ledger \<Rightarrow> bool" where
  "seq_ledger est n s L \<longleftrightarrow>
     n \<le> length (sp_proposer_tx (sq_spine s)) \<and>
     list_all2 (describes est s) (sent_batches (take n (sp_proposer_tx (sq_spine s)))) (lg_settled L) \<and>
     list_all2 (describes est s) (sent_batches (drop n (sp_proposer_tx (sq_spine s)))) (lg_waiting L) \<and>
     open_batch (describes est s) (sq_proposer_request s) (lg_open L)"

definition reaches :: "(usize \<Rightarrow> usize) \<Rightarrow> nat \<Rightarrow> ledger \<Rightarrow> sealed \<Rightarrow> sequencer \<Rightarrow> bool" where
  "reaches est n L0 h s \<longleftrightarrow> (\<exists>L. ledger_run L0 L \<and> lg_blocks L = lg_blocks L0 @ h \<and> seq_ledger est n s L)"

lemma represents_nonempty: "represents est c r seg \<Longrightarrow> seg \<noteq> []"
  by (simp add: represents_def)

lemma reaches_close:
  assumes "reaches est n L0 h s" "sq_proposer_request s = Some r"
    and "sq_config s' = sq_config s" "sq_proposer_request s' = None"
    and "sp_proposer_tx (sq_spine s') = sp_proposer_tx (sq_spine s) @ [Batch r]"
  shows "reaches est n L0 h s'"
proof -
  from assms(1) obtain L where L: "ledger_run L0 L" "lg_blocks L = lg_blocks L0 @ h" "seq_ledger est n s L"
    by (auto simp: reaches_def)
  let ?L = "L\<lparr>lg_waiting := lg_waiting L @ [lg_open L], lg_open := []\<rparr>"
  have "lg_open L \<noteq> []" using L(3) assms(2) represents_nonempty by (auto simp: seq_ledger_def)
  then have "ledger_run L0 ?L" using L(1) ledger_step.close by (meson rtranclp.rtrancl_into_rtrancl)
  moreover have "seq_ledger est n s' ?L"
    using L(3) assms(2-5) by (auto simp: seq_ledger_def list_all2_appendI)
  moreover have "lg_blocks ?L = lg_blocks L0 @ h" using L(2) by (simp add: lg_blocks_def)
  ultimately show ?thesis unfolding reaches_def by blast
qed

lemma reaches_frame:
  assumes "sq_config s' = sq_config s" "sp_proposer_tx (sq_spine s') = sp_proposer_tx (sq_spine s)"
    and "sq_proposer_request s' = sq_proposer_request s"
  shows "reaches est n L0 h s' = reaches est n L0 h s"
  using assms by (simp add: reaches_def seq_ledger_def)

lemma reaches_send: "reaches est n L0 h s \<Longrightarrow> reaches est n L0 h (send_batch_to_proposer check s)"
proof -
  assume r: "reaches est n L0 h s"
  have flag: "reaches est n L0 h (s\<lparr>sq_ctx := cx\<rparr>)" for cx
    by (rule reaches_frame[THEN iffD2, OF _ _ _ r]) simp_all
  show ?thesis
  proof (cases "sq_proposer_request s")
    case None
    with r flag show ?thesis
      by (auto simp: send_batch_to_proposer_def split: sequencer_state.splits)
  next
    case (Some req)
    from reaches_close[OF r Some] flag Some show ?thesis
      by (auto simp: send_batch_to_proposer_def split: sequencer_state.splits)
  qed
qed

lemma reaches_add:
  assumes r: "reaches est n L0 h s"
    and add: "add_block est (sc_coinbase_address (sq_config s)) sd b (sq_proposer_request s) = Inr req"
  shows "reaches est n L0 (h @ [(b, sd)]) (s\<lparr>sq_proposer_request := Some req\<rparr>)"
proof -
  from r obtain L where L: "ledger_run L0 L" "lg_blocks L = lg_blocks L0 @ h" "seq_ledger est n s L"
    by (auto simp: reaches_def)
  let ?L = "L\<lparr>lg_open := lg_open L @ [(b, sd)]\<rparr>"
  have "ledger_run L0 ?L" using L(1) ledger_step.seal by (meson rtranclp.rtrancl_into_rtrancl)
  moreover have "describes est s req (lg_open L @ [(b, sd)])"
  proof (cases "sq_proposer_request s")
    case None
    with L(3) add show ?thesis by (simp add: seq_ledger_def add_block_first)
  next
    case (Some r0)
    with L(3) have "describes est s r0 (lg_open L)" by (simp add: seq_ledger_def)
    from add_block_next[OF this] add Some show ?thesis by simp
  qed
  then have "seq_ledger est n (s\<lparr>sq_proposer_request := Some req\<rparr>) ?L"
    using L(3) by (simp add: seq_ledger_def)
  moreover have "lg_blocks ?L = lg_blocks L0 @ h @ [(b, sd)]" using L(2) by (simp add: lg_blocks_def)
  ultimately show ?thesis unfolding reaches_def by auto
qed

interpretation entries: batch_watch est "reaches est n L0" for est n L0
proof unfold_locales
  fix h s lo hi
  assume "reaches est n L0 h s"
  then show "reaches est n L0 h (s\<lparr>sq_spine := (sq_spine s)
      \<lparr>sp_proposer_tx := sp_proposer_tx (sq_spine s) @ [Resync lo hi]\<rparr>\<rparr>)"
    by (auto simp: reaches_def seq_ledger_def)
qed (erule (2) reaches_frame | erule reaches_send | erule (1) reaches_add)+

subsection \<open>The gateway keeps a ledger\<close>

definition gw_ledger :: "seq_params \<Rightarrow> gateway_sys \<Rightarrow> ledger \<Rightarrow> bool" where
  "gw_ledger pr g L \<longleftrightarrow> seq_ledger (pr_est pr) (gw_taken g) (gw_seq g) L"

text \<open>The blocks that an event, and a run, seal.\<close>

fun gw_sealed_in :: "seq_params \<Rightarrow> 'c gateway_event \<Rightarrow> gateway_sys \<Rightarrow> sealed" where
  "gw_sealed_in pr (Sequence inp) g = sealed_in pr inp (gw_seq g)"
| "gw_sealed_in pr _ g = []"

fun gw_sealed ::
    "seq_params \<Rightarrow> ('p, 'q, 'c) proposer_env \<Rightarrow> resync_env \<Rightarrow> 'c gateway_event list \<Rightarrow> gateway_sys \<Rightarrow> sealed" where
  "gw_sealed pr pv env [] g = []"
| "gw_sealed pr pv env (e # es) g =
     gw_sealed_in pr e g @
     (case gateway_step pr pv env e g of Inl _ \<Rightarrow> [] | Inr g' \<Rightarrow> gw_sealed pr pv env es g')"

lemma sent_batches_take_Suc:
  assumes "drop n q = p # rest"
  shows "sent_batches (take (Suc n) q) = sent_batches (take n q) @ sent_batches [p]"
proof -
  have "take (Suc n) q = take n q @ [p]"
    using assms by (metis append_eq_conv_conj append_take_drop_id drop_eq_Nil hd_drop_conv_nth list.sel(1)
        list.simps(3) not_le_imp_less take_Suc_conv_app_nth)
  then show ?thesis by simp
qed

lemma settle_simulated:
  assumes led: "seq_ledger est n s L" and queue: "drop n (sp_proposer_tx (sq_spine s)) = p # rest"
  shows "\<exists>L'. ledger_run L L' \<and> lg_blocks L' = lg_blocks L \<and> seq_ledger est (Suc n) (s\<lparr>sq_shared := sh\<rparr>) L'"
proof -
  let ?q = "sp_proposer_tx (sq_spine s)"
  have rest: "drop (Suc n) ?q = rest" using queue by (metis drop_Suc list.sel(3) tl_drop)
  have less: "Suc n \<le> length ?q"
    using queue by (metis Suc_leI drop_eq_Nil linorder_not_less list.distinct(1))
  note done_now = sent_batches_take_Suc[OF queue]
  show ?thesis
  proof (cases p)
    case (Resync a b)
    then have "seq_ledger est (Suc n) (s\<lparr>sq_shared := sh\<rparr>) L"
      using led less rest queue done_now by (simp add: seq_ledger_def)
    then show ?thesis by blast
  next
    case (Batch r)
    with led queue obtain w ws where w: "lg_waiting L = w # ws" "describes est s r w"
      "list_all2 (describes est s) (sent_batches rest) ws"
      by (auto simp: seq_ledger_def list_all2_Cons1)
    let ?L = "L\<lparr>lg_settled := lg_settled L @ [w], lg_waiting := ws\<rparr>"
    have "seq_ledger est (Suc n) (s\<lparr>sq_shared := sh\<rparr>) ?L"
      using led less rest done_now w(2,3) Batch by (auto simp: seq_ledger_def list_all2_appendI)
    moreover have "ledger_run L ?L" using ledger_step.settle[OF w(1)] by blast
    moreover have "lg_blocks ?L = lg_blocks L" using w(1) by (simp add: lg_blocks_def)
    ultimately show ?thesis by blast
  qed
qed

lemma gateway_step_simulated:
  assumes led: "gw_ledger pr g L" and step: "gateway_step pr pv env e g = Inr g'"
  shows "\<exists>L'. ledger_run L L' \<and> lg_blocks L' = lg_blocks L @ gw_sealed_in pr e g \<and> gw_ledger pr g' L'"
proof (cases e)
  case (Outside ar)
  with led step have "gw_ledger pr g' L" by (auto simp: gw_ledger_def seq_ledger_def arrive_def)
  with Outside show ?thesis by auto
next
  case (Sequence inp)
  with step obtain s where s: "loop_step pr inp (gw_seq g) = Inr s" "g' = g\<lparr>gw_seq := s\<rparr>"
    by (auto simp: bindR_eq_Inr)
  have "reaches (pr_est pr) (gw_taken g) L [] (gw_seq g)"
    using led by (auto simp: reaches_def gw_ledger_def)
  from entries.loop_step_keeps[OF this refl, of inp] s
  have "reaches (pr_est pr) (gw_taken g) L (sealed_in pr inp (gw_seq g)) s" by simp
  with Sequence s(2) show ?thesis by (auto simp: reaches_def gw_ledger_def)
next
  case (Propose script)
  show ?thesis
  proof (cases "drop (gw_taken g) (sp_proposer_tx (sq_spine (gw_seq g)))")
    case Nil
    with Propose step led show ?thesis by auto
  next
    case (Cons p rest)
    with Propose step obtain progress sh where
      "handle_request pv env p script (sq_shared (gw_seq g)) = Inr (progress, sh)"
      "(case progress of Settled \<Rightarrow> Inr (g\<lparr>gw_seq := (gw_seq g)\<lparr>sq_shared := sh\<rparr>, gw_taken := gw_taken g + 1\<rparr>)
        | InProgress \<Rightarrow> Inr g) = (Inr g' :: gateway_sys run)"
      by (auto simp: bindR_eq_Inr)
    with Propose led settle_simulated[of "pr_est pr" "gw_taken g" "gw_seq g" L p rest sh] Cons show ?thesis
      by (cases progress) (auto simp: gw_ledger_def)
  qed
qed

lemma gateway_run_simulated:
  assumes "gw_ledger pr g L" "run_events (gateway_step pr pv env) es g = Inr g'"
  shows "\<exists>L'. ledger_run L L' \<and> lg_blocks L' = lg_blocks L @ gw_sealed pr pv env es g \<and> gw_ledger pr g' L'"
  using assms
proof (induction es arbitrary: g L)
  case (Cons e es)
  then obtain g1 where g1: "gateway_step pr pv env e g = Inr g1" "run_events (gateway_step pr pv env) es g1 = Inr g'"
    by (auto simp: bindR_eq_Inr)
  from gateway_step_simulated[OF Cons.prems(1) g1(1)] obtain L1 where
    L1: "ledger_run L L1" "lg_blocks L1 = lg_blocks L @ gw_sealed_in pr e g" "gw_ledger pr g1 L1" by blast
  from Cons.IH[OF L1(3) g1(2)] L1(1,2) g1(1) show ?case by (auto intro: rtranclp_trans)
qed auto

lemma started_ledger:
  "gw_ledger pr \<lparr>gw_seq = sequencer_new now config cp c la l2o l1n sh, gw_taken = 0\<rparr> ledger_empty"
  by (simp add: gw_ledger_def seq_ledger_def ledger_empty_def sequencer_new_def spine_new_def)

subsection \<open>The refinement\<close>


text \<open>Block 6 is sealed, its batch is closed when the anchor is refreshed, and settled.\<close>

definition fx_ledger_events :: "((bytes \<times> batch_params) \<times> bytes \<times> u96) gateway_event list" where
  "fx_ledger_events =
     [Outside ((fx_arrivals [fx_header 100 1 0 0 1900] [fx_block 5 50 40 1 1950])\<lparr>ar_l2_origin := 5\<rparr>),
      Sequence (fx_input 1000000000 2000 (fx_block 6 60 50 9 2002) None),
      Sequence (fx_input 4000000000 2003 (fx_block 6 60 50 9 2002) None),
      Outside ((fx_arrivals [fx_header 102 1 0 0 1924] [])\<lparr>ar_l2_origin := 5\<rparr>),
      Sequence (fx_input 4500000000 2100 (fx_block 7 70 60 9 2006) None),
      Propose (Attempts [])]"

lemma fx_ledger_run:
  "\<exists>y. run_events (gateway_step fx_params fx_dry_env ex_resync_env) fx_ledger_events
       \<lparr>gw_seq = fx_seq, gw_taken = 0\<rparr> = Inr y \<and> gw_taken y = 1 \<and>
     sq_proposer_request (gw_seq y) = None \<and> length (sp_proposer_tx (sq_spine (gw_seq y))) = 1 \<and>
     map (\<lambda>x. hd_number (blk_header (fst x))) (gw_sealed fx_params fx_dry_env ex_resync_env fx_ledger_events
       \<lparr>gw_seq = fx_seq, gw_taken = 0\<rparr>) = [6]"
  by (simp add: fx_ledger_events_def fx_dry_env_def propose_batch_def fx_ops fx_data)

lemma all_settled:
  assumes "gw_ledger pr y L" "gw_taken y = length (sp_proposer_tx (sq_spine (gw_seq y)))"
    and "sq_proposer_request (gw_seq y) = None"
  shows "lg_waiting L = [] \<and> lg_open L = []"
  using assms by (simp add: gw_ledger_def seq_ledger_def)


end
