(* ===== verification/Gateway_Safety.thy ===== *)
theory Gateway_Safety
  imports Ledger
begin

text \<open>
  The panics of the whole gateway: those of the sequencer that the authors intend, and those of the
  proposer, when a batch cannot be landed, the node reports another hash for a transaction, or a batch
  is too large for the blobs of one transaction.
\<close>

subsection \<open>Where a run panics\<close>

lemma run_panics_at:
  "run_events step es s = Inl m \<Longrightarrow>
     \<exists>es1 e es2 s1. es = es1 @ e # es2 \<and> run_events step es1 s = Inr s1 \<and> step e s1 = Inl m"
proof (induction es arbitrary: s)
  case (Cons e es)
  show ?case
  proof (cases "step e s")
    case (Inl m')
    with Cons.prems show ?thesis by (intro exI[of _ "[]"]) auto
  next
    case (Inr s')
    with Cons.prems Cons.IH[of s'] obtain es1 e' es2 s1 where
      "es = es1 @ e' # es2" "run_events step es1 s' = Inr s1" "step e' s1 = Inl m" by auto
    with Inr show ?thesis by (intro exI[of _ "e # es1"]) auto
  qed
qed simp

lemma legal_run_prefix:
  "legal_run step legal (es1 @ e # es2) s \<Longrightarrow> run_events step es1 s = Inr s1 \<Longrightarrow>
     legal_run step legal es1 s \<and> legal e s1"
proof (induction es1 arbitrary: s)
  case (Cons a es1)
  then show ?case by (auto simp: bindR_eq_Inr)
qed simp

subsection \<open>The panics of the proposer\<close>

definition proposer_panics :: "string set" where
  "proposer_panics =
     {''max retries reached to propose batch'', ''assertion `left == right` failed'',
      ''too many bytes to encode in blobs''}"

abbreviation proposing :: "('a \<Rightarrow> bool) \<Rightarrow> 'a run \<Rightarrow> bool" where
  "proposing \<equiv> guarded (\<lambda>m. m \<in> proposer_panics)"

abbreviation proposing_any :: "'a run \<Rightarrow> bool" where
  "proposing_any \<equiv> proposing (\<lambda>_. True)"

lemma proposing_bind: "proposing_any m \<Longrightarrow> (\<And>x. m = Inr x \<Longrightarrow> proposing_any (f x)) \<Longrightarrow> proposing_any (bindR m f)"
  by (cases m) auto

lemma proposing_bindE:
  "proposing_any m \<Longrightarrow> (\<And>x. m = okE x \<Longrightarrow> proposing_any (f x)) \<Longrightarrow> proposing_any (bindE m f)"
  by (cases m; cases "projr m") (auto simp: bindE_def)

lemma proposing_map_eyre:
  "(\<And>x. x \<in> set xs \<Longrightarrow> proposing_any (f x)) \<Longrightarrow> proposing_any (map_eyre f xs)"
  by (induction xs) (auto intro!: proposing_bindE)

lemma proposing_ok_or: "proposing_any (ok_or msg answer)"
  by (auto simp: ok_or_def split: sum.split option.split)

lemma retry_loop_proposing: "proposing_any (retry_loop pv input sidecar attempts rt sh)"
  using retry_loop_outcome[of pv input sidecar attempts rt sh]
  by (cases "retry_loop pv input sidecar attempts rt sh") (auto simp: proposer_panics_def)

lemma prepare_batch_proposing:
  assumes "kzg_total (pv_kzg pv)"
  shows "proposing_any (prepare_batch pv request)"
proof (cases "length (pv_compress pv (pb_all_tx_list request)) div MAX_BLOB_DATA_SIZE \<le> pv_max_blobs pv")
  case True
  from prepare_batch_ok[OF assms True] show ?thesis by auto
next
  case False
  then show ?thesis
    by (simp add: prepare_batch_def should_use_blobs_def propose_batch_blobs_def proposer_panics_def not_le)
qed

lemma propose_batch_proposing:
  "kzg_total (pv_kzg pv) \<Longrightarrow> proposing_any (propose_batch pv attempts request sh)"
  by (auto simp: propose_batch_def split: progress.split
      intro!: proposing_bind prepare_batch_proposing retry_loop_proposing)

lemma propose_all_proposing: "kzg_total (pv_kzg pv) \<Longrightarrow> proposing_any (propose_all pv requests sh)"
  by (induction pv requests sh rule: propose_all.induct)
    (auto intro!: proposing_bind propose_batch_proposing split: progress.split)

lemma propose_groups_proposing: "kzg_total (pv_kzg pv) \<Longrightarrow> proposing_any (propose_groups pv groups script sh)"
  by (induction pv groups script sh rule: propose_groups.induct)
    (auto simp: Let_def intro!: proposing_bind propose_all_proposing split: progress.split)

lemma verify_proposed_proposing: "proposing_any (verify_proposed fetch to_verify)"
  unfolding verify_proposed_def
  by (intro proposing_bindE proposing_map_eyre)
    (auto simp: verify_and_log_block_def split: prod.split intro!: proposing_bindE proposing_bind proposing_ok_or)

subsection \<open>A resync makes its plan without a panic\<close>

definition clock_sane :: "beacon_handle \<Rightarrow> bool" where
  "clock_sane b \<longleftrightarrow> bh_seconds_per_slot b \<noteq> 0"

lemma current_slot_proposing: "clock_sane b \<Longrightarrow> proposing_any (current_slot utc b)"
  by (simp add: clock_sane_def current_slot_def div_u64_def)

lemma anchor_id_proposing: "proposing_any (anchor_id_of io b)"
  by (auto simp: anchor_id_of_def split: option.split list.split)

lemma fetch_n_blocks_proposing: "proposing_any (fetch_n_blocks io start end)"
  unfolding fetch_n_blocks_def by (intro proposing_map_eyre proposing_ok_or)

lemma group_blocks_proposing: "proposing_any (group_blocks io bs m)"
  by (induction io bs m rule: group_blocks.induct) (auto intro!: proposing_bindE anchor_id_proposing)

lemma check_group_proposing: "clock_sane beacon \<Longrightarrow> proposing_any (check_group config beacon utc l1 pending g rc)"
  by (auto simp: check_group_def Let_def split: prod.split intro!: proposing_bind current_slot_proposing)

lemma check_groups_proposing:
  "clock_sane beacon \<Longrightarrow> proposing_any (run_events (check_group config beacon utc l1 pending) gs rc)"
  by (induction gs arbitrary: rc) (auto intro!: proposing_bind check_group_proposing)

text \<open>A reorg is only found in a group, so there are blocks to anchor anew.\<close>

lemma reorg_needs_group:
  "run_events (check_group config beacon utc l1 pending) gs rc = Inr rc' \<Longrightarrow> rc_will_reorg rc' \<Longrightarrow>
     rc_will_reorg rc \<or> gs \<noteq> []"
  by (cases gs) auto

lemma request_from_blocks_proposing:
  "blocks \<noteq> [] \<Longrightarrow> proposing_any (request_from_blocks enc compress anchor blocks tso sho max_blocks target)"
  using request_from_blocks_ok[OF _ refl, of blocks enc compress anchor tso sho max_blocks target] by auto

lemma reorged_requests_proposing:
  assumes "clock_sane (ry_beacon env)" "blocks \<noteq> []"
  shows "proposing_any (reorged_requests env io l1_head blocks)"
  unfolding reorged_requests_def
  using request_from_blocks_proposing[OF assms(2)] current_slot_proposing[OF assms(1)]
  by (auto split: prod.split if_splits intro!: proposing_bindE proposing_bind proposing_ok_or)

lemma resync_plan_proposing:
  assumes clock: "clock_sane (ry_beacon env)"
  shows "proposing_any (resync_plan env io origin end)"
  unfolding resync_plan_def Let_def
proof (intro proposing_bindE proposing_bind fetch_n_blocks_proposing group_blocks_proposing proposing_ok_or
    anchor_id_proposing check_groups_proposing[OF clock])
  fix blocks to_propose l1_head l2_parent parent_anchor rc
  assume groups: "group_blocks io blocks [] = okE to_propose"
    and rc: "run_events (check_group (ry_chain env) (ry_beacon env) (rio_utc io) l1_head
        (case rio_pending io of Inl _ \<Rightarrow> [] | Inr p \<Rightarrow> p)) to_propose
      \<lparr>rc_parent_anchor = parent_anchor, rc_parent_timestamp = hd_timestamp (blk_header l2_parent),
       rc_will_reorg = False\<rparr> = Inr rc"
  have ne: "[] \<notin> snd ` set to_propose" using group_blocks_ok[OF groups] by simp
  show "proposing_any (if rc_will_reorg rc
      then bindE (reorged_requests env io l1_head (concat (map snd to_propose)))
             (\<lambda>requests. okE (True, to_propose, [requests]))
      else bindE (map_eyre (\<lambda>g. bindR (group_requests env g) okE) to_propose)
             (\<lambda>requests. okE (False, to_propose, requests)))"
  proof (cases "rc_will_reorg rc")
    case True
    with reorg_needs_group[OF rc] have "to_propose \<noteq> []" by simp
    with ne have "concat (map snd to_propose) \<noteq> []" by (cases to_propose) auto
    with True show ?thesis
      by (simp del: concat_eq_Nil_conv) (rule proposing_bindE[OF reorged_requests_proposing[OF clock]], auto)
  next
    case False
    have "proposing_any (group_requests env g)" if "g \<in> set to_propose" for g
      using ne that by (cases g) (force simp: group_requests_def intro!: request_from_blocks_proposing)
    with False show ?thesis by (auto intro!: proposing_bindE proposing_map_eyre proposing_bind)
  qed
qed

lemma resync_proposing:
  "kzg_total (pv_kzg pv) \<Longrightarrow> clock_sane (ry_beacon env) \<Longrightarrow> proposing_any (resync pv env t origin end sh)"
  unfolding resync_def
  by (rule proposing_bind[OF resync_plan_proposing])
    (auto split: sum.split intro!: proposing_bind propose_groups_proposing verify_proposed_proposing)

lemma handle_request_proposing:
  assumes "kzg_total (pv_kzg pv)" "clock_sane (ry_beacon env)"
  shows "proposing_any (handle_request pv env p script sh)"
proof -
  have "proposing_any (resync_until_ok pv env tries origin end sh)" for tries origin "end" sh
    using assms
    by (induction pv env tries origin "end" sh rule: resync_until_ok.induct)
      (auto intro!: proposing_bind resync_proposing split: sum.split)
  with assms show ?thesis
    by (cases p; cases script) (auto intro!: propose_batch_proposing)
qed

subsection \<open>The panics of the gateway\<close>

text \<open>Who may panic with what: an event from outside never does, an iteration of the sequencer only in a
  panic that is meant to happen, the proposer only in one of its three.\<close>

fun may_panic :: "'c gateway_event \<Rightarrow> string \<Rightarrow> bool" where
  "may_panic (Outside ar) m = False"
| "may_panic (Sequence inp) m = deliberate m"
| "may_panic (Propose script) m = (m \<in> proposer_panics)"

fun gateway_legal :: "'c gateway_event \<Rightarrow> gateway_sys \<Rightarrow> bool" where
  "gateway_legal (Outside ar) g = (\<forall>b \<in> set (ar_l2 ar). taiko_block b)"
| "gateway_legal (Sequence inp) g = input_ok inp"
| "gateway_legal (Propose script) g = True"

definition gw_inv :: "seq_params \<Rightarrow> gateway_sys \<Rightarrow> bool" where
  "gw_inv pr g \<longleftrightarrow> (\<exists>h. seq_inv (pr_est pr) h (gw_seq g))"

lemma gateway_step_safe:
  assumes env: "kzg_total (pv_kzg pv)" "clock_sane (ry_beacon env)"
    and inv: "gw_inv pr g" and legal: "gateway_legal e g"
  shows "guarded (may_panic e) (gw_inv pr) (gateway_step pr pv env e g)"
proof (cases e)
  case (Outside ar)
  from inv obtain h where "seq_inv (pr_est pr) h (gw_seq g)" by (auto simp: gw_inv_def)
  from arrive_ok[OF this, of "ar\<lparr>ar_shared := sq_shared (gw_seq g)\<rparr>"] legal Outside show ?thesis
    by (auto simp: gw_inv_def)
next
  case (Sequence inp)
  from inv obtain h where "seq_inv (pr_est pr) h (gw_seq g)" by (auto simp: gw_inv_def)
  from loop_step_ok[OF this, of inp] legal Sequence show ?thesis
    by (cases "loop_step pr inp (gw_seq g)") (auto simp: gw_inv_def)
next
  case (Propose script)
  have settled: "gw_inv pr (g\<lparr>gw_seq := (gw_seq g)\<lparr>sq_shared := sh\<rparr>, gw_taken := n\<rparr>)" for sh n
    using inv seq_inv_other[where s' = "(gw_seq g)\<lparr>sq_shared := sh\<rparr>"] by (auto simp: gw_inv_def)
  show ?thesis
  proof (cases "drop (gw_taken g) (sp_proposer_tx (sq_spine (gw_seq g)))")
    case (Cons p rest)
    from handle_request_proposing[OF env, of p script "sq_shared (gw_seq g)"] Propose Cons inv settled
    show ?thesis
      by (cases "handle_request pv env p script (sq_shared (gw_seq g))") (auto split: prod.split progress.split)
  qed (use Propose inv in simp)
qed

interpretation whole: guarded_system "gateway_step pr pv env" gateway_legal
    "\<lambda>g. kzg_total (pv_kzg pv) \<and> clock_sane (ry_beacon env) \<and> gw_inv pr g"
    "\<lambda>m. deliberate m \<or> m \<in> proposer_panics" for pr pv env
proof unfold_locales
  fix g and e :: "'c gateway_event"
  assume "kzg_total (pv_kzg pv) \<and> clock_sane (ry_beacon env) \<and> gw_inv pr g" "gateway_legal e g"
  with gateway_step_safe[of pv env pr g e]
  show "guarded (\<lambda>m. deliberate m \<or> m \<in> proposer_panics)
      (\<lambda>g. kzg_total (pv_kzg pv) \<and> clock_sane (ry_beacon env) \<and> gw_inv pr g) (gateway_step pr pv env e g)"
    by (cases e; cases "gateway_step pr pv env e g") auto
qed

text \<open>The last event of a run that panics.\<close>

lemma whole_panics_at:
  assumes env: "kzg_total (pv_kzg pv)" "clock_sane (ry_beacon env)" and inv: "gw_inv pr g"
    and legal: "legal_run (gateway_step pr pv env) gateway_legal es g"
    and panic: "run_events (gateway_step pr pv env) es g = Inl m"
  shows "\<exists>es1 e es2 g1. es = es1 @ e # es2 \<and> run_events (gateway_step pr pv env) es1 g = Inr g1 \<and>
    gateway_step pr pv env e g1 = Inl m \<and> may_panic e m"
proof -
  from run_panics_at[OF panic] obtain es1 e es2 g1 where
    at: "es = es1 @ e # es2" "run_events (gateway_step pr pv env) es1 g = Inr g1" "gateway_step pr pv env e g1 = Inl m"
    by (elim exE conjE) (rule that)
  from legal_run_prefix[OF legal[unfolded at(1)] at(2)]
  have "legal_run (gateway_step pr pv env) gateway_legal es1 g" "gateway_legal e g1" by simp_all
  moreover from whole.guarded_run_inv[OF _ this(1) at(2)] env inv have "gw_inv pr g1" by simp
  ultimately have "may_panic e m" using gateway_step_safe[OF env, of pr g1 e] at(3) by simp
  with at show ?thesis by blast
qed

subsection \<open>A started gateway\<close>

lemma started_whole:
  assumes "run_gateway lib fo hex config operator io = okE (Some g)"
  shows "pv_kzg (go_proposer g) = pl_kzg lib \<and> clock_sane (ry_beacon (go_resync g)) \<and>
    gw_inv pr \<lparr>gw_seq = go_sequencer g, gw_taken = 0\<rparr> \<and>
    (\<exists>now cp c la. go_sequencer g =
       sequencer_new now (sequencer_config_from config operator) cp c la 0 0 shared_flags_new)"
proof -
  from assms obtain b la where
    la: "start_lookahead_loop b (gc_lookahead (st_gateway config)) (sa_lookahead io) = okE (Some la)"
    and b: "ry_beacon (go_resync g) = b" and kzg: "pv_kzg (go_proposer g) = pl_kzg lib"
    by (auto simp: run_gateway_def bindE_eq_ok start_sequencer_def start_proposer_def prefix_err_def bindR_eq_Inr
        Let_def split: option.splits sum.splits)
  obtain cp b' la' where seq: "go_sequencer g =
      sequencer_new (sa_now io) (sequencer_config_from config operator) cp (l2c_l2_contract (st_l2 config)) la' 0 0
        shared_flags_new"
    and la': "start_lookahead_loop b' (gc_lookahead (st_gateway config)) (sa_lookahead io) = okE (Some la')"
    using started_parts[OF assms] by blast
  have "sys_inv pr (seq_sys_new (go_sequencer g))"
    unfolding seq by (rule sys_inv_new) (use lookahead_started[OF la'] in blast)
  then have "gw_inv pr \<lparr>gw_seq = go_sequencer g, gw_taken = 0\<rparr>"
    by (auto simp: gw_inv_def sys_inv_def seq_sys_new_def)
  moreover have "clock_sane (ry_beacon (go_resync g))"
    using lookahead_started[OF la] b by (auto simp: clock_sane_def beacon_sane_def)
  ultimately show ?thesis using kzg seq by blast
qed



end
