(* ===== verification/Metrics.thy ===== *)
theory Metrics
  imports Services
begin

text \<open>
  The metrics of the gateway, \<open>crates/common/src/metrics.rs\<close>: the metrics that are registered and the
  calls that every operation makes to them, and the places that report a value of their own.

  A call names its metric, the values of its labels and what is done.  A floating point value is kept
  as the exact number that the code converts: an integer, a duration in nanoseconds, or an amount of
  wei that is shown in units of \<open>1e18\<close>.  The registry and the text format are library code.
\<close>

subsection \<open>Registered metrics\<close>

datatype buckets = Exponential rat rat nat | Linear rat rat nat

datatype metric_kind = IntGauge | Gauge | IntCounter | Histogram buckets

record metric_desc =
  md_name :: string
  md_help :: string
  md_kind :: metric_kind
  md_labels :: "string list"

definition metric :: "string \<Rightarrow> string \<Rightarrow> metric_kind \<Rightarrow> string list \<Rightarrow> metric_desc" where
  "metric n help kind labels = \<lparr>md_name = n, md_help = help, md_kind = kind, md_labels = labels\<rparr>"

definition sequencer_metrics :: "metric_desc list" where
  "sequencer_metrics =
     [metric ''sequencer_state'' ''State of the gateway'' IntGauge [],
      metric ''sequencer_is_proposer'' ''Gateway is the current proposer'' IntGauge [],
      metric ''sequencer_is_sequencer'' ''Gateway is the current sequencer'' IntGauge [],
      metric ''sequencer_l1_sync_time'' ''L1 sync time'' Gauge [],
      metric ''sequencer_sim_latency_secs'' ''Latency in seconds by method''
        (Histogram (Exponential (1/10000) 2 16)) [''method''],
      metric ''sequencer_sim_requests'' ''Request counts to simulator'' IntCounter [''method'', ''result''],
      metric ''sequencer_sorting_sims'' ''Sorting simulation metrics'' IntGauge [''type'']]"

definition mempool_metrics :: "metric_desc list" where
  "mempool_metrics =
     [metric ''mempool_tx_count'' ''Number mempool tx received'' IntCounter [],
      metric ''mempool_ws_reconnects'' ''Number of mempool ws reconnects'' IntCounter []]"

definition blocks_metrics :: "metric_desc list" where
  "blocks_metrics =
     [metric ''blocks_l1'' ''L1 block number'' IntGauge [],
      metric ''blocks_l2'' ''L2 block number'' IntGauge [],
      metric ''blocks_l2_origin'' ''L2 origin block number'' IntGauge [],
      metric ''blocks_built_count'' ''Block count'' IntCounter [],
      metric ''blocks_built_build_time_secs'' ''Block build time in seconds''
        (Histogram (Exponential (1/1000) 2 16)) [],
      metric ''blocks_built_value'' ''Block value in ETH'' Gauge [],
      metric ''blocks_gas_used'' ''Block gas used'' Gauge [],
      metric ''blocks_gas_limit'' ''Block gas limit'' Gauge [],
      metric ''blocks_base_fee'' ''Block base fee'' Gauge [],
      metric ''preconf_block_time_secs'' ''Time to post preconf block''
        (Histogram (Exponential (1/1000) 2 16)) []]"

definition proposer_metrics :: "metric_desc list" where
  "proposer_metrics =
     [metric ''proposer_proposed_batches'' ''Number of batches proposed'' IntCounter [''result''],
      metric ''builder_batches'' ''Number of builder batches proposed'' IntCounter [],
      metric ''builder_fallback'' ''Number of batches sent to mempool after waiting for builder'' IntCounter [],
      metric ''proposer_batch_size_bytes'' ''Batch size in bytes'' (Histogram (Exponential 1 3 16)) [],
      metric ''proposer_batch_size_blocks'' ''Batch size in blocks'' IntCounter [],
      metric ''proposer_proposal_latency_secs'' ''Proposal latency in seconds'' (Histogram (Linear 3 6 12)) [],
      metric ''proposer_proposal_reorgs'' ''Number of proposal reorgs'' IntCounter [],
      metric ''proposer_resync_counts'' ''Number of resyncs'' IntCounter [''coinbase''],
      metric ''proposer_eth_balance'' ''ETH balance'' Gauge [],
      metric ''proposer_token_balance'' ''Token balance'' Gauge [],
      metric ''proposer_token_bond'' ''Token bond'' Gauge [],
      metric ''prover_eth_balance'' ''Prover ETH balance'' Gauge []]"

definition registered_metrics :: "metric_desc list" where
  "registered_metrics = sequencer_metrics @ mempool_metrics @ blocks_metrics @ proposer_metrics"

text \<open>\<open>record_info\<close>: a gauge whose labels are constants; \<open>show\<close> gives their texts.\<close>

definition info_metric :: metric_desc where
  "info_metric = metric ''info'' ''Gateway info'' IntGauge []"

definition record_info ::
    "(address \<Rightarrow> string) \<Rightarrow> (u64 \<Rightarrow> string) \<Rightarrow> string \<Rightarrow> string \<Rightarrow> u64 \<Rightarrow> u64 \<Rightarrow> address \<Rightarrow> address \<Rightarrow>
     l2_chain_config \<Rightarrow> metric_desc \<times> (string \<times> string) list \<times> 64 word" where
  "record_info show_address show_u64 version commit l1_chain l2_chain operator coinbase l2_config =
     (info_metric,
      [(''version'', version), (''commit'', commit),
       (''l1_chain_id'', show_u64 l1_chain), (''l2_chain_id'', show_u64 l2_chain),
       (''operator'', show_address operator), (''coinbase'', show_address coinbase),
       (''taiko_token'', show_address (l2c_taiko_token l2_config)),
       (''l1_contract'', show_address (l2c_l1_contract l2_config)),
       (''l2_contract'', show_address (l2c_l2_contract l2_config)),
       (''router_contract'', show_address (l2c_router_contract l2_config)),
       (''whitelist_contract'', show_address (l2c_whitelist_contract l2_config))],
      1)"

subsection \<open>Calls\<close>

datatype amount = OfInt nat | OfSecs duration | OfEth nat

datatype metric_op = SetInt "64 word" | AddInt "64 word" | SetFloat amount | IncBy u64 | Observe amount

record metric_call =
  mc_name :: string
  mc_labels :: "string list"
  mc_op :: metric_op

definition call :: "string \<Rightarrow> string list \<Rightarrow> metric_op \<Rightarrow> metric_call" where
  "call n labels oper = \<lparr>mc_name = n, mc_labels = labels, mc_op = oper\<rparr>"

subsection \<open>The proposer\<close>

definition m_proposed_batches :: "bool \<Rightarrow> metric_call list" where
  "m_proposed_batches is_success =
     [call ''proposer_proposed_batches'' [if is_success then ''success'' else ''failed''] (IncBy 1)]"

definition m_builder_batch :: "metric_call list" where
  "m_builder_batch = [call ''builder_batches'' [] (IncBy 1)]"

definition m_builder_fallback :: "metric_call list" where
  "m_builder_fallback = [call ''builder_fallback'' [] (IncBy 1)]"

definition m_batch_size :: "u64 \<Rightarrow> metric_call list" where
  "m_batch_size bytes = [call ''proposer_batch_size_bytes'' [] (Observe (OfInt (unat bytes)))]"

definition m_batch_size_blocks :: "u64 \<Rightarrow> metric_call list" where
  "m_batch_size_blocks blocks = [call ''proposer_batch_size_blocks'' [] (IncBy blocks)]"

definition m_proposal_latency :: "duration \<Rightarrow> metric_call list" where
  "m_proposal_latency latency = [call ''proposer_proposal_latency_secs'' [] (Observe (OfSecs latency))]"

definition m_proposal_reorg :: "metric_call list" where
  "m_proposal_reorg = [call ''proposer_proposal_reorgs'' [] (IncBy 1)]"

definition m_resync :: "bool \<Rightarrow> metric_call list" where
  "m_resync is_our_coinbase =
     [call ''proposer_resync_counts'' [if is_our_coinbase then ''own'' else ''other''] (IncBy 1)]"

definition m_eth_balance :: "b256 \<Rightarrow> metric_call list" where
  "m_eth_balance balance = [call ''proposer_eth_balance'' [] (SetFloat (OfEth (unat balance)))]"

definition m_token_balance :: "b256 \<Rightarrow> metric_call list" where
  "m_token_balance balance = [call ''proposer_token_balance'' [] (SetFloat (OfEth (unat balance)))]"

definition m_token_bond :: "b256 \<Rightarrow> metric_call list" where
  "m_token_bond bond = [call ''proposer_token_bond'' [] (SetFloat (OfEth (unat bond)))]"

definition m_prover_eth_balance :: "b256 \<Rightarrow> metric_call list" where
  "m_prover_eth_balance balance = [call ''prover_eth_balance'' [] (SetFloat (OfEth (unat balance)))]"

subsection \<open>Blocks\<close>

text \<open>\<open>as i64\<close> keeps the bits.\<close>

definition m_l1_block_number :: "u64 \<Rightarrow> metric_call list" where
  "m_l1_block_number n = [call ''blocks_l1'' [] (SetInt n)]"

definition m_l2_origin_block_number :: "u64 \<Rightarrow> metric_call list" where
  "m_l2_origin_block_number n = [call ''blocks_l2_origin'' [] (SetInt n)]"

definition m_built_block :: "duration \<Rightarrow> u128 \<Rightarrow> metric_call list" where
  "m_built_block build_time payment =
     [call ''blocks_built_count'' [] (IncBy 1),
      call ''blocks_built_build_time_secs'' [] (Observe (OfSecs build_time)),
      call ''blocks_built_value'' [] (SetFloat (OfEth (unat payment)))]"

definition m_l2_block :: "header \<Rightarrow> header_rest \<Rightarrow> metric_call list" where
  "m_l2_block h rest =
     [call ''blocks_l2'' [] (SetInt (hd_number h)),
      call ''blocks_gas_used'' [] (SetFloat (OfInt (unat (hd_gas_used h)))),
      call ''blocks_gas_limit'' [] (SetFloat (OfInt (unat (hd_gas_limit h)))),
      call ''blocks_base_fee'' []
        (SetFloat (OfInt (unat (case hr_base_fee_per_gas rest of Some f \<Rightarrow> f | None \<Rightarrow> 0))))]"

definition m_preconf_block :: "duration \<Rightarrow> metric_call list" where
  "m_preconf_block time = [call ''preconf_block_time_secs'' [] (Observe (OfSecs time))]"

subsection \<open>The sequencer and the mempool\<close>

definition m_set_state :: "64 word \<Rightarrow> metric_call list" where
  "m_set_state state = [call ''sequencer_state'' [] (SetInt state)]"

definition m_set_is_proposer :: "bool \<Rightarrow> metric_call list" where
  "m_set_is_proposer is_proposer = [call ''sequencer_is_proposer'' [] (SetInt (if is_proposer then 1 else 0))]"

definition m_set_is_sequencer :: "bool \<Rightarrow> metric_call list" where
  "m_set_is_sequencer is_sequencer =
     [call ''sequencer_is_sequencer'' [] (SetInt (if is_sequencer then 1 else 0))]"

definition m_set_l1_sync_time :: "duration \<Rightarrow> metric_call list" where
  "m_set_l1_sync_time l1_sync_time = [call ''sequencer_l1_sync_time'' [] (SetFloat (OfSecs l1_sync_time))]"

definition m_record_sim_success :: "metric_call list" where
  "m_record_sim_success = [call ''sequencer_sorting_sims'' [''success''] (AddInt 1)]"

definition m_record_sim_revert :: "metric_call list" where
  "m_record_sim_revert = [call ''sequencer_sorting_sims'' [''revert''] (AddInt 1)]"

definition m_record_sim_invalid :: "metric_call list" where
  "m_record_sim_invalid = [call ''sequencer_sorting_sims'' [''invalid''] (AddInt 1)]"

definition m_record_sim_unknown :: "metric_call list" where
  "m_record_sim_unknown = [call ''sequencer_sorting_sims'' [''unknown''] (AddInt 1)]"

definition m_tx_received :: "metric_call list" where
  "m_tx_received = [call ''mempool_tx_count'' [] (IncBy 1)]"

definition m_ws_reconnect :: "metric_call list" where
  "m_ws_reconnect = [call ''mempool_ws_reconnects'' [] (IncBy 1)]"

text \<open>\<open>record_metrics\<close> of the state and of the sequencer, at the end of each iteration, and the report of a
  simulation by \<open>record_execution_result\<close>.\<close>

fun state_record_metrics :: "sequencer_state \<Rightarrow> metric_call list" where
  "state_record_metrics (Sync _) = m_set_state 0"
| "state_record_metrics (Sorting _) = m_set_state 2"

definition record_metrics :: "sequencer \<Rightarrow> metric_call list" where
  "record_metrics s =
     state_record_metrics (cx_state (sq_ctx s)) @
     m_set_is_sequencer (fl_can_sequence (sq_flags s)) @ m_set_is_proposer (fl_can_propose (sq_flags s))"

fun record_execution_metrics :: "execution_result \<Rightarrow> metric_call list" where
  "record_execution_metrics (Success _ _ _) = m_record_sim_success"
| "record_execution_metrics (Revert _ _ _) = m_record_sim_revert"
| "record_execution_metrics (Invalid (Uknown _)) = m_record_sim_unknown"
| "record_execution_metrics (Invalid _) = m_record_sim_invalid"

subsection \<open>Requests to the simulator\<close>

text \<open>\<open>SimulatorMetric\<close>: it reports when it is dropped.\<close>

record simulator_metric =
  sm_method :: string
  sm_has_completed :: bool
  sm_start :: instant

definition simulator_metric_new :: "string \<Rightarrow> instant \<Rightarrow> simulator_metric" where
  "simulator_metric_new meth now = \<lparr>sm_method = meth, sm_has_completed = False, sm_start = now\<rparr>"

definition sm_record :: "simulator_metric \<Rightarrow> simulator_metric" where
  "sm_record m = m\<lparr>sm_has_completed := True\<rparr>"

definition sm_drop :: "instant \<Rightarrow> simulator_metric \<Rightarrow> metric_call list" where
  "sm_drop now m =
     (if sm_has_completed m
      then [call ''sequencer_sim_requests'' [sm_method m, ''success''] (IncBy 1),
            call ''sequencer_sim_latency_secs'' [sm_method m] (Observe (OfSecs (elapsed now (sm_start m))))]
      else [call ''sequencer_sim_requests'' [sm_method m, ''failed''] (IncBy 1)])"

text \<open>The three requests.  \<open>t0\<close> and \<open>t1\<close> are the times of the start and of the end; an early return
  with \<open>?\<close> drops the metric before it is recorded.\<close>

definition simulate_anchor_traced ::
    "anchor_io \<Rightarrow> order \<Rightarrow> block_env \<Rightarrow> bytes \<Rightarrow> instant \<Rightarrow> instant \<Rightarrow>
     (string + execution_result) \<times> metric_call list" where
  "simulate_anchor_traced io tx env extra_data t0 t1 =
     (let m = simulator_metric_new ''anchor'' t0 in
      case simulate_anchor io tx env extra_data of
        Inl e \<Rightarrow> (Inl e, sm_drop t1 m)
      | Inr response \<Rightarrow> (Inr response, sm_drop t1 (sm_record m)))"

definition seal_block_traced ::
    "(state_id \<Rightarrow> client_error + seal_block_response) \<Rightarrow> state_id \<Rightarrow> instant \<Rightarrow> instant \<Rightarrow>
     (sequencer_error + seal_block_response) \<times> metric_call list" where
  "seal_block_traced answer st t0 t1 =
     (let m = simulator_metric_new ''seal'' t0 in
      case client_seal_block answer st of
        Inl e \<Rightarrow> (Inl e, sm_drop t1 m)
      | Inr res \<Rightarrow> (Inr res, sm_drop t1 (sm_record m)))"

definition spawn_sim_tx_traced ::
    "(bytes \<Rightarrow> state_id \<Rightarrow> execution_result eyre) \<Rightarrow> order \<Rightarrow> state_id \<Rightarrow> instant \<Rightarrow> instant \<Rightarrow>
     (string + simulated_order) \<times> metric_call list" where
  "spawn_sim_tx_traced answer o1 st t0 t1 =
     (let m = simulator_metric_new ''simulate'' t0;
          res = spawn_sim_tx answer (elapsed t1 t0) o1 st
      in (res, sm_drop t1 (case res of Inr _ \<Rightarrow> sm_record m | Inl _ \<Rightarrow> m)))"

subsection \<open>Everything that is reported\<close>

datatype metric_event =
    ProposedBatches bool | BuilderBatch | BuilderFallback | BatchSize u64 | BatchSizeBlocks u64
  | ProposalLatency duration | ProposalReorg | ResyncDone bool
  | EthBalance b256 | TokenBalance b256 | TokenBond b256 | ProverEthBalance b256
  | L1Block u64 | L2OriginBlock u64 | BuiltBlock duration u128 | L2Block header header_rest | PreconfBlock duration
  | Iteration sequencer | L1SyncTime duration | SimResult execution_result
  | TxReceived | WsReconnect
  | SimulateAnchor anchor_io order block_env bytes instant instant
  | SealRequest "state_id \<Rightarrow> client_error + seal_block_response" state_id instant instant
  | SimulateTx "bytes \<Rightarrow> state_id \<Rightarrow> execution_result eyre" order state_id instant instant

fun calls_of :: "metric_event \<Rightarrow> metric_call list" where
  "calls_of (ProposedBatches ok) = m_proposed_batches ok"
| "calls_of BuilderBatch = m_builder_batch"
| "calls_of BuilderFallback = m_builder_fallback"
| "calls_of (BatchSize n) = m_batch_size n"
| "calls_of (BatchSizeBlocks n) = m_batch_size_blocks n"
| "calls_of (ProposalLatency d) = m_proposal_latency d"
| "calls_of ProposalReorg = m_proposal_reorg"
| "calls_of (ResyncDone own) = m_resync own"
| "calls_of (EthBalance b) = m_eth_balance b"
| "calls_of (TokenBalance b) = m_token_balance b"
| "calls_of (TokenBond b) = m_token_bond b"
| "calls_of (ProverEthBalance b) = m_prover_eth_balance b"
| "calls_of (L1Block n) = m_l1_block_number n"
| "calls_of (L2OriginBlock n) = m_l2_origin_block_number n"
| "calls_of (BuiltBlock d payment) = m_built_block d payment"
| "calls_of (L2Block h rest) = m_l2_block h rest"
| "calls_of (PreconfBlock d) = m_preconf_block d"
| "calls_of (Iteration s) = record_metrics s"
| "calls_of (L1SyncTime d) = m_set_l1_sync_time d"
| "calls_of (SimResult r) = record_execution_metrics r"
| "calls_of TxReceived = m_tx_received"
| "calls_of WsReconnect = m_ws_reconnect"
| "calls_of (SimulateAnchor io tx env extra t0 t1) = snd (simulate_anchor_traced io tx env extra t0 t1)"
| "calls_of (SealRequest answer st t0 t1) = snd (seal_block_traced answer st t0 t1)"
| "calls_of (SimulateTx answer o1 st t0 t1) = snd (spawn_sim_tx_traced answer o1 st t0 t1)"

definition calls_made :: "metric_event list \<Rightarrow> metric_call list" where
  "calls_made es = concat (map calls_of es)"

text \<open>A counter with its labels shows the sum of its increments, modulo 2 to the power of 64.\<close>

definition counter_value :: "string \<Rightarrow> string list \<Rightarrow> metric_call list \<Rightarrow> u64" where
  "counter_value n labels cs =
     sum_list (map (\<lambda>c. case mc_op c of IncBy k \<Rightarrow> if mc_name c = n \<and> mc_labels c = labels then k else 0
                                     | _ \<Rightarrow> 0) cs)"

definition observations :: "string \<Rightarrow> string list \<Rightarrow> metric_call list \<Rightarrow> amount list" where
  "observations n labels cs =
     concat (map (\<lambda>c. case mc_op c of Observe a \<Rightarrow> if mc_name c = n \<and> mc_labels c = labels then [a] else []
                                    | _ \<Rightarrow> []) cs)"

end
