(* ===== verification/Main_Setup.thy ===== *)
theory Main_Setup
  imports Startup Utilities Metrics
begin

text \<open>
  The process around the gateway: \<open>main\<close> of \<open>bin/src/main.rs\<close> with the reading of file and environment
  (\<open>config.rs\<close>), the statics, the panic hook and the log (\<open>utils.rs\<close>), the runtime (\<open>runtime.rs\<close>) and
  the metrics server (\<open>metrics.rs\<close>).

  Arguments, files and variables of the environment are inputs, as are the parsers of the libraries;
  integers are parsed by \<open>parse_uint\<close>.  A variable that is not valid UTF-8 counts as missing, as it
  does for \<open>std::env::var(..).ok()\<close>; texts are lists of bytes.
\<close>

record process_answers =
  pa_args :: "string list"
  pa_read_file :: "string \<Rightarrow> string option"
  pa_parse_toml :: "string \<Rightarrow> static_config option"
  pa_env :: "string \<Rightarrow> string option"
  pa_parse_key :: "string \<Rightarrow> address option"
  pa_parse_url :: "string \<Rightarrow> url option"
  pa_parse_level :: "string \<Rightarrow> string option"
  pa_file_appender :: "string \<Rightarrow> usize \<Rightarrow> bool"
  pa_loki :: "string \<Rightarrow> url \<Rightarrow> bool"

subsection \<open>File and environment\<close>

text \<open>\<open>expect\<close> on an option, and on the result of a parser.\<close>

definition expect_opt :: "string \<Rightarrow> 'a option \<Rightarrow> 'a run" where
  "expect_opt msg x = (case x of Some v \<Rightarrow> Inr v | None \<Rightarrow> Inl msg)"

definition load_static_config :: "process_answers \<Rightarrow> static_config run" where
  "load_static_config pa =
     bindR (expect_opt ''missing config path''
              (if 1 < length (pa_args pa) then Some (pa_args pa ! 1) else None)) (\<lambda>path.
     bindR (expect_opt (''unable to find config file: '' @ path) (pa_read_file pa path)) (\<lambda>config_file.
       expect_opt ''failed to parse toml'' (pa_parse_toml pa config_file)))"

text \<open>Of the key only its address is used here.\<close>

definition load_env_vars :: "process_answers \<Rightarrow> address run" where
  "load_env_vars pa =
     bindR (expect_opt ''PROPOSER_SIGNER_KEY must be set'' (pa_env pa ''PROPOSER_SIGNER_KEY'')) (\<lambda>key.
       expect_opt ''invalid proposer private key'' (pa_parse_key pa key))"

subsection \<open>The state of the process\<close>

datatype runtime_handle = CurrentRuntime | NewRuntime

datatype task = MetricsServer u16 | LokiTask url

record log_setup =
  lo_filter :: "string list"
  lo_file :: "(string \<times> usize) option"
  lo_loki :: "url option"

record process =
  po_statics :: alert_statics
  po_panic_hook :: bool
  po_log :: "log_setup option"
  po_runtime :: "runtime_handle option"
  po_tasks :: "task list"

definition process_new :: process where
  "process_new =
     \<lparr>po_statics = \<lparr>as_app_id = None, as_webhook_url = None, as_user = None\<rparr>, po_panic_hook = False,
      po_log = None, po_runtime = None, po_tasks = []\<rparr>"

text \<open>\<open>OnceLock::set\<close> with \<open>unwrap\<close>.\<close>

definition set_once :: "'a \<Rightarrow> 'a option \<Rightarrow> 'a option run" where
  "set_once v cell = (case cell of None \<Rightarrow> Inr (Some v) | Some _ \<Rightarrow> Inl ''called `Result::unwrap()` on an `Err` value'')"

definition init_statics :: "process_answers \<Rightarrow> string \<Rightarrow> process \<Rightarrow> process run" where
  "init_statics pa app_id p =
     bindR (set_once (ascii app_id) (as_app_id (po_statics p))) (\<lambda>a.
     bindR (case pa_env pa ''DISCORD_WEBHOOK_URL'' of
              None \<Rightarrow> Inr (as_webhook_url (po_statics p))
            | Some webhook_url \<Rightarrow>
                bindR (expect_opt ''invalid DISCORD_WEBHOOK_URL'' (pa_parse_url pa webhook_url)) (\<lambda>url.
                  set_once url (as_webhook_url (po_statics p)))) (\<lambda>w.
     bindR (case pa_env pa ''DISCORD_USER'' of
              None \<Rightarrow> Inr (as_user (po_statics p))
            | Some user_tag \<Rightarrow> set_once (ascii user_tag) (as_user (po_statics p))) (\<lambda>u.
       Inr (p\<lparr>po_statics := \<lparr>as_app_id = a, as_webhook_url = w, as_user = u\<rparr>\<rparr>))))"

definition init_panic_hook :: "process \<Rightarrow> process" where
  "init_panic_hook p = p\<lparr>po_panic_hook := True\<rparr>"

text \<open>What the hook does with a panic: \<open>info\<close> and \<open>backtrace\<close> are the texts of both.\<close>

definition on_panic :: "process \<Rightarrow> bytes \<Rightarrow> bytes \<Rightarrow> (string \<times> bytes) option run" where
  "on_panic p info backtrace =
     (if po_panic_hook p
      then alert_discord (po_statics p)
             (ascii ''panic: '' @ info @ [10] @ ascii ''full backtrace:'' @ [10] @ backtrace @ [10])
      else Inr None)"

definition OUR_CRATES :: "string list" where
  "OUR_CRATES = [''common'', ''proposer'', ''rpc'', ''sequencer'']"

definition get_crate_filter :: "string \<Rightarrow> string list" where
  "get_crate_filter crates_level =
     [''info''] @ map (\<lambda>our_crate. ''pc_'' @ our_crate @ ''='' @ crates_level) OUR_CRATES @
     [''gateway='' @ crates_level]"

text \<open>The three parts of \<open>init_tracing_log\<close>: the level, the file, and the Loki endpoint.\<close>

definition log_level :: "process_answers \<Rightarrow> string run" where
  "log_level pa =
     (case pa_env pa ''RUST_LOG'' of
        None \<Rightarrow> Inr ''INFO''
      | Some lev \<Rightarrow> expect_opt ''invalid RUST_LOG'' (pa_parse_level pa lev))"

definition log_file :: "process_answers \<Rightarrow> (string \<times> usize) option run" where
  "log_file pa =
     (case pa_env pa ''LOG_PATH'' of
        None \<Rightarrow> Inr None
      | Some path \<Rightarrow>
          bindR (expect_opt ''invalid MAX_LOGS''
                   (parse_uint (case pa_env pa ''MAX_LOGS'' of Some n \<Rightarrow> n | None \<Rightarrow> ''30''))) (\<lambda>max_logs.
            if pa_file_appender pa path max_logs then Inr (Some (path, max_logs))
            else Inl ''failed to create file log appender''))"

definition log_loki :: "process_answers \<Rightarrow> string \<Rightarrow> url option run" where
  "log_loki pa app_id =
     (case pa_env pa ''LOKI_ENDPOINT'' of
        None \<Rightarrow> Inr None
      | Some loki_url \<Rightarrow>
          bindR (expect_opt ''invalid LOKI_ENDPOINT value'' (pa_parse_url pa loki_url)) (\<lambda>url.
            if pa_loki pa app_id url then Inr (Some url)
            else Inl ''called `Result::unwrap()` on an `Err` value''))"

definition init_tracing_log :: "process_answers \<Rightarrow> string \<Rightarrow> process \<Rightarrow> process run" where
  "init_tracing_log pa app_id p =
     bindR (log_level pa) (\<lambda>level.
     bindR (log_file pa) (\<lambda>file.
     bindR (log_loki pa app_id) (\<lambda>loki.
       Inr (p\<lparr>po_log := Some \<lparr>lo_filter = get_crate_filter level, lo_file = file, lo_loki = loki\<rparr>,
              po_tasks := po_tasks p @ (case loki of Some url \<Rightarrow> [LokiTask url] | None \<Rightarrow> [])\<rparr>))))"

subsection \<open>Runtime and tasks\<close>

text \<open>\<open>main\<close> runs inside a runtime, so \<open>Handle::try_current\<close> finds it.\<close>

definition build_tokio_runtime :: "bool \<Rightarrow> runtime_handle" where
  "build_tokio_runtime inside = (if inside then CurrentRuntime else NewRuntime)"

definition init_runtime :: "bool \<Rightarrow> process \<Rightarrow> process" where
  "init_runtime inside p =
     p\<lparr>po_runtime := (case po_runtime p of Some h \<Rightarrow> Some h | None \<Rightarrow> Some (build_tokio_runtime inside))\<rparr>"

definition spawn :: "task \<Rightarrow> process \<Rightarrow> process run" where
  "spawn t p =
     (case po_runtime p of
        Some _ \<Rightarrow> Inr (p\<lparr>po_tasks := po_tasks p @ [t]\<rparr>)
      | None \<Rightarrow> Inl ''runtime has not been initialised!'')"

definition start_metrics_server :: "process_answers \<Rightarrow> process \<Rightarrow> process run" where
  "start_metrics_server pa p =
     bindR (case pa_env pa ''METRICS_PORT'' of
              None \<Rightarrow> Inr 9500
            | Some s \<Rightarrow> expect_opt ''invalid port'' (parse_uint s)) (\<lambda>port.
       spawn (MetricsServer port) p)"

text \<open>The answer of the metrics server: status, content type and body.\<close>

definition handle_metrics :: "string eyre \<Rightarrow> string \<Rightarrow> u16 \<times> string option \<times> string" where
  "handle_metrics encoded format_type =
     (case encoded of
        Inr s \<Rightarrow> (200, Some format_type, s)
      | Inl err \<Rightarrow> (500, None, ''''))"

subsection \<open>main\<close>

text \<open>Everything before \<open>run\<close>.\<close>

definition prepare_process :: "process_answers \<Rightarrow> (static_config \<times> address \<times> process) run" where
  "prepare_process pa =
     bindR (load_static_config pa) (\<lambda>config.
     bindR (load_env_vars pa) (\<lambda>operator.
     bindR (init_statics pa (st_app_id config) process_new) (\<lambda>p.
     bindR (init_tracing_log pa (st_app_id config) (init_panic_hook p)) (\<lambda>p.
     bindR (start_metrics_server pa (init_runtime True p)) (\<lambda>p.
       Inr (config, operator, p))))))"

definition gw_main ::
    "('p, 'q, 'c) proposer_lib \<Rightarrow> float_ops \<Rightarrow> (string \<Rightarrow> bytes eyre) \<Rightarrow> process_answers \<Rightarrow> start_answers \<Rightarrow>
     (process \<times> ('p, 'q, 'c) started option) run" where
  "gw_main lib fo hex_decode pa io =
     bindR (prepare_process pa) (\<lambda>(config, operator, p).
     bindR (run_gateway lib fo hex_decode config operator io) (\<lambda>r.
       case r of
         Inr g \<Rightarrow> Inr (p, g)
       | Inl err \<Rightarrow> Inl (''gateway exited with error: '' @ err)))"

end
