(* ===== verification/Metrics_Props.thy ===== *)
theory Metrics_Props
  imports Metrics
begin

text \<open>
  What the metrics guarantee: every call fits a registered metric, metrics can be registered in any
  order, and every request to the simulator is counted once.
\<close>

subsection \<open>Registration\<close>

fun kind_takes :: "metric_kind \<Rightarrow> metric_op \<Rightarrow> bool" where
  "kind_takes IntGauge (SetInt _) = True"
| "kind_takes IntGauge (AddInt _) = True"
| "kind_takes Gauge (SetFloat _) = True"
| "kind_takes IntCounter (IncBy _) = True"
| "kind_takes (Histogram _) (Observe _) = True"
| "kind_takes _ _ = False"

text \<open>A call with another number of labels than the metric has panics.\<close>

definition fits :: "metric_desc \<Rightarrow> metric_call \<Rightarrow> bool" where
  "fits d c \<longleftrightarrow> md_name d = mc_name c \<and> length (md_labels d) = length (mc_labels c) \<and> kind_takes (md_kind d) (mc_op c)"

text \<open>The arguments that \<open>exponential_buckets\<close> and \<open>linear_buckets\<close> accept, and the names that a metric
  may have.\<close>

fun buckets_ok :: "buckets \<Rightarrow> bool" where
  "buckets_ok (Exponential start factor n) \<longleftrightarrow> 1 \<le> n \<and> 0 < start \<and> 1 < factor"
| "buckets_ok (Linear start width n) \<longleftrightarrow> 1 \<le> n \<and> 0 < width"

definition digit :: "char \<Rightarrow> bool" where
  "digit c \<longleftrightarrow> (let n = of_char c :: nat in 48 \<le> n \<and> n \<le> 57)"

definition letter :: "char \<Rightarrow> bool" where
  "letter c \<longleftrightarrow> (let n = of_char c :: nat in n = 95 \<or> 97 \<le> n \<and> n \<le> 122)"

fun name_ok :: "string \<Rightarrow> bool" where
  "name_ok [] = False"
| "name_ok (c # cs) \<longleftrightarrow> letter c \<and> list_all (\<lambda>c. letter c \<or> digit c) cs"

definition desc_ok :: "metric_desc \<Rightarrow> bool" where
  "desc_ok d \<longleftrightarrow> name_ok (md_name d) \<and> list_all name_ok (md_labels d) \<and> distinct (md_labels d) \<and>
     md_help d \<noteq> [] \<and> (case md_kind d of Histogram b \<Rightarrow> buckets_ok b | _ \<Rightarrow> True)"

lemmas metric_tables =
  registered_metrics_def sequencer_metrics_def mempool_metrics_def blocks_metrics_def
  proposer_metrics_def info_metric_def metric_def

lemmas metric_calls =
  m_proposed_batches_def m_builder_batch_def m_builder_fallback_def m_batch_size_def
  m_batch_size_blocks_def m_proposal_latency_def m_proposal_reorg_def m_resync_def
  m_eth_balance_def m_token_balance_def m_token_bond_def m_prover_eth_balance_def
  m_l1_block_number_def m_l2_origin_block_number_def m_built_block_def m_l2_block_def
  m_preconf_block_def m_set_state_def m_set_is_proposer_def m_set_is_sequencer_def
  m_set_l1_sync_time_def m_record_sim_success_def m_record_sim_revert_def
  m_record_sim_invalid_def m_record_sim_unknown_def m_tx_received_def m_ws_reconnect_def
  record_metrics_def

lemma metrics_distinct: "distinct (map md_name (info_metric # registered_metrics))"
  by (simp add: metric_tables)

lemma metrics_well_formed: "list_all desc_ok (info_metric # registered_metrics)"
  by (simp add: metric_tables desc_ok_def letter_def digit_def)

definition registered :: "metric_call \<Rightarrow> bool" where
  "registered c \<longleftrightarrow> list_ex (\<lambda>d. fits d c) registered_metrics"

lemmas registered_eval = registered_def metric_tables fits_def

lemma requests_registered:
  "registered (call ''sequencer_sim_requests'' [a, b] (IncBy n))"
  "registered (call ''sequencer_sim_latency_secs'' [a] (Observe v))"
  by (simp_all add: registered_eval call_def)

lemma sm_drop_registered: "list_all registered (sm_drop now m)"
  by (simp add: sm_drop_def requests_registered)

lemma sequencer_registered:
  "registered (call ''sequencer_state'' [] (SetInt n))"
  "registered (call ''sequencer_is_proposer'' [] (SetInt n))"
  "registered (call ''sequencer_is_sequencer'' [] (SetInt n))"
  "registered (call ''sequencer_l1_sync_time'' [] (SetFloat v))"
  "registered (call ''sequencer_sorting_sims'' [a] (AddInt n))"
  by (simp_all add: registered_eval call_def)

lemma mempool_registered:
  "registered (call ''mempool_tx_count'' [] (IncBy k))"
  "registered (call ''mempool_ws_reconnects'' [] (IncBy k))"
  by (simp_all add: registered_eval call_def)

lemma blocks_registered:
  "registered (call ''blocks_l1'' [] (SetInt n))"
  "registered (call ''blocks_l2'' [] (SetInt n))"
  "registered (call ''blocks_l2_origin'' [] (SetInt n))"
  "registered (call ''blocks_built_count'' [] (IncBy k))"
  "registered (call ''blocks_built_build_time_secs'' [] (Observe v))"
  "registered (call ''blocks_built_value'' [] (SetFloat v))"
  "registered (call ''blocks_gas_used'' [] (SetFloat v))"
  "registered (call ''blocks_gas_limit'' [] (SetFloat v))"
  "registered (call ''blocks_base_fee'' [] (SetFloat v))"
  "registered (call ''preconf_block_time_secs'' [] (Observe v))"
  by (simp_all add: registered_eval call_def)

lemma proposer_registered:
  "registered (call ''proposer_proposed_batches'' [a] (IncBy k))"
  "registered (call ''builder_batches'' [] (IncBy k))"
  "registered (call ''builder_fallback'' [] (IncBy k))"
  "registered (call ''proposer_batch_size_bytes'' [] (Observe v))"
  "registered (call ''proposer_batch_size_blocks'' [] (IncBy k))"
  "registered (call ''proposer_proposal_latency_secs'' [] (Observe v))"
  "registered (call ''proposer_proposal_reorgs'' [] (IncBy k))"
  "registered (call ''proposer_resync_counts'' [a] (IncBy k))"
  "registered (call ''proposer_eth_balance'' [] (SetFloat v))"
  "registered (call ''proposer_token_balance'' [] (SetFloat v))"
  "registered (call ''proposer_token_bond'' [] (SetFloat v))"
  "registered (call ''prover_eth_balance'' [] (SetFloat v))"
  by (simp_all add: registered_eval call_def)

lemmas all_registered =
  sequencer_registered mempool_registered blocks_registered proposer_registered sm_drop_registered

lemma state_registered: "list_all registered (state_record_metrics st)"
  by (cases st) (simp_all add: m_set_state_def sequencer_registered)

lemma execution_registered: "list_all registered (record_execution_metrics r)"
  by (cases r rule: record_execution_metrics.cases)
    (simp_all add: m_record_sim_success_def m_record_sim_revert_def m_record_sim_invalid_def
      m_record_sim_unknown_def sequencer_registered)

lemma calls_registered: "list_all registered (calls_of e)"
  by (cases e)
    (simp_all add: metric_calls all_registered state_registered execution_registered
      simulate_anchor_traced_def seal_block_traced_def spawn_sim_tx_traced_def Let_def split: sum.split)

text \<open>C38: The metrics cannot bring the gateway down: the names of all registered metrics and of \<open>info\<close> are
  different, so they can be registered in whatever order they are first used; names, labels and bucket
  arguments are acceptable; and every call that the gateway makes goes to a registered metric of the
  right kind with as many label values as it has labels.\<close>

theorem metrics_well_registered:
  "distinct (map md_name (info_metric # registered_metrics)) \<and>
   list_all desc_ok (info_metric # registered_metrics) \<and>
   list_all registered (calls_made es)"
proof -
  have "list_all registered (calls_made es)"
    using calls_registered by (induction es) (simp_all add: calls_made_def)
  then show ?thesis using metrics_distinct metrics_well_formed by simp
qed

subsection \<open>Counting\<close>

text \<open>The requests among the events: the method, and whether the answer was no error.\<close>

fun sim_outcome :: "metric_event \<Rightarrow> (string \<times> bool) option" where
  "sim_outcome (SimulateAnchor io tx env extra t0 t1) =
     Some (''anchor'', \<not> isl (fst (simulate_anchor_traced io tx env extra t0 t1)))"
| "sim_outcome (SealRequest answer st t0 t1) = Some (''seal'', \<not> isl (fst (seal_block_traced answer st t0 t1)))"
| "sim_outcome (SimulateTx answer o1 st t0 t1) =
     Some (''simulate'', \<not> isl (fst (spawn_sim_tx_traced answer o1 st t0 t1)))"
| "sim_outcome _ = None"

definition result_label :: "bool \<Rightarrow> string" where
  "result_label ok = (if ok then ''success'' else ''failed'')"

lemma result_label_inj [simp]: "result_label a = result_label b \<longleftrightarrow> a = b"
  by (auto simp: result_label_def)

lemma counter_simps [simp]:
  "counter_value n labels [] = 0"
  "counter_value n labels (cs @ cs') = counter_value n labels cs + counter_value n labels cs'"
  by (simp_all add: counter_value_def)

lemma observations_simps [simp]:
  "observations n labels [] = []"
  "observations n labels (cs @ cs') = observations n labels cs @ observations n labels cs'"
  by (simp_all add: observations_def)

lemma drop_counted:
  "counter_value ''sequencer_sim_requests'' [meth, result_label ok] (sm_drop now m) =
     (if sm_method m = meth \<and> sm_has_completed m = ok then 1 else 0)"
  "length (observations ''sequencer_sim_latency_secs'' [meth] (sm_drop now m)) =
     (if sm_method m = meth \<and> sm_has_completed m then 1 else 0)"
  by (auto simp: sm_drop_def call_def counter_value_def observations_def result_label_def)

lemma others_not_counted:
  assumes "sim_outcome e = None"
  shows "counter_value ''sequencer_sim_requests'' labels (calls_of e) = 0"
    "observations ''sequencer_sim_latency_secs'' labels (calls_of e) = []"
proof -
  have st: "counter_value ''sequencer_sim_requests'' labels (state_record_metrics st) = 0"
    "observations ''sequencer_sim_latency_secs'' labels (state_record_metrics st) = []" for st
    by (cases st; simp add: m_set_state_def call_def counter_value_def observations_def)+
  have r: "counter_value ''sequencer_sim_requests'' labels (record_execution_metrics r) = 0"
    "observations ''sequencer_sim_latency_secs'' labels (record_execution_metrics r) = []" for r
    by (cases r rule: record_execution_metrics.cases;
        simp add: m_record_sim_success_def m_record_sim_revert_def m_record_sim_invalid_def
          m_record_sim_unknown_def call_def counter_value_def observations_def)+
  show "counter_value ''sequencer_sim_requests'' labels (calls_of e) = 0"
    using assms st(1) r(1)
    by (cases e) (simp_all add: metric_calls, simp_all add: call_def counter_value_def)
  show "observations ''sequencer_sim_latency_secs'' labels (calls_of e) = []"
    using assms st(2) r(2)
    by (cases e) (simp_all add: metric_calls, simp_all add: call_def observations_def)
qed

text \<open>A request drops its metric at the end, recorded iff the answer was no error.\<close>

definition traced_drop :: "string \<Rightarrow> bool \<Rightarrow> instant \<Rightarrow> instant \<Rightarrow> metric_call list" where
  "traced_drop meth ok t0 t1 = sm_drop t1 \<lparr>sm_method = meth, sm_has_completed = ok, sm_start = t0\<rparr>"

lemma traced_calls:
  "snd (simulate_anchor_traced io tx env extra t0 t1) =
     traced_drop ''anchor'' (\<not> isl (fst (simulate_anchor_traced io tx env extra t0 t1))) t0 t1"
  "snd (seal_block_traced sealing st t0 t1) =
     traced_drop ''seal'' (\<not> isl (fst (seal_block_traced sealing st t0 t1))) t0 t1"
  "snd (spawn_sim_tx_traced sim o1 st t0 t1) =
     traced_drop ''simulate'' (\<not> isl (fst (spawn_sim_tx_traced sim o1 st t0 t1))) t0 t1"
  by (simp_all add: simulate_anchor_traced_def seal_block_traced_def spawn_sim_tx_traced_def traced_drop_def
      simulator_metric_new_def sm_record_def Let_def split: sum.split)

lemma traced_counted:
  "counter_value ''sequencer_sim_requests'' [meth, result_label ok] (traced_drop meth' ok' t0 t1) =
     (if (meth', ok') = (meth, ok) then 1 else 0)"
  "length (observations ''sequencer_sim_latency_secs'' [meth] (traced_drop meth' ok' t0 t1)) =
     (if (meth', ok') = (meth, True) then 1 else 0)"
  by (simp_all add: traced_drop_def drop_counted)

lemma request_counted:
  "counter_value ''sequencer_sim_requests'' [meth, result_label ok] (calls_of e) =
     (if sim_outcome e = Some (meth, ok) then 1 else 0)"
  "length (observations ''sequencer_sim_latency_secs'' [meth] (calls_of e)) =
     (if sim_outcome e = Some (meth, True) then 1 else 0)"
proof -
  consider "sim_outcome e = None"
    | meth' ok' t0 t1 where "sim_outcome e = Some (meth', ok')" "calls_of e = traced_drop meth' ok' t0 t1"
    by (cases e) (auto simp: traced_calls)
  then have "counter_value ''sequencer_sim_requests'' [meth, result_label ok] (calls_of e) =
       (if sim_outcome e = Some (meth, ok) then 1 else 0) \<and>
     length (observations ''sequencer_sim_latency_secs'' [meth] (calls_of e)) =
       (if sim_outcome e = Some (meth, True) then 1 else 0)"
  proof cases
    case 1
    with others_not_counted[OF 1] show ?thesis by simp
  next
    case (2 meth' ok' t0 t1)
    then show ?thesis by (simp add: traced_counted)
  qed
  then show "counter_value ''sequencer_sim_requests'' [meth, result_label ok] (calls_of e) =
       (if sim_outcome e = Some (meth, ok) then 1 else 0)"
    and "length (observations ''sequencer_sim_latency_secs'' [meth] (calls_of e)) =
       (if sim_outcome e = Some (meth, True) then 1 else 0)"
    by simp_all
qed

text \<open>C37: Every request to the simulator is counted exactly once.  Whatever else is reported, the counter
  of a method and a result is the number of requests with this method and result, early returns
  included, and the latency histogram of a method has one observation for each successful request.\<close>

theorem simulator_requests_counted:
  "counter_value ''sequencer_sim_requests'' [meth, result_label ok] (calls_made es) =
     of_nat (length (filter (\<lambda>e. sim_outcome e = Some (meth, ok)) es)) \<and>
   length (observations ''sequencer_sim_latency_secs'' [meth] (calls_made es)) =
     length (filter (\<lambda>e. sim_outcome e = Some (meth, True)) es)"
  by (induction es) (simp_all add: calls_made_def request_counted)

end
