(* ===== verification/Main_Props.thy ===== *)
theory Main_Props
  imports Main_Setup Ledger Metrics_Props
begin

text \<open>
  When the process comes up, what it has set up by then, and what follows for the gateway that it runs.
\<close>

lemma expect_opt_ok [simp]: "expect_opt msg x = Inr v \<longleftrightarrow> x = Some v"
  by (cases x) (simp_all add: expect_opt_def)

lemma set_once_ok [simp]: "set_once v cell = Inr r \<longleftrightarrow> cell = None \<and> r = Some v"
  by (cases cell) (auto simp: set_once_def)

text \<open>A variable is missing, or the parser reads it.\<close>

fun absent_or :: "('a \<Rightarrow> 'b option) \<Rightarrow> 'a option \<Rightarrow> bool" where
  "absent_or parser None = True"
| "absent_or parser (Some text) = (parser text \<noteq> None)"

definition log_file_ok :: "process_answers \<Rightarrow> bool" where
  "log_file_ok pa \<longleftrightarrow> (case pa_env pa ''LOG_PATH'' of
       None \<Rightarrow> True
     | Some path \<Rightarrow>
         (case parse_uint (case pa_env pa ''MAX_LOGS'' of Some n \<Rightarrow> n | None \<Rightarrow> ''30'') of
            None \<Rightarrow> False
          | Some max_logs \<Rightarrow> pa_file_appender pa path max_logs))"

definition loki_ok :: "process_answers \<Rightarrow> string \<Rightarrow> bool" where
  "loki_ok pa app_id \<longleftrightarrow> (case pa_env pa ''LOKI_ENDPOINT'' of
       None \<Rightarrow> True
     | Some text \<Rightarrow> (case pa_parse_url pa text of None \<Rightarrow> False | Some url \<Rightarrow> pa_loki pa app_id url))"

definition metrics_port :: "process_answers \<Rightarrow> u16" where
  "metrics_port pa = (case pa_env pa ''METRICS_PORT'' of
       None \<Rightarrow> 9500 | Some text \<Rightarrow> (case parse_uint text of Some port \<Rightarrow> port | None \<Rightarrow> 0))"

lemma load_config_ok:
  "load_static_config pa = Inr config \<longleftrightarrow>
     (\<exists>path file. 1 < length (pa_args pa) \<and> path = pa_args pa ! 1 \<and> pa_read_file pa path = Some file \<and>
        pa_parse_toml pa file = Some config)"
  by (auto simp: load_static_config_def bindR_eq_Inr)

lemma load_env_ok:
  "load_env_vars pa = Inr operator \<longleftrightarrow>
     (\<exists>key. pa_env pa ''PROPOSER_SIGNER_KEY'' = Some key \<and> pa_parse_key pa key = Some operator)"
  by (auto simp: load_env_vars_def bindR_eq_Inr)

lemma init_statics_ok:
  "init_statics pa app_id process_new = Inr p \<longleftrightarrow>
     absent_or (pa_parse_url pa) (pa_env pa ''DISCORD_WEBHOOK_URL'') \<and>
     p = process_new\<lparr>po_statics :=
       \<lparr>as_app_id = Some (ascii app_id),
        as_webhook_url = Option.bind (pa_env pa ''DISCORD_WEBHOOK_URL'') (pa_parse_url pa),
        as_user = map_option ascii (pa_env pa ''DISCORD_USER'')\<rparr>\<rparr>"
  by (cases "pa_env pa ''DISCORD_WEBHOOK_URL''"; cases "pa_env pa ''DISCORD_USER''")
     (auto simp: init_statics_def process_new_def bindR_eq_Inr)

lemma ex_bind: "(\<exists>y. bindR m f = Inr y) \<longleftrightarrow> (\<exists>x. m = Inr x \<and> (\<exists>y. f x = Inr y))"
  by (cases m) auto

lemma log_parts_ok:
  "(\<exists>x. log_level pa = Inr x) \<longleftrightarrow> absent_or (pa_parse_level pa) (pa_env pa ''RUST_LOG'')"
  "(\<exists>x. log_file pa = Inr x) \<longleftrightarrow> log_file_ok pa"
  "(\<exists>x. log_loki pa app_id = Inr x) \<longleftrightarrow> loki_ok pa app_id"
  by (cases "pa_env pa ''RUST_LOG''"; cases "pa_env pa ''LOG_PATH''"; cases "pa_env pa ''LOKI_ENDPOINT''";
      simp add: log_level_def log_file_def log_loki_def log_file_ok_def loki_ok_def expect_opt_def split: option.splits)+

lemma init_log_ok:
  "(\<exists>q. init_tracing_log pa app_id p = Inr q) \<longleftrightarrow>
     absent_or (pa_parse_level pa) (pa_env pa ''RUST_LOG'') \<and> log_file_ok pa \<and> loki_ok pa app_id"
  unfolding init_tracing_log_def ex_bind log_parts_ok[symmetric] by blast

lemma init_log_frame:
  "init_tracing_log pa app_id p = Inr q \<Longrightarrow>
     po_statics q = po_statics p \<and> po_panic_hook q = po_panic_hook p \<and> po_runtime q = po_runtime p"
  by (auto simp: init_tracing_log_def bindR_eq_Inr)

lemma metrics_server_ok:
  "start_metrics_server pa p = Inr q \<longleftrightarrow>
     absent_or (parse_uint :: string \<Rightarrow> u16 option) (pa_env pa ''METRICS_PORT'') \<and> po_runtime p \<noteq> None \<and>
     q = p\<lparr>po_tasks := po_tasks p @ [MetricsServer (metrics_port pa)]\<rparr>"
  by (cases "pa_env pa ''METRICS_PORT''"; cases "po_runtime p")
     (auto simp: start_metrics_server_def bindR_eq_Inr metrics_port_def spawn_def)

lemma prepared_exact:
  assumes "prepare_process pa = Inr (config, operator, p)"
  shows "load_static_config pa = Inr config \<and> load_env_vars pa = Inr operator \<and>
    po_statics p =
      \<lparr>as_app_id = Some (ascii (st_app_id config)),
       as_webhook_url = Option.bind (pa_env pa ''DISCORD_WEBHOOK_URL'') (pa_parse_url pa),
       as_user = map_option ascii (pa_env pa ''DISCORD_USER'')\<rparr> \<and>
    po_panic_hook p \<and> po_runtime p = Some CurrentRuntime \<and> MetricsServer (metrics_port pa) \<in> set (po_tasks p)"
proof -
  from assms obtain p1 p2 where parts: "load_static_config pa = Inr config" "load_env_vars pa = Inr operator"
    "init_statics pa (st_app_id config) process_new = Inr p1"
    "init_tracing_log pa (st_app_id config) (init_panic_hook p1) = Inr p2"
    "start_metrics_server pa (init_runtime True p2) = Inr p"
    by (auto simp: prepare_process_def bindR_eq_Inr)
  have statics: "p1 = process_new\<lparr>po_statics :=
      \<lparr>as_app_id = Some (ascii (st_app_id config)),
       as_webhook_url = Option.bind (pa_env pa ''DISCORD_WEBHOOK_URL'') (pa_parse_url pa),
       as_user = map_option ascii (pa_env pa ''DISCORD_USER'')\<rparr>\<rparr>"
    using parts(3) init_statics_ok by blast
  have "po_statics p = po_statics p1" "po_panic_hook p" "po_runtime p = Some CurrentRuntime"
    "MetricsServer (metrics_port pa) \<in> set (po_tasks p)"
    using init_log_frame[OF parts(4)] parts(5) statics
    by (auto simp: metrics_server_ok init_runtime_def build_tokio_runtime_def init_panic_hook_def process_new_def)
  with parts(1,2) statics show ?thesis by simp
qed

lemma prepared_iff:
  "(\<exists>config operator p. prepare_process pa = Inr (config, operator, p)) \<longleftrightarrow>
   (\<exists>config operator. load_static_config pa = Inr config \<and> load_env_vars pa = Inr operator \<and>
      absent_or (pa_parse_url pa) (pa_env pa ''DISCORD_WEBHOOK_URL'') \<and>
      absent_or (pa_parse_level pa) (pa_env pa ''RUST_LOG'') \<and> log_file_ok pa \<and>
      loki_ok pa (st_app_id config) \<and>
      absent_or (parse_uint :: string \<Rightarrow> u16 option) (pa_env pa ''METRICS_PORT''))"
proof -
  have triple: "(\<exists>config operator p. m = Inr (config, operator, p)) \<longleftrightarrow> (\<exists>r. m = Inr r)"
    for m :: "(static_config \<times> address \<times> process) run" by auto
  have server: "(\<exists>q. start_metrics_server pa (init_runtime True p) = Inr q) \<longleftrightarrow>
      absent_or (parse_uint :: string \<Rightarrow> u16 option) (pa_env pa ''METRICS_PORT'')" for p
    by (simp add: metrics_server_ok init_runtime_def split: option.split)
  have statics: "(\<exists>q. init_statics pa app process_new = Inr q) \<longleftrightarrow>
      absent_or (pa_parse_url pa) (pa_env pa ''DISCORD_WEBHOOK_URL'')" for app
    by (simp add: init_statics_ok)
  have tail: "(\<exists>x. init_tracing_log pa app (init_panic_hook p) = Inr x \<and>
        (\<exists>y. start_metrics_server pa (init_runtime True x) = Inr y)) \<longleftrightarrow>
      (absent_or (pa_parse_level pa) (pa_env pa ''RUST_LOG'') \<and> log_file_ok pa \<and> loki_ok pa app) \<and>
      absent_or (parse_uint :: string \<Rightarrow> u16 option) (pa_env pa ''METRICS_PORT'')" for app p
    unfolding server init_log_ok[symmetric, of pa app "init_panic_hook p"] by blast
  have last: "(\<exists>y. (Inr (c, o1, q) :: (static_config \<times> address \<times> process) run) = Inr y)" for c o1 q by simp
  show ?thesis
    unfolding triple prepare_process_def ex_bind
    using statics tail last by metis
qed

text \<open>When \<open>main\<close> gets as far as \<open>run\<close>, and with what.  It does so exactly if the file is given, readable
  and valid, the key is set and valid, and every optional variable is missing or valid; then the statics
  of the alerts hold the app id of the file and the webhook and user of the environment, the panic hook
  is set, and the runtime is there, so that the metrics server, which needs it, has been spawned on the
  given port or 9500.\<close>

theorem main_comes_up:
  "((\<exists>config operator p. prepare_process pa = Inr (config, operator, p)) \<longleftrightarrow>
    (\<exists>config operator. load_static_config pa = Inr config \<and> load_env_vars pa = Inr operator \<and>
       absent_or (pa_parse_url pa) (pa_env pa ''DISCORD_WEBHOOK_URL'') \<and>
       absent_or (pa_parse_level pa) (pa_env pa ''RUST_LOG'') \<and> log_file_ok pa \<and>
       loki_ok pa (st_app_id config) \<and>
       absent_or (parse_uint :: string \<Rightarrow> u16 option) (pa_env pa ''METRICS_PORT''))) \<and>
   (prepare_process pa = Inr (config, operator, p) \<longrightarrow>
     po_statics p =
       \<lparr>as_app_id = Some (ascii (st_app_id config)),
        as_webhook_url = Option.bind (pa_env pa ''DISCORD_WEBHOOK_URL'') (pa_parse_url pa),
        as_user = map_option ascii (pa_env pa ''DISCORD_USER'')\<rparr> \<and>
     po_panic_hook p \<and> po_runtime p = Some CurrentRuntime \<and>
     MetricsServer (metrics_port pa) \<in> set (po_tasks p))"
  using prepared_iff[of pa] prepared_exact[of pa config operator p] by blast

text \<open>A variable that is optional has to be missing: with an empty url the gateway stops.\<close>

lemma empty_webhook_stops:
  assumes "load_static_config pa = Inr config" "load_env_vars pa = Inr operator"
    and "pa_env pa ''DISCORD_WEBHOOK_URL'' = Some []" "pa_parse_url pa [] = None"
  shows "prepare_process pa = Inl ''invalid DISCORD_WEBHOOK_URL''"
  using assms by (simp add: prepare_process_def init_statics_def process_new_def set_once_def expect_opt_def)

subsection \<open>A start of the process\<close>

definition fx_process :: process_answers where
  "fx_process =
     \<lparr>pa_args = [''gateway'', ''gateway.toml''],
      pa_read_file = (\<lambda>path. if path = ''gateway.toml'' then Some ''config'' else None),
      pa_parse_toml = (\<lambda>_. Some fx_static),
      pa_env = [''PROPOSER_SIGNER_KEY'' \<mapsto> ''0x07'', ''METRICS_PORT'' \<mapsto> ''9501'',
                ''DISCORD_WEBHOOK_URL'' \<mapsto> ''https://alerts''],
      pa_parse_key = (\<lambda>_. Some 7), pa_parse_url = (\<lambda>text. if text = [] then None else Some text),
      pa_parse_level = (\<lambda>_. Some ''INFO''), pa_file_appender = (\<lambda>_ _. True), pa_loki = (\<lambda>_ _. True)\<rparr>"

lemma fx_port: "parse_uint ''9501'' = Some (9501 :: u16)"
  by (simp add: parse_uint_def parse_nat_def is_digit_def digits_value_def)

lemma fx_prepared: "\<exists>p. prepare_process fx_process = Inr (fx_static, 7, p)"
proof -
  have load: "load_static_config fx_process = Inr fx_static" "load_env_vars fx_process = Inr 7"
    by (simp_all add: load_config_ok load_env_ok fx_process_def)
  moreover have "absent_or (pa_parse_url fx_process) (pa_env fx_process ''DISCORD_WEBHOOK_URL'')"
    "absent_or (pa_parse_level fx_process) (pa_env fx_process ''RUST_LOG'')" "log_file_ok fx_process"
    "loki_ok fx_process (st_app_id fx_static)"
    "absent_or (parse_uint :: string \<Rightarrow> u16 option) (pa_env fx_process ''METRICS_PORT'')"
    by (simp_all add: fx_process_def log_file_ok_def loki_ok_def fx_port)
  ultimately obtain config operator p where "prepare_process fx_process = Inr (config, operator, p)"
    using prepared_iff[of fx_process] by blast
  with prepared_exact[OF this] load show ?thesis by auto
qed

theorem main_comes_up_witness:
  "\<exists>p. prepare_process fx_process = Inr (fx_static, 7, p) \<and> MetricsServer 9501 \<in> set (po_tasks p) \<and>
     as_webhook_url (po_statics p) = Some ''https://alerts''"
proof -
  obtain p where p: "prepare_process fx_process = Inr (fx_static, 7, p)" using fx_prepared by blast
  have "metrics_port fx_process = 9501" "Option.bind (pa_env fx_process ''DISCORD_WEBHOOK_URL'') (pa_parse_url fx_process) =
      Some ''https://alerts''"
    by (simp_all add: metrics_port_def fx_process_def fx_port)
  with p main_comes_up[of fx_process fx_static 7 p] show ?thesis by simp
qed

subsection \<open>Panics are reported\<close>

text \<open>Once \<open>main\<close> has come up with a webhook, a panic whose texts are ASCII is posted, cut at 1850 bytes,
  with the user and the app id in front.  A text with other characters can be cut inside one of them:
  then the hook itself panics (\<open>alert_panics_iff\<close>).\<close>

lemma panics_are_reported:
  assumes "prepare_process pa = Inr (config, operator, p)"
    and "pa_env pa ''DISCORD_WEBHOOK_URL'' = Some text"
    and "\<forall>b \<in> set info \<union> set backtrace. b < 128"
  shows "\<exists>url msg. pa_parse_url pa text = Some url \<and> on_panic p info backtrace = Inr (Some (url, msg))"
proof -
  have st: "po_panic_hook p" "as_webhook_url (po_statics p) = pa_parse_url pa text"
    using prepared_exact[OF assms(1)] assms(2) by auto
  have "pa_parse_url pa text \<noteq> None" using prepared_iff[of pa] assms(1,2) by auto
  then obtain url where url: "pa_parse_url pa text = Some url" by blast
  let ?log = "ascii ''panic: '' @ info @ [10] @ ascii ''full backtrace:'' @ [10] @ backtrace @ [10]"
  have "\<forall>b \<in> set (ascii ''panic: '') \<union> set (ascii ''full backtrace:''). b < 128"
    by (simp add: ascii_def)
  with assms(3) have "\<forall>b \<in> set ?log. b < 128" by auto
  then obtain r where r: "alert_discord (po_statics p) ?log = Inr r"
    using ascii_alerts_are_sent by blast
  with st url have "\<exists>msg. r = Some (url, msg)"
    by (auto simp: alert_discord_def Let_def split: if_splits)
  with r st(1) url show ?thesis by (auto simp: on_panic_def)
qed

end
