(* ===== verification/Spec2Isabelle.thy ===== *)
theory Spec2Isabelle
  imports Pool_Props Sort_Props Lookahead_Props Seq_Context_Props Seq_Props Pending_Books
    Startup_Props Confirmation Intake Utilities Pool_Spec Sort_Report Gateway_Safety Main_Props
begin

text \<open>
  A verification development of the Taiko gateway, a based-rollup sequencer and proposer in Rust.

  \<^bold>\<open>The program.\<close>  The gateway builds L2 blocks for the slots in which its operator is scheduled and
  proposes them in batches to the L1.  Transactions come in over JSON-RPC and from the mempool of an L2
  node (\<open>crates/rpc\<close>).  The sequencer thread (\<open>crates/sequencer\<close>) keeps them in a pool, follows the L1,
  the preconfirmed L2 blocks and the confirmed ones, and, while it may sequence, repeats: anchor a block
  on a recent L1 block, sort the orders of a snapshot of the pool by simulating them in rounds against
  the block so far, seal the block at the simulator, gossip it as a soft block, and add it to the pending
  batch.  Finished batches go through a channel to the proposer task (\<open>crates/proposer\<close>), which compresses
  a batch into blobs, sends \<open>proposeBatch\<close> transactions with rising fees until one lands, and after a
  change of turn rebuilds batches from the blocks of the chain that were never proposed.  Both share two
  atomics, the number of batches that wait to be proposed and whether proposing is delayed
  (\<open>crates/common\<close>, which also holds configuration, slot clock, operator schedule and balances).

  \<^bold>\<open>Conventions.\<close>  Definitions have the names of the source, with a prefix where several types have an
  operation of one name (\<open>tl_\<close> for \<open>TxList\<close>, \<open>ao_\<close> for \<open>ActiveOrders\<close>, \<open>tp_\<close> for \<open>TxPool\<close>).  A struct is
  a record, an enum a datatype, an integer a word of its width that wraps around (the release profile
  has no overflow checks; \<open>debug_assert\<close> is compiled out).  \<open>'a run\<close> is a computation that may panic:
  \<open>Inl\<close> carries the message.  \<open>'a eyre\<close> is a result whose error the caller handles; the two levels
  compose with \<open>bindR\<close> and \<open>bindE\<close>.  Clocks, answers of nodes, contracts, peers and the simulator are
  inputs of the operation that reads them, so that every theorem is about all of their behaviours.
  Mutable state is passed and returned; channels are lists in the state of the receiver.

  \<^bold>\<open>Theories.\<close>
  \<^item> \<^theory_text>\<open>Gw_Prelude\<close>, \<^theory_text>\<open>Eyre\<close>: words, panics, errors, clocks, ranges of blocks.  \<^theory_text>\<open>Rust_Maps\<close>: \<open>BTreeMap\<close> and
    \<open>HashMap\<close> behind the locales \<open>key_map\<close> and \<open>ordered_key_map\<close>.  \<^theory_text>\<open>Rust_Str\<close>: string methods of \<open>std\<close>.
    \<^theory_text>\<open>Event_Runs\<close>: runs of a component over events, with the locales \<open>guarded_system\<close> (a handler keeps an
    invariant or stops with an allowed panic), \<open>safe_system\<close> (no panic at all) and \<open>tracked_system\<close>
    (a quantity that steps keep), interpreted by pool, sorting loop, chain view, schedule loop, the
    sequencer and the composition of sequencer and proposer.
  \<^item> \<^theory_text>\<open>Gw_Orders\<close>: orders, state ids, execution results, nonce caches (\<open>common/sequencer.rs\<close>,
    \<open>sequencer/types.rs\<close>).  \<^theory_text>\<open>Tx_List\<close>, \<^theory_text>\<open>Tx_Pool\<close>, \<^theory_text>\<open>Pool_Props\<close>: \<open>TxList\<close>, \<open>ActiveOrders\<close> and \<open>TxPool\<close>
    (\<open>tx_pool.rs\<close>, \<open>sorting.rs\<close>); the pool never panics, keeps what it accepts, and its snapshot holds
    exactly what can run next.  \<^theory_text>\<open>Pool_Spec\<close>: the pool as a map from sender and nonce to orders, with which
    every operation commutes.
  \<^item> \<^theory_text>\<open>Sort_Data\<close>, \<^theory_text>\<open>Sort_Loop\<close>, \<^theory_text>\<open>Sort_Round\<close>, \<^theory_text>\<open>Sort_Props\<close>: the block builder \<open>SortData\<close>
    (\<open>sorting.rs\<close>); its assertions never fail, the orders of a block chain their nonces per sender, gas and
    payments add up, a round applies the best valid order of what was simulated.  \<^theory_text>\<open>Sort_Report\<close>: the report
    on the simulations of a block, whose counters are exactly the answers that came back.
  \<^item> \<^theory_text>\<open>Lookahead\<close>, \<^theory_text>\<open>Lookahead_Props\<close>: slot clock, schedule and background loops (\<open>beacon.rs\<close>,
    \<open>taiko/lookahead.rs\<close>); the window of an operator in seconds, and that two operators never overlap.
  \<^item> \<^theory_text>\<open>Seq_Context\<close>, \<^theory_text>\<open>Seq_Context_Props\<close>: the chain view (\<open>context.rs\<close>) and what every block does to it.
  \<^item> \<^theory_text>\<open>Anchor_Tx\<close>: block environment and anchor transaction (\<open>pacaya/anchor.rs\<close>, \<open>simulator.rs\<close>).
    \<^theory_text>\<open>Batch_Data\<close>: batches, chain parameters and the shared atomics (\<open>common/proposer.rs\<close>, \<open>config.rs\<close>).
  \<^item> \<^theory_text>\<open>Seq_Machine\<close>, \<^theory_text>\<open>Seq_Inv\<close>, \<^theory_text>\<open>Seq_Fixtures\<close>, \<^theory_text>\<open>Seq_Props\<close>: the loop of \<open>sequencer.rs\<close>, one definition
    per method, composed as \<open>run\<close> composes them; the invariant of the loop and the history of sealed blocks.
    \<open>deliberate\<close> lists the panics that the authors intend.  \<^theory_text>\<open>Services\<close>, \<^theory_text>\<open>Services_Props\<close>: its HTTP and
    JSON-RPC calls (\<open>soft_block.rs\<close>, \<open>jwt.rs\<close>, \<open>simulator.rs\<close>), and that only accepted blocks are kept.
  \<^item> \<^theory_text>\<open>Blob_Codec\<close>, \<^theory_text>\<open>Propose_Call\<close>, \<^theory_text>\<open>Batch_Requests\<close>, \<^theory_text>\<open>Error_Parsers\<close>, \<^theory_text>\<open>L1_Client\<close>, \<^theory_text>\<open>Resync_Plan\<close>,
    \<^theory_text>\<open>Proposer\<close>: the proposer from blob encoding to the loop over requests (\<open>taiko/blob.rs\<close>,
    \<open>pacaya/propose.rs\<close>, \<open>manager.rs\<close>, \<open>client.rs\<close>, \<open>builder.rs\<close> and the texts of errors).
    \<^theory_text>\<open>Proposer_Props\<close>: blobs hold the batch, requests and resync plans cover their blocks, the conditions
    for landing.  \<^theory_text>\<open>Retry_Props\<close>: the retry loop settles, stops or lands, and fees rise.
  \<^item> \<^theory_text>\<open>Batch_Watch\<close>: the locale \<open>batch_watch\<close>, the contract of a property of the batches alone, and that
    every operation of the sequencer keeps such a property.  \<^theory_text>\<open>Pending_Books\<close>: sequencer and proposer
    together; the pending counter is exactly the number of batches that wait.  \<^theory_text>\<open>Ledger\<close>: the
    abstract specification of both, a ledger of settled, waiting and open batches, and the refinement;
    the two theories interpret \<open>batch_watch\<close>.  \<^theory_text>\<open>Gateway_Safety\<close>: which panics the proposer can end in, and
    that a started gateway, in every interleaving of its threads, implements the ledger up to one of the
    intended panics.
  \<^item> \<^theory_text>\<open>Block_Feed\<close>, \<^theory_text>\<open>Feed_Props\<close>: the tasks of \<open>fetcher.rs\<close>.  \<^theory_text>\<open>Confirmation\<close>: feed and chain view together,
    which of our blocks are checked against the chain.  \<^theory_text>\<open>Intake\<close>: the RPC crate.
  \<^item> \<^theory_text>\<open>Gw_Config\<close>, \<^theory_text>\<open>Config_Props\<close>, \<^theory_text>\<open>Balance\<close>, \<^theory_text>\<open>Balance_Props\<close>: \<open>config.rs\<close> and \<open>balance.rs\<close>.
  \<^item> \<^theory_text>\<open>Startup\<close>, \<^theory_text>\<open>Startup_Props\<close>: \<open>main.rs\<close>, \<open>checks.rs\<close>, \<open>start_sequencer\<close>; what a successful start
    establishes, which discharges the hypotheses of the theorems on runs of the sequencer.
    \<^theory_text>\<open>Main_Setup\<close>, \<^theory_text>\<open>Main_Props\<close>: the process around it, from the arguments to the call of \<open>run\<close>: file,
    environment, statics, log, panic hook, runtime and metrics server, and when it comes up.
  \<^item> \<^theory_text>\<open>Metrics\<close>, \<^theory_text>\<open>Metrics_Props\<close>: \<open>metrics.rs\<close> as the calls that every operation makes; they fit the
    registered metrics, and each request to the simulator is counted once.
  \<^item> \<^theory_text>\<open>Utilities\<close>: the signature with a fixed nonce (\<open>fixed_signer.rs\<close>) and the text of alerts (\<open>utils.rs\<close>).

  \<^bold>\<open>Bounds and fuel.\<close>  Loops of the source that wait for the world are structural recursions over the
  list of inputs that they are given, so that every finite prefix of a run is covered; an input list that
  ends before the loop does gives a value of its own (\<open>InProgress\<close>, \<open>WaitMore\<close>, \<open>okE None\<close>).  The retry
  loop of the proposer ends after \<open>MAX_RETRIES\<close> counted failures.  Loops over data end by a measure.

  \<^bold>\<open>Parameters.\<close>  Third-party code: keccak and signatures, RLP, zlib, ABI and KZG libraries, JSON and hex
  decoding, the token library, and arithmetic on \<open>f64\<close> (\<open>float_ops\<close>, the throttle of the block size, the
  estimate of the compressed size).  Comparisons of floats are defined, with NaN and infinities.

  \<^bold>\<open>Not modelled.\<close>  The text of log lines, the transport of alerts and of metrics, the parsers of the
  TOML file, of keys and of urls, sockets and HTTP clients
  themselves, the generated contract bindings, tests and the load generator.  Concurrency is modelled at
  the points where threads meet: channels and atomics are updated between the steps of a component, in
  any order; a step of a component is atomic for the others.
\<close>

end
